(* ===== verification/Prelude.thy ===== *)
theory Prelude
  imports Main "HOL-Library.Word"
begin

text \<open>
  Shared vocabulary of the development: the fixed width integers of
  \<^verbatim>\<open>freestanding/types.h\<close>, C bit-fields as (offset, width) pairs on a word, little endian
  byte lists, counted loops, and the lemma collections the component theories use.
\<close>

unbundle bit_operations_syntax

named_theorems bf_simps \<open>reading a bit-field of a word that was assembled by bit-field writes\<close>
named_theorems mem_simps \<open>reading memory after a write\<close>
named_theorems loop_simps \<open>unfolding counted loops\<close>

section \<open>Machine integers (freestanding/types.h)\<close>

type_synonym u8 = "8 word"
type_synonym u16 = "16 word"
type_synonym u32 = "32 word"
type_synonym u64 = "64 word"

section \<open>Bit-fields\<close>

text \<open>
  A member of a C++ bit-field struct is the pair of its least significant bit and its width;
  \<open>bf_get\<close> is the read of the member and \<open>bf_set\<close> the assignment, which truncates the
  assigned value to the member's width and leaves the other bits alone.
\<close>

type_synonym bitfield = "nat \<times> nat"

definition bf_get :: "bitfield \<Rightarrow> 'a::len word \<Rightarrow> 'a word" where
  "bf_get f x = take_bit (snd f) (drop_bit (fst f) x)"

definition bf_set :: "bitfield \<Rightarrow> 'a::len word \<Rightarrow> 'a word \<Rightarrow> 'a word" where
  "bf_set f v x =
     (x AND NOT (push_bit (fst f) (mask (snd f)))) OR push_bit (fst f) (take_bit (snd f) v)"

definition bf_fits :: "nat \<Rightarrow> bitfield \<Rightarrow> bool" where
  "bf_fits n f \<longleftrightarrow> 0 < snd f \<and> fst f + snd f \<le> n"

definition bf_disjoint :: "bitfield \<Rightarrow> bitfield \<Rightarrow> bool" where
  "bf_disjoint f g \<longleftrightarrow> fst f + snd f \<le> fst g \<or> fst g + snd g \<le> fst f"

lemma bit_bf_get:
  "bit (bf_get f x) i \<longleftrightarrow> i < snd f \<and> bit x (fst f + i)"
  for x :: "'a::len word"
  by (auto simp: bf_get_def bit_simps dest: bit_imp_le_length)

lemma bit_bf_set:
  "bit (bf_set f v x) i \<longleftrightarrow>
     i < LENGTH('a) \<and> (if fst f \<le> i \<and> i < fst f + snd f then bit v (i - fst f) else bit x i)"
  for x :: "'a::len word"
  by (auto simp: bf_set_def bit_simps dest: bit_imp_le_length)

lemma bf_get_set_same [bf_simps]:
  "bf_fits LENGTH('a) f \<Longrightarrow> bf_get f (bf_set f v x) = take_bit (snd f) v"
  for x :: "'a::len word"
  by (rule bit_word_eqI) (auto simp: bit_bf_get bit_bf_set bit_take_bit_iff bf_fits_def)

lemma bf_get_set_other [bf_simps]:
  "bf_disjoint f g \<Longrightarrow> bf_get g (bf_set f v x) = bf_get g x"
  for x :: "'a::len word"
  by (rule bit_word_eqI)
    (auto simp: bit_bf_get bit_bf_set bf_disjoint_def dest: bit_imp_le_length)

lemma bf_get_0 [simp]: "bf_get f 0 = 0"
  by (simp add: bf_get_def)

lemma bf_get_le_mask: "bf_get f x \<le> mask (snd f)"
  for x :: "'a::len word"
  by (simp add: bf_get_def take_bit_eq_mask word_and_le1)

lemma bf_disjoint_sym: "bf_disjoint f g \<longleftrightarrow> bf_disjoint g f"
  by (auto simp: bf_disjoint_def)

lemma bf_set_commute:
  "bf_disjoint f g \<Longrightarrow> bf_set f v (bf_set g w x) = bf_set g w (bf_set f v x)"
  for x :: "'a::len word"
  by (rule bit_word_eqI) (auto simp: bit_bf_set bf_disjoint_def)

lemma bf_set_get_id: "bf_set f (bf_get f x) x = x"
  for x :: "'a::len word"
  by (rule bit_word_eqI) (auto simp: bit_bf_get bit_bf_set dest: bit_imp_le_length)

text \<open>A one bit member is a flag; \<open>bf_flag\<close> is its use as a condition.\<close>

definition bf_flag :: "bitfield \<Rightarrow> 'a::len word \<Rightarrow> bool" where
  "bf_flag f x \<longleftrightarrow> bf_get f x \<noteq> 0"

lemma bf_flag_bit: "snd f = 1 \<Longrightarrow> bf_flag f x \<longleftrightarrow> bit x (fst f)"
  for x :: "'a::len word"
proof -
  assume "snd f = 1"
  then have "bit (bf_get f x) i \<longleftrightarrow> i = 0 \<and> bit x (fst f)" for i
    by (auto simp: bit_bf_get)
  then show ?thesis
    unfolding bf_flag_def by (metis bit_word_eqI bit_0_eq bot_apply bot_bool_def)
qed

section \<open>Little endian bytes\<close>

primrec to_le :: "nat \<Rightarrow> 'a::len word \<Rightarrow> u8 list" where
  "to_le 0 w = []"
| "to_le (Suc n) w = ucast w # to_le n (drop_bit 8 w)"

primrec of_le :: "u8 list \<Rightarrow> 'a::len word" where
  "of_le [] = 0"
| "of_le (b # bs) = ucast b OR push_bit 8 (of_le bs)"

lemma length_to_le [simp]: "length (to_le n w) = n"
  by (induction n arbitrary: w) auto

lemma bit_of_le:
  "bit (of_le bs :: 'a::len word) i \<longleftrightarrow>
     i < LENGTH('a) \<and> i div 8 < length bs \<and> bit (bs ! (i div 8)) (i mod 8)"
proof (induction bs arbitrary: i)
  case Nil
  then show ?case by simp
next
  case (Cons b bs)
  have "bit b i \<Longrightarrow> i < 8" for i
    using bit_imp_le_length[of b i] by simp
  moreover have "i \<ge> 8 \<Longrightarrow> i div 8 = Suc ((i - 8) div 8)" and "i \<ge> 8 \<Longrightarrow> (i - 8) mod 8 = i mod 8"
    by (simp_all add: le_div_geq le_mod_geq)
  ultimately show ?case
    by (cases "i < 8") (auto simp: bit_simps Cons.IH nth_Cons')
qed

lemma nth_to_le:
  "k < n \<Longrightarrow> to_le n w ! k = ucast (drop_bit (8 * k) w)"
proof (induction n arbitrary: w k)
  case 0
  then show ?case by simp
next
  case (Suc n)
  then show ?case
    by (cases k) (auto simp: drop_bit_drop_bit ac_simps)
qed

lemma of_le_to_le: "of_le (to_le n w) = take_bit (8 * n) w"
  for w :: "'a::len word"
proof (rule bit_word_eqI)
  fix i
  assume "i < LENGTH('a)"
  have "i < n * 8 \<longleftrightarrow> i div 8 < n" by (simp add: less_mult_imp_div_less div_less_iff_less_mult)
  moreover have "i mod 8 < 8" and "8 * (i div 8) + i mod 8 = i" by simp_all
  ultimately show "bit (of_le (to_le n w) :: 'a word) i \<longleftrightarrow> bit (take_bit (8 * n) w) i"
    using \<open>i < LENGTH('a)\<close>
    by (auto simp: bit_of_le nth_to_le bit_simps ac_simps)
qed

lemma of_le_to_le_full [simp]:
  "LENGTH('a) \<le> 8 * n \<Longrightarrow> of_le (to_le n w) = w" for w :: "'a::len word"
  by (simp add: of_le_to_le take_bit_word_eq_self)

section \<open>Words as naturals\<close>

lemma unat_lt_power: "unat a < 2 ^ LENGTH('a)" for a :: "'a::len word"
  by (rule unsigned_less)

lemma unat_lt64: "unat (a :: u64) < 2 ^ 64"
  using unat_lt_power[of a] by simp

lemma unat_of_nat_small:
  "i < 2 ^ LENGTH('a) \<Longrightarrow> unat (of_nat i :: 'a::len word) = i"
  by (simp add: unat_of_nat)

lemma unat_add_small:
  "unat x + i < 2 ^ LENGTH('a) \<Longrightarrow> unat (x + of_nat i) = unat x + i" for x :: "'a::len word"
  by (simp add: unat_word_ariths unat_of_nat)

lemma unat_uminus:
  "x \<noteq> 0 \<Longrightarrow> unat (- x) = 2 ^ LENGTH('a) - unat x" for x :: "'a::len word"
  using unat_sub_if_size[of 0 x] unat_lt_power[of x]
  by (auto simp: word_size unat_eq_zero)

lemma unat_take_bit_less: "unat (take_bit k a) < 2 ^ k" for a :: "'a::len word"
  unfolding unsigned_take_bit_eq by (rule take_bit_nat_less_exp)

lemma take_bit_self_unat: "unat a < 2 ^ k \<Longrightarrow> take_bit k a = a" for a :: "'a::len word"
  by (rule unsigned_word_eqI[where ?'a = nat]) (simp only: unsigned_take_bit_eq take_bit_nat_eq_self)

lemma take_bit_0_dvd: "take_bit k a = 0 \<longleftrightarrow> 2 ^ k dvd unat a" for a :: "'a::len word"
proof -
  have "take_bit k a = 0 \<longleftrightarrow> unat (take_bit k a) = 0"
    by (simp only: unat_eq_zero)
  also have "\<dots> \<longleftrightarrow> take_bit k (unat a) = 0"
    by (simp only: unsigned_take_bit_eq)
  also have "\<dots> \<longleftrightarrow> 2 ^ k dvd unat a"
    by (simp add: take_bit_eq_mod dvd_eq_mod_eq_0)
  finally show ?thesis .
qed

section \<open>Counted loops\<close>

text \<open>
  \<^verbatim>\<open>for (i = a; i < b; i++) body\<close> over an explicit state; the body gets the index. Every loop of
  the program with a fixed bound has this shape.
\<close>

definition for_range :: "nat \<Rightarrow> nat \<Rightarrow> (nat \<Rightarrow> 's \<Rightarrow> 's) \<Rightarrow> 's \<Rightarrow> 's" where
  "for_range a b body s = fold body [a..<b] s"

lemma for_range_empty [simp, loop_simps]: "b \<le> a \<Longrightarrow> for_range a b f s = s"
  by (simp add: for_range_def)

lemma for_range_step: "a < b \<Longrightarrow> for_range a b f s = for_range (Suc a) b f (f a s)"
  by (simp add: for_range_def upt_conv_Cons)

lemma for_range_Suc [loop_simps]: "a \<le> b \<Longrightarrow> for_range a (Suc b) f s = f b (for_range a b f s)"
  by (simp add: for_range_def)

lemma for_range_inv:
  assumes "I a s" and "\<And>i s. a \<le> i \<Longrightarrow> i < b \<Longrightarrow> I i s \<Longrightarrow> I (Suc i) (f i s)" and "a \<le> b"
  shows "I b (for_range a b f s)"
  using assms(3,2)
proof (induction b rule: dec_induct)
  case base
  then show ?case using assms(1) by simp
next
  case (step n)
  then show ?case by (simp add: for_range_Suc)
qed

text \<open>The same loop whose body may fail: the first error leaves the loop.\<close>

primrec for_each_ok :: "'i list \<Rightarrow> ('i \<Rightarrow> 's \<Rightarrow> 'e + 's) \<Rightarrow> 's \<Rightarrow> 'e + 's" where
  "for_each_ok [] f s = Inr s"
| "for_each_ok (i # is) f s = (case f i s of Inl e \<Rightarrow> Inl e | Inr s' \<Rightarrow> for_each_ok is f s')"

lemma for_each_ok_append [loop_simps]:
  "for_each_ok (xs @ ys) f s =
     (case for_each_ok xs f s of Inl e \<Rightarrow> Inl e | Inr s' \<Rightarrow> for_each_ok ys f s')"
  by (induction xs arbitrary: s) (auto split: sum.splits)

end
