(* ===== verification/Memory.thy ===== *)
theory Memory
  imports Prelude
begin

text \<open>
  The flat physical memory both binaries run on (the loader and the hypervisor are identity
  mapped, so a pointer is its address), typed loads and stores on it, and the memory routines of
  \<^verbatim>\<open>freestanding/libc/memfuncs.{S,cc}\<close>. The locale \<open>cell_memory\<close> is the interface the table
  builders (EPT, IDT, GDT) rely on: 8 byte cells at aligned addresses behave like an array.
\<close>

type_synonym mem = "u64 \<Rightarrow> u8"

section \<open>Loads and stores\<close>

definition load_bytes :: "mem \<Rightarrow> u64 \<Rightarrow> nat \<Rightarrow> u8 list" where
  "load_bytes m a n = map (\<lambda>i. m (a + of_nat i)) [0..<n]"

definition store_bytes :: "mem \<Rightarrow> u64 \<Rightarrow> u8 list \<Rightarrow> mem" where
  "store_bytes m a bs = (\<lambda>b. if unat (b - a) < length bs then bs ! unat (b - a) else m b)"

definition load16 :: "mem \<Rightarrow> u64 \<Rightarrow> u16" where
  "load16 m a = of_le (load_bytes m a 2)"

definition load32 :: "mem \<Rightarrow> u64 \<Rightarrow> u32" where
  "load32 m a = of_le (load_bytes m a 4)"

definition load64 :: "mem \<Rightarrow> u64 \<Rightarrow> u64" where
  "load64 m a = of_le (load_bytes m a 8)"

definition store16 :: "mem \<Rightarrow> u64 \<Rightarrow> u16 \<Rightarrow> mem" where
  "store16 m a v = store_bytes m a (to_le 2 v)"

definition store32 :: "mem \<Rightarrow> u64 \<Rightarrow> u32 \<Rightarrow> mem" where
  "store32 m a v = store_bytes m a (to_le 4 v)"

definition store64 :: "mem \<Rightarrow> u64 \<Rightarrow> u64 \<Rightarrow> mem" where
  "store64 m a v = store_bytes m a (to_le 8 v)"

lemma length_load_bytes [simp]: "length (load_bytes m a n) = n"
  by (simp add: load_bytes_def)

lemma nth_load_bytes [simp]: "i < n \<Longrightarrow> load_bytes m a n ! i = m (a + of_nat i)"
  by (simp add: load_bytes_def)

lemma load_bytes_cong:
  "(\<And>i. i < n \<Longrightarrow> m (a + of_nat i) = m' (a + of_nat i)) \<Longrightarrow> load_bytes m a n = load_bytes m' a n"
  by (simp add: load_bytes_def)

lemma unat_offset: "i < n \<Longrightarrow> n \<le> 2 ^ 64 \<Longrightarrow> unat (of_nat i :: u64) = i"
  by (rule unat_of_nat_small) simp

lemma load_store_bytes_same:
  "length bs = n \<Longrightarrow> n \<le> 2 ^ 64 \<Longrightarrow> load_bytes (store_bytes m a bs) a n = bs"
  by (rule nth_equalityI) (auto simp: store_bytes_def unat_offset)

text \<open>Two address ranges that share no byte, also across the end of the address space.\<close>

definition separate :: "u64 \<Rightarrow> nat \<Rightarrow> u64 \<Rightarrow> nat \<Rightarrow> bool" where
  "separate a n b k \<longleftrightarrow> n \<le> unat (b - a) \<and> k \<le> unat (a - b)"

lemma separate_sym: "separate a n b k \<longleftrightarrow> separate b k a n"
  by (auto simp: separate_def)

lemma unat_add_of_nat_less:
  "i < k \<Longrightarrow> unat x + k \<le> 2 ^ 64 \<Longrightarrow> unat (x + of_nat i :: u64) = unat x + i"
  by (rule unat_add_small) simp

lemma separate_offset:
  assumes "separate a n b k" and "i < k"
  shows "n \<le> unat (b + of_nat i - a)"
proof (cases "a = b")
  case True
  then show ?thesis using assms by (simp add: separate_def)
next
  case False
  define x where "x = b - a"
  have "x \<noteq> 0" using False by (simp add: x_def)
  have "a - b = - x" by (simp add: x_def)
  moreover have "unat (- x) = 2 ^ 64 - unat x"
    using \<open>x \<noteq> 0\<close> by (simp add: unat_uminus)
  ultimately have "unat x + k \<le> 2 ^ 64"
    using assms(1) unat_lt64[of x] by (auto simp: separate_def)
  then have "unat (x + of_nat i) = unat x + i"
    using assms(2) by (rule unat_add_of_nat_less[rotated])
  moreover have "b + of_nat i - a = x + of_nat i" by (simp add: x_def)
  ultimately have "unat (b + of_nat i - a) = unat (b - a) + i" by (simp only: x_def)
  then show ?thesis using assms(1) by (simp add: separate_def)
qed

lemma load_store_bytes_separate:
  "separate a (length bs) b n \<Longrightarrow> load_bytes (store_bytes m a bs) b n = load_bytes m b n"
proof (rule load_bytes_cong)
  fix i
  assume "separate a (length bs) b n" and "i < n"
  then have "length bs \<le> unat (b + of_nat i - a)"
    by (rule separate_offset)
  then show "store_bytes m a bs (b + of_nat i) = m (b + of_nat i)"
    by (simp add: store_bytes_def)
qed

lemma load_store_same [mem_simps]:
  "load16 (store16 m a v2) a = v2"
  "load32 (store32 m a v4) a = v4"
  "load64 (store64 m a v8) a = v8"
  by (simp_all add: load16_def store16_def load32_def store32_def load64_def store64_def
      load_store_bytes_same)

lemma load64_store64_separate:
  "separate a 8 b 8 \<Longrightarrow> load64 (store64 m a v) b = load64 m b"
  by (simp add: load64_def store64_def load_store_bytes_separate)

section \<open>Pages and aligned cells\<close>

definition aligned8 :: "u64 \<Rightarrow> bool" where
  "aligned8 a \<longleftrightarrow> take_bit 3 a = 0"

definition page_aligned :: "u64 \<Rightarrow> bool" where
  "page_aligned a \<longleftrightarrow> take_bit 12 a = 0"

definition page_of :: "u64 \<Rightarrow> u64" where
  "page_of a = drop_bit 12 a"

definition cell_of :: "u64 \<Rightarrow> u64" where
  "cell_of a = drop_bit 3 a"

lemma aligned_block_bound:
  fixes a :: u64
  assumes "take_bit k a = 0" and "k \<le> 64"
  shows "unat a + 2 ^ k \<le> 2 ^ 64"
proof -
  obtain q where q: "unat a = 2 ^ k * q"
    using assms(1) by (auto simp: take_bit_0_dvd)
  have p: "(2::nat) ^ 64 = 2 ^ k * 2 ^ (64 - k)"
    using assms(2) by (simp flip: power_add)
  have "2 ^ k * q < 2 ^ k * 2 ^ (64 - k)"
    using unat_lt64[of a] q p by simp
  then have "Suc q \<le> 2 ^ (64 - k)" by simp
  then have "2 ^ k * Suc q \<le> 2 ^ k * 2 ^ (64 - k)" by (rule mult_le_mono2)
  with q p show ?thesis by simp
qed

lemma drop_bit_add_small:
  fixes a :: u64
  assumes "take_bit k a = 0" and "i < 2 ^ k" and "k \<le> 64"
  shows "drop_bit k (a + of_nat i) = drop_bit k a"
    and "unat (a + of_nat i) = unat a + i"
proof -
  show *: "unat (a + of_nat i) = unat a + i"
    using assms(2) aligned_block_bound[OF assms(1,3)] by (rule unat_add_of_nat_less)
  obtain q where q: "unat a = 2 ^ k * q"
    using assms(1) by (auto simp: take_bit_0_dvd)
  have "unat (drop_bit k (a + of_nat i)) = unat (drop_bit k a)"
    unfolding unat_drop_bit_eq using * q assms(2) by (simp add: drop_bit_eq_div)
  then show "drop_bit k (a + of_nat i) = drop_bit k a" by (rule unsigned_word_eqI)
qed

lemma aligned8_cell: "aligned8 a \<Longrightarrow> i < 8 \<Longrightarrow> cell_of (a + of_nat i) = cell_of a"
  by (simp add: aligned8_def cell_of_def drop_bit_add_small)

lemma cell_of_inj: "aligned8 a \<Longrightarrow> aligned8 b \<Longrightarrow> cell_of a = cell_of b \<Longrightarrow> a = b"
  unfolding aligned8_def cell_of_def
  by (metis bits_ident add_cancel_right_right)

lemma aligned8_separate:
  assumes "aligned8 a" and "aligned8 b" and "a \<noteq> b"
  shows "separate a 8 b 8"
proof (rule ccontr)
  assume "\<not> ?thesis"
  then consider "unat (b - a) < 8" | "unat (a - b) < 8"
    by (auto simp: separate_def)
  then show False
  proof cases
    case 1
    have "cell_of (a + of_nat (unat (b - a))) = cell_of a"
      using assms(1) 1 by (rule aligned8_cell)
    then show False using assms cell_of_inj[of a b] by simp
  next
    case 2
    have "cell_of (b + of_nat (unat (a - b))) = cell_of b"
      using assms(2) 2 by (rule aligned8_cell)
    then show False using assms cell_of_inj[of a b] by simp
  qed
qed

lemma load64_store64_aligned:
  "aligned8 a \<Longrightarrow> aligned8 b \<Longrightarrow> load64 (store64 m a v) b = (if a = b then v else load64 m b)"
  by (simp add: load_store_same load64_store64_separate aligned8_separate)

text \<open>The \<open>i\<close>-th 8 byte entry of a table at \<open>base\<close>.\<close>

definition slot :: "u64 \<Rightarrow> nat \<Rightarrow> u64" where
  "slot base i = base + of_nat (8 * i)"

lemma page_aligned_aligned8: "page_aligned a \<Longrightarrow> aligned8 a"
proof -
  assume "page_aligned a"
  then have "take_bit 3 (take_bit 12 a) = 0" by (simp add: page_aligned_def)
  then show ?thesis by (simp add: aligned8_def take_bit_take_bit)
qed

lemma slot_page [simp]: "page_aligned a \<Longrightarrow> i < 512 \<Longrightarrow> page_of (slot a i) = page_of a"
  unfolding page_aligned_def page_of_def slot_def
  by (rule drop_bit_add_small) auto

lemma slot_aligned8 [simp]: "page_aligned a \<Longrightarrow> aligned8 (slot a i)"
proof -
  assume "page_aligned a"
  then have "aligned8 a" by (rule page_aligned_aligned8)
  then have "a mod 8 = 0" by (simp add: aligned8_def take_bit_eq_mod)
  then have "take_bit 3 (a + of_nat (8 * i)) = 0"
    using \<open>aligned8 a\<close> unfolding aligned8_def take_bit_0_dvd
    by (simp add: unat_word_ariths unat_of_nat dvd_mod_iff dvd_mod)
  then show ?thesis by (simp add: aligned8_def slot_def)
qed

lemma slot_inj [simp]: "i < 512 \<Longrightarrow> j < 512 \<Longrightarrow> slot a i = slot a j \<longleftrightarrow> i = j"
proof -
  assume "i < 512" and "j < 512"
  then have "unat (of_nat (8 * i) :: u64) = 8 * i" and "unat (of_nat (8 * j) :: u64) = 8 * j"
    by (simp_all add: unat_of_nat del: of_nat_mult)
  then show ?thesis by (metis slot_def add_left_cancel mult_left_cancel zero_neq_numeral)
qed

lemma page_of_inj: "page_aligned a \<Longrightarrow> page_aligned b \<Longrightarrow> page_of a = page_of b \<Longrightarrow> a = b"
  unfolding page_aligned_def page_of_def
  by (metis bits_ident add_cancel_right_right)

section \<open>The interface of the table builders\<close>

locale cell_memory =
  fixes rd :: "'m \<Rightarrow> u64 \<Rightarrow> u64"
    and wr :: "'m \<Rightarrow> u64 \<Rightarrow> u64 \<Rightarrow> 'm"
  assumes rd_wr: "aligned8 a \<Longrightarrow> aligned8 b \<Longrightarrow> rd (wr m a v) b = (if a = b then v else rd m b)"
begin

lemma rd_wr_slot:
  "page_aligned p \<Longrightarrow> i < 512 \<Longrightarrow> j < 512 \<Longrightarrow>
     rd (wr m (slot p i) v) (slot p j) = (if i = j then v else rd m (slot p j))"
  by (simp add: rd_wr)

lemma rd_wr_other_page:
  "page_aligned p \<Longrightarrow> i < 512 \<Longrightarrow> aligned8 b \<Longrightarrow> page_of b \<noteq> page_of p \<Longrightarrow>
     rd (wr m (slot p i) v) b = rd m b"
  by (subst rd_wr) auto

text \<open>Filling the first \<open>n\<close> entries of a table page, one store per iteration.\<close>

lemma rd_fill_slots:
  assumes "page_aligned p" and "n \<le> 512" and "j < 512"
  shows "rd (for_range 0 n (\<lambda>i m. wr m (slot p i) (f i)) m) (slot p j) =
    (if j < n then f j else rd m (slot p j))"
  using assms(2)
proof (induction n)
  case 0
  then show ?case by simp
next
  case (Suc n)
  then show ?case using assms(1,3) by (simp add: for_range_Suc rd_wr_slot)
qed

lemma rd_fill_other_page:
  assumes "page_aligned p" and "n \<le> 512" and "aligned8 b" and "page_of b \<noteq> page_of p"
  shows "rd (for_range 0 n (\<lambda>i m. wr m (slot p i) (f i)) m) b = rd m b"
  using assms(2)
proof (induction n)
  case 0
  then show ?case by simp
next
  case (Suc n)
  then show ?case using assms(1,3,4) by (simp add: for_range_Suc rd_wr_other_page)
qed

end

interpretation cells: cell_memory load64 store64
  by unfold_locales (rule load64_store64_aligned)

section \<open>freestanding/libc/memfuncs\<close>

text \<open>
  \<^verbatim>\<open>rep stosb\<close> and \<^verbatim>\<open>rep movsb\<close> with the direction flag clear: one byte per iteration, upwards,
  pointers wrapping at 64 bits. A forward copy reads bytes it has already written when the
  ranges overlap, so the copy is a loop over the memory and not a block assignment.
\<close>

primrec stosb_loop :: "nat \<Rightarrow> mem \<Rightarrow> u64 \<Rightarrow> u8 \<Rightarrow> mem" where
  "stosb_loop 0 m rdi al = m"
| "stosb_loop (Suc rcx) m rdi al = stosb_loop rcx (m(rdi := al)) (rdi + 1) al"

primrec movsb_loop :: "nat \<Rightarrow> mem \<Rightarrow> u64 \<Rightarrow> u64 \<Rightarrow> mem" where
  "movsb_loop 0 m rdi rsi = m"
| "movsb_loop (Suc rcx) m rdi rsi = movsb_loop rcx (m(rdi := m rsi)) (rdi + 1) (rsi + 1)"

definition stosb :: "mem \<Rightarrow> u64 \<Rightarrow> u64 \<Rightarrow> u64 \<Rightarrow> mem" where
  "stosb m buf val n = stosb_loop (unat n) m buf (ucast val)"

definition movsb :: "mem \<Rightarrow> u64 \<Rightarrow> u64 \<Rightarrow> u64 \<Rightarrow> mem" where
  "movsb m buf val n = movsb_loop (unat n) m buf val"

text \<open>\<open>memset\<close> takes an \<^verbatim>\<open>int\<close>, which is sign extended to the \<^verbatim>\<open>size_t\<close> of \<open>stosb\<close>.\<close>

definition memset :: "mem \<Rightarrow> u64 \<Rightarrow> u32 \<Rightarrow> u64 \<Rightarrow> u64 \<times> mem" where
  "memset m dest chr num = (dest, stosb m dest (scast chr) num)"

definition memcpy :: "mem \<Rightarrow> u64 \<Rightarrow> u64 \<Rightarrow> u64 \<Rightarrow> u64 \<times> mem" where
  "memcpy m dest source num = (dest, movsb m dest source num)"

lemma unat_pred_less:
  fixes x :: u64
  assumes "n < 2 ^ 64"
  shows "unat x < Suc n \<longleftrightarrow> x = 0 \<or> unat (x - 1) < n"
proof (cases "x = 0")
  case False
  then have "unat (x - 1) = unat x - 1" and "0 < unat x"
    by (simp_all add: unat_minus_one unat_gt_0)
  then show ?thesis using False by auto
qed simp

lemma stosb_loop_apply:
  "n \<le> 2 ^ 64 \<Longrightarrow> stosb_loop n m a v b = (if unat (b - a) < n then v else m b)"
proof (induction n arbitrary: m a)
  case 0
  then show ?case by simp
next
  case (Suc n)
  have e: "b - (a + 1) = b - a - 1" by simp
  have "stosb_loop (Suc n) m a v b = (if unat (b - (a + 1)) < n then v else (m(a := v)) b)"
    using Suc by simp
  then show ?case
    using Suc.prems unat_pred_less[of n "b - a"] unfolding e by auto
qed

lemma stosb_apply:
  "stosb m a v n b = (if unat (b - a) < unat n then ucast v else m b)"
  unfolding stosb_def by (rule stosb_loop_apply) (use unat_lt64[of n] in simp)

lemma separate_Suc:
  "separate d (Suc n) s (Suc n) \<Longrightarrow> separate (d + 1) n (s + 1) n"
  by (auto simp: separate_def)

lemma movsb_loop_apply:
  "n \<le> 2 ^ 64 \<Longrightarrow> separate d n s n \<Longrightarrow>
     movsb_loop n m d s b = (if unat (b - d) < n then m (s + (b - d)) else m b)"
proof (induction n arbitrary: m d s)
  case 0
  then show ?case by simp
next
  case (Suc n)
  let ?m = "m(d := m s)"
  have IH: "movsb_loop n ?m (d + 1) (s + 1) b =
      (if unat (b - (d + 1)) < n then ?m (s + 1 + (b - (d + 1))) else ?m b)"
    using Suc.prems by (intro Suc.IH separate_Suc) auto
  have e: "b - (d + 1) = b - d - 1" and f: "s + 1 + (b - (d + 1)) = s + (b - d)" by simp_all
  have "s + (b - d) \<noteq> d" if "unat (b - d) < Suc n"
    using separate_offset[OF Suc.prems(2) that] Suc.prems(2) by (auto simp: separate_def)
  then show ?case
    using IH Suc.prems(1) unat_pred_less[of n "b - d"] unfolding e f by auto
qed

text \<open>The copy is exact when the source and the target share no byte.\<close>

lemma movsb_separate:
  assumes "separate d (unat n) s (unat n)"
  shows "movsb m d s n = store_bytes m d (load_bytes m s (unat n))"
proof
  fix b
  have "unat n \<le> 2 ^ 64" using unat_lt64[of n] by simp
  then show "movsb m d s n b = store_bytes m d (load_bytes m s (unat n)) b"
    using assms by (simp add: movsb_def movsb_loop_apply store_bytes_def)
qed

text \<open>A page cleared with \<open>memset\<close>.\<close>

lemma page_offset: "page_aligned p \<Longrightarrow> unat (b - p) < 4096 \<longleftrightarrow> page_of b = page_of p"
proof
  assume "page_aligned p" and "unat (b - p) < 4096"
  then have "page_of (p + of_nat (unat (b - p))) = page_of p"
    unfolding page_aligned_def page_of_def by (intro drop_bit_add_small) auto
  then show "page_of b = page_of p" by simp
next
  assume p: "page_aligned p" and "page_of b = page_of p"
  then have "b = p + take_bit 12 b"
    unfolding page_aligned_def page_of_def by (metis add.commute add_0 bits_ident)
  then have "b - p = take_bit 12 b" by (metis add_diff_cancel_left')
  then show "unat (b - p) < 4096"
    using unat_take_bit_less[of 12 b] by simp
qed

lemma memset_page:
  "page_aligned p \<Longrightarrow> snd (memset m p 0 0x1000) b = (if page_of b = page_of p then 0 else m b)"
  by (simp add: memset_def stosb_apply page_offset)

lemma aligned8_page: "aligned8 a \<Longrightarrow> i < 8 \<Longrightarrow> page_of (a + of_nat i) = page_of a"
proof -
  assume "aligned8 a" and "i < 8"
  then have "cell_of (a + of_nat i) = cell_of a" by (rule aligned8_cell)
  then have "drop_bit 9 (cell_of (a + of_nat i)) = drop_bit 9 (cell_of a)" by simp
  then show ?thesis by (simp add: cell_of_def page_of_def)
qed

lemma load64_cong:
  "(\<And>i. i < 8 \<Longrightarrow> m (a + of_nat i) = m' (a + of_nat i)) \<Longrightarrow> load64 m a = load64 m' a"
  unfolding load64_def by (simp cong: load_bytes_cong)

lemma load64_memset_page:
  assumes "page_aligned p" and "aligned8 b"
  shows "load64 (snd (memset m p 0 0x1000)) b = (if page_of b = page_of p then 0 else load64 m b)"
proof (cases "page_of b = page_of p")
  case True
  have "load_bytes (snd (memset m p 0 0x1000)) b 8 = to_le 8 (0 :: u64)"
    by (rule nth_equalityI) (auto simp: memset_page assms aligned8_page True nth_to_le)
  then show ?thesis using True by (simp add: load64_def)
next
  case False
  then show ?thesis
    using assms by (auto intro!: load64_cong simp: memset_page aligned8_page)
qed

section \<open>Structs inside a block of bytes\<close>

text \<open>A block written at \<open>p\<close> and then a part of it at offset \<open>k\<close> is one block.\<close>

definition patch :: "nat \<Rightarrow> u8 list \<Rightarrow> u8 list \<Rightarrow> u8 list" where
  "patch k ys xs = take k xs @ ys @ drop (k + length ys) xs"

lemma length_patch [simp]: "k + length ys \<le> length xs \<Longrightarrow> length (patch k ys xs) = length xs"
  by (simp add: patch_def)

lemma nth_patch:
  "k + length ys \<le> length xs \<Longrightarrow> i < length xs \<Longrightarrow>
     patch k ys xs ! i = (if k \<le> i \<and> i < k + length ys then ys ! (i - k) else xs ! i)"
  by (auto simp: patch_def nth_append min_def)

lemma unat_sub_less:
  fixes x :: u64
  assumes "k + n \<le> 2 ^ 64" and "k < 2 ^ 64"
  shows "unat (x - of_nat k) < n \<longleftrightarrow> k \<le> unat x \<and> unat x < k + n"
    and "k \<le> unat x \<Longrightarrow> unat (x - of_nat k) = unat x - k"
proof -
  have k: "unat (of_nat k :: u64) = k" by (rule unat_of_nat_small) (use assms(2) in simp)
  show "unat (x - of_nat k) = unat x - k" if "k \<le> unat x"
    using that by (simp add: unat_sub_if_size k)
  have "unat (x - of_nat k) = unat x + 2 ^ 64 - k" if "\<not> k \<le> unat x"
    using that by (simp add: unat_sub_if_size k word_size)
  then show "unat (x - of_nat k) < n \<longleftrightarrow> k \<le> unat x \<and> unat x < k + n"
    using \<open>k \<le> unat x \<Longrightarrow> unat (x - of_nat k) = unat x - k\<close> assms(1)
    by (cases "k \<le> unat x") auto
qed

lemma separate_part:
  assumes "separate a l f n" and "k + j \<le> n" and "0 < j" and "n < 2 ^ 64"
  shows "separate a l (f + of_nat k) j"
proof -
  have "l \<le> unat (f + of_nat k - a)" using assms(1) by (rule separate_offset) (use assms(2,3) in simp)
  moreover have "j \<le> unat (a - (f + of_nat k))"
  proof -
    have e: "a - (f + of_nat k) = (a - f) - of_nat k" by simp
    have "k < 2 ^ 64" "k \<le> unat (a - f)" "n \<le> unat (a - f)"
      using assms by (auto simp: separate_def)
    then have "unat ((a - f) - of_nat k) = unat (a - f) - k"
      using unat_sub_less(2)[of k 0 "a - f"] by simp
    then show ?thesis unfolding e using assms(2) \<open>n \<le> unat (a - f)\<close> by linarith
  qed
  ultimately show ?thesis by (simp add: separate_def)
qed

lemma store_bytes_append:
  assumes "length xs + length ys < 2 ^ 64"
  shows "store_bytes (store_bytes m p xs) (p + of_nat (length xs)) ys = store_bytes m p (xs @ ys)"
proof
  fix b
  have e: "b - (p + of_nat (length xs)) = (b - p) - of_nat (length xs)" by simp
  have "length xs + length ys \<le> 2 ^ 64" and "length xs < 2 ^ 64" using assms by simp_all
  note u = unat_sub_less[OF this, of "b - p"]
  show "store_bytes (store_bytes m p xs) (p + of_nat (length xs)) ys b = store_bytes m p (xs @ ys) b"
    unfolding store_bytes_def e u(1) using u(2) by (auto simp: nth_append)
qed

lemma store_bytes_inner:
  assumes "k + length ys \<le> length xs" and "length xs < 2 ^ 64"
  shows "store_bytes (store_bytes m p xs) (p + of_nat k) ys = store_bytes m p (patch k ys xs)"
proof
  fix b
  have e: "b - (p + of_nat k) = (b - p) - of_nat k" by simp
  have "k + length ys \<le> 2 ^ 64" and "k < 2 ^ 64" using assms by simp_all
  note u = unat_sub_less[OF this, of "b - p"]
  show "store_bytes (store_bytes m p xs) (p + of_nat k) ys b = store_bytes m p (patch k ys xs) b"
    unfolding store_bytes_def e u(1) using assms u(2) by (auto simp: nth_patch)
qed

lemma load_bytes_inner:
  assumes "k + n \<le> length xs" and "length xs \<le> 2 ^ 64"
  shows "load_bytes (store_bytes m p xs) (p + of_nat k) n = take n (drop k xs)"
proof (rule nth_equalityI)
  fix i
  assume "i < length (load_bytes (store_bytes m p xs) (p + of_nat k) n)"
  then have i: "i < n" by simp
  have "unat (of_nat (k + i) :: u64) = k + i"
    by (rule unat_of_nat_small) (use i assms in simp)
  then show "load_bytes (store_bytes m p xs) (p + of_nat k) n ! i = take n (drop k xs) ! i"
    using i assms(1) by (simp add: store_bytes_def add.assoc)
qed (use assms in simp)

lemma store_load_bytes: "store_bytes m p (load_bytes m p n) = m"
  by (rule ext) (simp add: store_bytes_def)

lemma memset_block: "snd (memset m p 0 n) = store_bytes m p (replicate (unat n) 0)"
  by (rule ext) (simp add: memset_def stosb_apply store_bytes_def)

end
