(* ===== verification/Firmware.thy ===== *)
theory Firmware
  imports Memory
begin

text \<open>
  The UEFI interfaces the loader calls (\<^verbatim>\<open>freestanding/efi/*.h\<close>) and the state of the loader.

  The firmware itself is not part of the repository: its services are the fields of a record
  \<open>efi\<close>, functions over a firmware state of an arbitrary type \<open>'f\<close>, and a parameter of every
  definition that calls one of them. What the UEFI specification says of a service is a named
  hypothesis where a property needs it. The record \<open>ldr\<close> has the memory, the firmware state, the
  messages logged so far, the processor registers the loader loads and one field per global
  variable of \<^verbatim>\<open>loader/efi/*.cc\<close>.
\<close>

section \<open>Types of the UEFI headers\<close>

type_synonym efi_status = u64

definition efi_success :: efi_status where "efi_success = 0"
definition efi_error :: efi_status where "efi_error = 0x8000000000000000"

definition PAGE_SIZE :: u64 where "PAGE_SIZE = 4096"

text \<open>The sum wraps, so the sizes within a page of \<^verbatim>\<open>2^64\<close> need no page at all.\<close>

definition NUM_PAGES :: "u64 \<Rightarrow> u64" where
  "NUM_PAGES y = (y + PAGE_SIZE - 1) div PAGE_SIZE"

datatype efi_allocate_type = allocate_any_pages | allocate_max_address | allocate_address

datatype efi_memory_type =
    reserved_memory_type | loader_code | loader_data | boot_services_code | boot_services_data
  | runtime_services_code | runtime_services_data | conventional_memory | unusable_memory
  | acpi_reclaim_memory | acpi_memory_nvs | memory_apped_io | memory_mapped_io_port_space
  | pal_code | persistent_memory | max_memory_type

record efi_stip_key =
  scan_code :: u16
  unicode_char :: u16

datatype efi_gop_blt_operation = video_fill | video_to_blt_buffer | buffer_to_video | video_to_video

record efi_gop_mode_info =
  horizontal_resolution :: u32
  vertical_resolution :: u32

record efi_gop_mode =
  max_mode :: u32
  mode :: u32
  info :: efi_gop_mode_info

text \<open>The arguments of one \<^verbatim>\<open>blt\<close> call, in the order of gop.h.\<close>

record blt_call =
  blt_buffer :: u64
  blt_op :: efi_gop_blt_operation
  source_x :: u64
  source_y :: u64
  dest_x :: u64
  dest_y :: u64
  blt_width :: u64
  blt_height :: u64
  delta :: u64

datatype efi_guid_name = gop_guid | sfsp_guid | mp_guid

section \<open>The services\<close>

text \<open>
  An out-parameter of a service is a component of its result; where the service may leave it
  alone, its value before the call is an argument. Pointers to firmware objects (handles,
  protocols, files) are addresses.
\<close>

record 'f efi =
  allocate_pages :: "efi_allocate_type \<Rightarrow> efi_memory_type \<Rightarrow> u64 \<Rightarrow> u64 \<Rightarrow> 'f \<Rightarrow> efi_status \<times> u64 \<times> 'f"
  free_pages :: "u64 \<Rightarrow> u64 \<Rightarrow> 'f \<Rightarrow> 'f"
  wait_for_event :: "'f \<Rightarrow> 'f"
  read_key_stroke :: "efi_stip_key \<Rightarrow> 'f \<Rightarrow> efi_stip_key \<times> 'f"
  reset_stip :: "'f \<Rightarrow> 'f"
  locate_handle_buffer :: "efi_guid_name \<Rightarrow> u64 \<Rightarrow> 'f \<Rightarrow> efi_status \<times> u64 \<times> (nat \<Rightarrow> u64) \<times> 'f"
  handle_protocol :: "u64 \<Rightarrow> efi_guid_name \<Rightarrow> u64 \<Rightarrow> 'f \<Rightarrow> efi_status \<times> u64 \<times> 'f"
  locate_protocol :: "efi_guid_name \<Rightarrow> u64 \<Rightarrow> 'f \<Rightarrow> u64 \<times> 'f"
  gop_mode_of :: "u64 \<Rightarrow> 'f \<Rightarrow> efi_gop_mode"
  query_mode :: "u64 \<Rightarrow> u32 \<Rightarrow> 'f \<Rightarrow> efi_status \<times> efi_gop_mode_info \<times> 'f"
  set_mode :: "u64 \<Rightarrow> u32 \<Rightarrow> 'f \<Rightarrow> efi_status \<times> 'f"
  blt :: "u64 \<Rightarrow> blt_call \<Rightarrow> 'f \<Rightarrow> 'f"
  mp_whoami :: "u64 \<Rightarrow> 'f \<Rightarrow> u64"
  get_processor_count :: "u64 \<Rightarrow> 'f \<Rightarrow> u64"
  open_volume :: "u64 \<Rightarrow> u64 \<Rightarrow> 'f \<Rightarrow> u64 \<times> 'f"
  get_volume_label :: "u64 \<Rightarrow> 'f \<Rightarrow> u16 list \<times> 'f"
  fp_open :: "u64 \<Rightarrow> u64 \<Rightarrow> u16 list \<Rightarrow> u64 \<Rightarrow> u64 \<Rightarrow> 'f \<Rightarrow> efi_status \<times> u64 \<times> 'f"
  get_file_size :: "u64 \<Rightarrow> 'f \<Rightarrow> efi_status \<times> u64 \<times> 'f"
  fp_read :: "u64 \<Rightarrow> u64 \<Rightarrow> 'f \<Rightarrow> efi_status \<times> u8 list \<times> 'f"

section \<open>The state of the loader\<close>

text \<open>A message passed to \<^verbatim>\<open>log\<close> or \<^verbatim>\<open>log_hex\<close> (loader/efi/common.h).\<close>

datatype log_event = Log string | Log_hex string u64

record dtr =
  dtr_limit :: u16
  dtr_base :: u64

record efi_console_ctx =
  rows :: u64
  columns :: u64
  current_row :: u64
  current_column :: u64
  buffer :: u64
  buffer_size :: u64
  char_width :: u64
  char_height :: u64

record 'f ldr =
  l_mem :: mem
  l_fw :: 'f
  l_log :: "log_event list"
  reg_idtr :: dtr
  reg_gdtr :: dtr
  reg_tr :: u16
  task_switched :: bool
  efi_allocations :: u64
  ctx :: efi_console_ctx
  logo_drawn :: bool
  gop :: u64
  mp :: u64
  efi_idtr :: dtr
  custom_idt :: u64
  custom_idtr :: dtr
  efi_gdtr :: dtr
  new_gdt :: u64
  fs_handles :: "nat \<Rightarrow> u64"
  fs_roots :: "nat \<Rightarrow> u64"
  fs_root_count :: u64
  visor_file :: u64
  visor_real :: u64
  visor_mapped :: u64
  hypervisor_main :: u64

text \<open>
  The globals before \<^verbatim>\<open>efi_main\<close> runs: zero, but for the initialiser of \<open>visor_mapped\<close>
  (loader.cc:11). Memory, firmware and the descriptor table registers are as the firmware left them.
\<close>

definition ldr_start :: "mem \<Rightarrow> 'f \<Rightarrow> dtr \<Rightarrow> dtr \<Rightarrow> u16 \<Rightarrow> 'f ldr" where
  "ldr_start m f idtr gdtr tr =
     (let zero_dtr = \<lparr>dtr_limit = 0, dtr_base = 0\<rparr>
      in \<lparr>l_mem = m, l_fw = f, l_log = [], reg_idtr = idtr, reg_gdtr = gdtr, reg_tr = tr,
          task_switched = False, efi_allocations = 0,
          ctx = \<lparr>rows = 0, columns = 0, current_row = 0, current_column = 0, buffer = 0,
                 buffer_size = 0, char_width = 0, char_height = 0\<rparr>,
          logo_drawn = False, gop = 0, mp = 0, efi_idtr = zero_dtr, custom_idt = 0,
          custom_idtr = zero_dtr, efi_gdtr = zero_dtr, new_gdt = 0,
          fs_handles = (\<lambda>_. 0), fs_roots = (\<lambda>_. 0), fs_root_count = 0,
          visor_file = 0, visor_real = 0, visor_mapped = 0x00800000, hypervisor_main = 0\<rparr>)"

text \<open>Services that do nothing, the base of the concrete instances in the witnesses.\<close>

definition quiet_efi :: "'f efi" where
  "quiet_efi =
     \<lparr>allocate_pages = (\<lambda>_ _ _ a f. (efi_error, a, f)), free_pages = (\<lambda>_ _ f. f),
      wait_for_event = (\<lambda>f. f), read_key_stroke = (\<lambda>k f. (k, f)), reset_stip = (\<lambda>f. f),
      locate_handle_buffer = (\<lambda>_ n f. (efi_error, n, (\<lambda>_. 0), f)),
      handle_protocol = (\<lambda>_ _ p f. (efi_error, p, f)), locate_protocol = (\<lambda>_ p f. (p, f)),
      gop_mode_of = (\<lambda>_ _. \<lparr>max_mode = 0, mode = 0,
         info = \<lparr>horizontal_resolution = 0, vertical_resolution = 0\<rparr>\<rparr>),
      query_mode = (\<lambda>_ _ f. (efi_error, \<lparr>horizontal_resolution = 0, vertical_resolution = 0\<rparr>, f)),
      set_mode = (\<lambda>_ _ f. (efi_error, f)), blt = (\<lambda>_ _ f. f),
      mp_whoami = (\<lambda>_ _. 0), get_processor_count = (\<lambda>_ _. 1),
      open_volume = (\<lambda>_ r f. (r, f)), get_volume_label = (\<lambda>_ f. ([], f)),
      fp_open = (\<lambda>_ p _ _ _ f. (efi_error, p, f)), get_file_size = (\<lambda>_ f. (efi_error, 0, f)),
      fp_read = (\<lambda>_ _ f. (efi_error, [], f))\<rparr>"

definition log :: "log_event \<Rightarrow> 'f ldr \<Rightarrow> 'f ldr" where
  "log e s = s\<lparr>l_log := l_log s @ [e]\<rparr>"

abbreviation endl :: string where "endl \<equiv> [CHR 0x0A]"

lemma log_sel [simp]:
  "l_mem (log e s) = l_mem s" "l_fw (log e s) = l_fw s" "l_log (log e s) = l_log s @ [e]"
  "efi_allocations (log e s) = efi_allocations s"
  "reg_idtr (log e s) = reg_idtr s" "reg_gdtr (log e s) = reg_gdtr s" "reg_tr (log e s) = reg_tr s"
  "efi_idtr (log e s) = efi_idtr s" "custom_idtr (log e s) = custom_idtr s"
  "custom_idt (log e s) = custom_idt s" "efi_gdtr (log e s) = efi_gdtr s" "new_gdt (log e s) = new_gdt s"
  "fs_roots (log e s) = fs_roots s" "fs_root_count (log e s) = fs_root_count s"
  "visor_file (log e s) = visor_file s" "visor_real (log e s) = visor_real s"
  "visor_mapped (log e s) = visor_mapped s" "hypervisor_main (log e s) = hypervisor_main s"
  by (simp_all add: log_def)

lemma NUM_PAGES_covers:
  assumes "unat y + 4095 < 2 ^ 64"
  shows "unat y \<le> unat (NUM_PAGES y) * 4096" and "unat (NUM_PAGES y) = (unat y + 4095) div 4096"
proof -
  have "y + PAGE_SIZE - 1 = y + of_nat 4095"
    by (simp add: PAGE_SIZE_def)
  then have e: "unat (y + PAGE_SIZE - 1) = unat y + 4095"
    using assms unat_add_small[of y 4095] by (simp only:) simp
  show n: "unat (NUM_PAGES y) = (unat y + 4095) div 4096"
    unfolding NUM_PAGES_def by (simp only: unat_div e) (simp add: PAGE_SIZE_def)
  have "unat y + 4095 = (unat y + 4095) div 4096 * 4096 + (unat y + 4095) mod 4096"
    by (rule div_mult_mod_eq[symmetric])
  moreover have "(unat y + 4095) mod 4096 < 4096" by simp
  ultimately show "unat y \<le> unat (NUM_PAGES y) * 4096" unfolding n by linarith
qed

end
