(* ===== verification/Allocator.thy ===== *)
theory Allocator
  imports Firmware
begin

text \<open>
  The page allocator of the loader (\<^verbatim>\<open>loader/efi/allocator.cc\<close>): a table of 4096 entries in memory
  that the firmware handed out, one entry per live allocation, a null address in a free entry.
  \<open>operator new\<close> and \<open>operator delete\<close> are its two operations. The locale \<open>page_heap\<close> is the
  contract the callers of \<open>new\<close> and \<open>delete\<close> rely on.
\<close>

section \<open>The table\<close>

definition ALLOCATIONS_MAX :: nat where "ALLOCATIONS_MAX = 4096"

definition sizeof_efi_allocation_entry :: u64 where "sizeof_efi_allocation_entry = 16"

definition ALLOCATIONS_SIZE :: u64 where
  "ALLOCATIONS_SIZE = sizeof_efi_allocation_entry * of_nat ALLOCATIONS_MAX"

definition entry_at :: "u64 \<Rightarrow> nat \<Rightarrow> u64" where
  "entry_at t i = t + sizeof_efi_allocation_entry * of_nat i"

definition entry_address :: "mem \<Rightarrow> u64 \<Rightarrow> nat \<Rightarrow> u64" where
  "entry_address m t i = load64 m (entry_at t i)"

definition entry_pages :: "mem \<Rightarrow> u64 \<Rightarrow> nat \<Rightarrow> u64" where
  "entry_pages m t i = load64 m (entry_at t i + 8)"

definition store_entry :: "u64 \<Rightarrow> nat \<Rightarrow> u64 \<Rightarrow> u64 \<Rightarrow> mem \<Rightarrow> mem" where
  "store_entry t i a n m = store64 (store64 m (entry_at t i) a) (entry_at t i + 8) n"

section \<open>Operations\<close>

definition efi_allocator_init :: "'f efi \<Rightarrow> 'f ldr \<Rightarrow> 'f ldr" where
  "efi_allocator_init fw s =
     (let (status, p, f) = allocate_pages fw allocate_any_pages boot_services_data
            (NUM_PAGES ALLOCATIONS_SIZE) (efi_allocations s) (l_fw s);
          s = s\<lparr>l_fw := f, efi_allocations := p\<rparr>
      in if p = 0 \<or> status \<noteq> efi_success
         then log (Log (''oh no, allocator fucked up :('' @ endl)) s
         else s\<lparr>l_mem := stosb (l_mem s) p 0 (of_nat ALLOCATIONS_MAX)\<rparr>)"

definition efi_allocate :: "'f efi \<Rightarrow> u64 \<Rightarrow> 'f ldr \<Rightarrow> u64 \<times> 'f ldr" where
  "efi_allocate fw sz s =
     (let pages = NUM_PAGES sz; t = efi_allocations s
      in case find (\<lambda>i. entry_address (l_mem s) t i = 0) [0..<ALLOCATIONS_MAX] of
           None \<Rightarrow> (0, log (Log (''max allocations reached!'' @ endl
                          @ ''shit will fuck up now'' @ endl)) s)
         | Some i \<Rightarrow>
             let (status, a, f) = allocate_pages fw allocate_any_pages boot_services_data pages
                   (entry_address (l_mem s) t i) (l_fw s);
                 m = store_entry t i a pages (l_mem s)
             in (entry_address m t i, s\<lparr>l_mem := m, l_fw := f\<rparr>))"

definition efi_deallocate_entry :: "'f efi \<Rightarrow> u64 \<Rightarrow> nat \<Rightarrow> 'f ldr \<Rightarrow> 'f ldr" where
  "efi_deallocate_entry fw address i s =
     (let t = efi_allocations s; m = l_mem s
      in if entry_address m t i = address
         then s\<lparr>l_mem := store_entry t i 0 0 m,
                l_fw := free_pages fw (entry_address m t i) (entry_pages m t i) (l_fw s)\<rparr>
         else s)"

definition efi_deallocate :: "'f efi \<Rightarrow> u64 \<Rightarrow> 'f ldr \<Rightarrow> 'f ldr" where
  "efi_deallocate fw address s =
     for_range 0 ALLOCATIONS_MAX (efi_deallocate_entry fw address) s"

definition operator_new :: "'f efi \<Rightarrow> u64 \<Rightarrow> 'f ldr \<Rightarrow> u64 \<times> 'f ldr" where
  "operator_new fw sz s = efi_allocate fw sz s"

definition operator_delete :: "'f efi \<Rightarrow> u64 \<Rightarrow> 'f ldr \<Rightarrow> 'f ldr" where
  "operator_delete fw instance s = efi_deallocate fw instance s"

section \<open>The table as a list\<close>

definition alloc_table :: "mem \<Rightarrow> u64 \<Rightarrow> (u64 \<times> u64) list" where
  "alloc_table m t = map (\<lambda>i. (entry_address m t i, entry_pages m t i)) [0..<ALLOCATIONS_MAX]"

text \<open>The table lies in one piece of the address space, at the alignment of its members.\<close>

definition table_at :: "u64 \<Rightarrow> bool" where
  "table_at t \<longleftrightarrow> aligned8 t \<and> unat t + 65536 \<le> 2 ^ 64"

lemma length_alloc_table [simp]: "length (alloc_table m t) = ALLOCATIONS_MAX"
  by (simp add: alloc_table_def)

lemma nth_alloc_table [simp]:
  "i < ALLOCATIONS_MAX \<Longrightarrow> alloc_table m t ! i = (entry_address m t i, entry_pages m t i)"
  by (simp add: alloc_table_def)

lemma unat_entry:
  assumes "table_at t" and "i < ALLOCATIONS_MAX"
  shows "unat (entry_at t i) = unat t + 16 * i" and "unat (entry_at t i + 8) = unat t + 16 * i + 8"
proof -
  have e: "entry_at t i = t + of_nat (16 * i)" "entry_at t i + 8 = t + of_nat (16 * i + 8)"
    by (simp_all add: entry_at_def sizeof_efi_allocation_entry_def add.assoc)
  have "unat t + (16 * i + 8) < 2 ^ LENGTH(64)" and "unat t + 16 * i < 2 ^ LENGTH(64)"
    using assms by (simp_all add: table_at_def ALLOCATIONS_MAX_def)
  then show "unat (entry_at t i) = unat t + 16 * i"
      "unat (entry_at t i + 8) = unat t + 16 * i + 8"
    using unat_add_small[of t "16 * i"] unat_add_small[of t "16 * i + 8"]
    by (simp_all only: e(2)) (simp_all only: e(1) add.assoc)
qed

lemma entry_aligned:
  assumes "table_at t" and "i < ALLOCATIONS_MAX"
  shows "aligned8 (entry_at t i)" and "aligned8 (entry_at t i + 8)"
  using assms unat_entry[OF assms] by (auto simp: aligned8_def table_at_def take_bit_0_dvd)

lemma entry_distinct:
  assumes "table_at t" and "i < ALLOCATIONS_MAX" and "j < ALLOCATIONS_MAX"
  shows "entry_at t i = entry_at t j \<longleftrightarrow> i = j" and "entry_at t i + 8 = entry_at t j + 8 \<longleftrightarrow> i = j"
    and "entry_at t i \<noteq> entry_at t j + 8"
proof -
  show "entry_at t i = entry_at t j \<longleftrightarrow> i = j"
    using unat_entry(1)[OF assms(1,2)] unat_entry(1)[OF assms(1,3)]
    by (simp add: word_unat_eq_iff)
  then show "entry_at t i + 8 = entry_at t j + 8 \<longleftrightarrow> i = j" by (simp only: add_right_cancel)
  have "unat t + 16 * i \<noteq> unat t + 16 * j + 8" by presburger
  then show "entry_at t i \<noteq> entry_at t j + 8"
    using unat_entry(1)[OF assms(1,2)] unat_entry(2)[OF assms(1,3)]
    by (simp only: word_unat_eq_iff) simp
qed

lemma load_store_entry:
  assumes "table_at t" and "i < ALLOCATIONS_MAX" and "j < ALLOCATIONS_MAX"
  shows "entry_address (store_entry t i a n m) t j = (if i = j then a else entry_address m t j)"
    and "entry_pages (store_entry t i a n m) t j = (if i = j then n else entry_pages m t j)"
  using entry_aligned[OF assms(1,2)] entry_aligned[OF assms(1,3)]
    entry_distinct[OF assms] entry_distinct[OF assms(1,3,2)]
  by (simp_all add: entry_address_def entry_pages_def store_entry_def load64_store64_aligned)

lemma alloc_table_store:
  assumes "table_at t" and "i < ALLOCATIONS_MAX"
  shows "alloc_table (store_entry t i a n m) t = (alloc_table m t)[i := (a, n)]"
  using assms by (auto intro!: nth_equalityI simp: load_store_entry nth_list_update)

text \<open>Writing an entry changes no byte outside the table.\<close>

lemma store_entry_frame:
  assumes "table_at t" and "i < ALLOCATIONS_MAX" and "65536 \<le> unat (b - t)"
  shows "store_entry t i a n m b = m b"
proof -
  have "16 * i + 16 \<le> 65536" using assms(2) by (simp add: ALLOCATIONS_MAX_def)
  have "8 \<le> unat (b - (t + of_nat k))" if "k + 8 \<le> 65536" for k
  proof -
    have k: "unat (of_nat k :: u64) = k" by (rule unat_of_nat_small) (use that in simp)
    have "b - (t + of_nat k) = (b - t) - of_nat k" by simp
    moreover have "unat ((b - t) - of_nat k) = unat (b - t) - k"
      using that assms(3) by (simp only: unat_sub_if_size k) simp
    ultimately have "unat (b - (t + of_nat k)) = unat (b - t) - k" by (simp only:)
    then show ?thesis using that assms(3) by linarith
  qed
  from this[of "16 * i"] this[of "16 * i + 8"] \<open>16 * i + 16 \<le> 65536\<close>
  show ?thesis
    by (simp add: store_entry_def store64_def store_bytes_def entry_at_def
        sizeof_efi_allocation_entry_def add.assoc)
qed

section \<open>What the operations do to the table\<close>

lemma find_index_None: "find P [0..<n] = None \<longleftrightarrow> (\<forall>i < n. \<not> P i)"
  by (auto simp: find_None_iff)

lemma find_index_Some: "find P [0..<n] = Some i \<Longrightarrow> i < n \<and> P i \<and> (\<forall>j < i. \<not> P j)"
  by (auto simp: find_Some_iff)

lemma efi_allocate_full:
  assumes "\<forall>i < ALLOCATIONS_MAX. entry_address (l_mem s) (efi_allocations s) i \<noteq> 0"
  shows "efi_allocate fw sz s = (0, log (Log (''max allocations reached!'' @ endl
                          @ ''shit will fuck up now'' @ endl)) s)"
proof -
  have "find (\<lambda>i. entry_address (l_mem s) (efi_allocations s) i = 0) [0..<ALLOCATIONS_MAX] = None"
    using assms by (simp add: find_index_None)
  then show ?thesis by (simp add: efi_allocate_def)
qed

lemma efi_allocate_free:
  assumes "table_at (efi_allocations s)"
    and "find (\<lambda>i. entry_address (l_mem s) (efi_allocations s) i = 0) [0..<ALLOCATIONS_MAX] = Some i"
    and "allocate_pages fw allocate_any_pages boot_services_data (NUM_PAGES sz) 0 (l_fw s) = (st, a, f)"
  shows "efi_allocate fw sz s =
    (a, s\<lparr>l_mem := store_entry (efi_allocations s) i a (NUM_PAGES sz) (l_mem s), l_fw := f\<rparr>)"
  using find_index_Some[OF assms(2)] assms by (simp add: efi_allocate_def load_store_entry)

text \<open>A request changes memory in the table only, and no global but the firmware state and the log.\<close>

lemma efi_allocate_frame:
  assumes "table_at (efi_allocations s)" and "efi_allocate fw sz s = (a, s')"
  shows "\<exists>m f l. s' = s\<lparr>l_mem := m, l_fw := f, l_log := l\<rparr>
    \<and> (\<forall>b. 65536 \<le> unat (b - efi_allocations s) \<longrightarrow> m b = l_mem s b)"
proof (cases "find (\<lambda>i. entry_address (l_mem s) (efi_allocations s) i = 0) [0..<ALLOCATIONS_MAX]")
  case None
  then have "s' = s\<lparr>l_mem := l_mem s, l_fw := l_fw s, l_log := l_log s'\<rparr>"
    using assms(2) by (auto simp: efi_allocate_def log_def)
  then show ?thesis by blast
next
  case (Some i)
  obtain st a' f where call: "allocate_pages fw allocate_any_pages boot_services_data (NUM_PAGES sz) 0 (l_fw s) = (st, a', f)"
    by (metis prod_cases3)
  let ?m = "store_entry (efi_allocations s) i a' (NUM_PAGES sz) (l_mem s)"
  have "s' = s\<lparr>l_mem := ?m, l_fw := f, l_log := l_log s\<rparr>"
    using assms(2) efi_allocate_free[OF assms(1) Some call] by auto
  moreover have "\<forall>b. 65536 \<le> unat (b - efi_allocations s) \<longrightarrow> ?m b = l_mem s b"
    using store_entry_frame[OF assms(1)] find_index_Some[OF Some] by blast
  ultimately show ?thesis by blast
qed

definition free_matching :: "'f efi \<Rightarrow> u64 \<Rightarrow> (u64 \<times> u64) list \<Rightarrow> 'f \<Rightarrow> 'f" where
  "free_matching fw a xs f = fold (\<lambda>e f. if fst e = a then free_pages fw (fst e) (snd e) f else f) xs f"

definition clear_matching :: "u64 \<Rightarrow> u64 \<times> u64 \<Rightarrow> u64 \<times> u64" where
  "clear_matching a e = (if fst e = a then (0, 0) else e)"

lemma efi_deallocate_table:
  assumes "table_at (efi_allocations s)"
  shows "\<exists>m. efi_deallocate fw a s = s\<lparr>l_mem := m,
      l_fw := free_matching fw a (alloc_table (l_mem s) (efi_allocations s)) (l_fw s)\<rparr>
    \<and> alloc_table m (efi_allocations s)
        = map (clear_matching a) (alloc_table (l_mem s) (efi_allocations s))
    \<and> (\<forall>b. 65536 \<le> unat (b - efi_allocations s) \<longrightarrow> m b = l_mem s b)"
proof -
  let ?t = "efi_allocations s" and ?xs = "alloc_table (l_mem s) (efi_allocations s)"
  define I where "I = (\<lambda>k s'. \<exists>m. s' = s\<lparr>l_mem := m, l_fw := free_matching fw a (take k ?xs) (l_fw s)\<rparr>
    \<and> alloc_table m ?t = map (clear_matching a) (take k ?xs) @ drop k ?xs
    \<and> (\<forall>b. 65536 \<le> unat (b - ?t) \<longrightarrow> m b = l_mem s b))"
  have "I ALLOCATIONS_MAX (for_range 0 ALLOCATIONS_MAX (efi_deallocate_entry fw a) s)"
  proof (rule for_range_inv)
    show "I 0 s" unfolding I_def by (intro exI[of _ "l_mem s"]) (simp add: free_matching_def)
  next
    fix k s'
    assume "k < ALLOCATIONS_MAX" and "I k s'"
    then obtain m where s': "s' = s\<lparr>l_mem := m, l_fw := free_matching fw a (take k ?xs) (l_fw s)\<rparr>"
      and tab: "alloc_table m ?t = map (clear_matching a) (take k ?xs) @ drop k ?xs"
      and frame: "\<And>b. 65536 \<le> unat (b - ?t) \<Longrightarrow> m b = l_mem s b"
      by (auto simp: I_def)
    have k: "k < length ?xs" using \<open>k < ALLOCATIONS_MAX\<close> by simp
    have "alloc_table m ?t ! k = ?xs ! k" using k by (simp add: tab nth_append)
    then have e: "entry_address m ?t k = fst (?xs ! k)" "entry_pages m ?t k = snd (?xs ! k)"
      using \<open>k < ALLOCATIONS_MAX\<close> by simp_all
    have tk: "take (Suc k) ?xs = take k ?xs @ [?xs ! k]" using k by (rule take_Suc_conv_app_nth)
    have dk: "drop k ?xs = ?xs ! k # drop (Suc k) ?xs" using k by (rule Cons_nth_drop_Suc[symmetric])
    show "I (Suc k) (efi_deallocate_entry fw a k s')"
    proof (cases "fst (?xs ! k) = a")
      case True
      let ?m = "store_entry ?t k 0 0 m"
      have "alloc_table ?m ?t = map (clear_matching a) (take (Suc k) ?xs) @ drop (Suc k) ?xs"
        using alloc_table_store[OF assms \<open>k < ALLOCATIONS_MAX\<close>, of 0 0 m] k True
        by (simp add: tab tk dk list_update_append clear_matching_def)
      then show ?thesis
        using True e tk frame store_entry_frame[OF assms \<open>k < ALLOCATIONS_MAX\<close>]
        unfolding I_def by (intro exI[of _ ?m]) (simp add: efi_deallocate_entry_def s' free_matching_def Let_def)
    next
      case False
      then show ?thesis
        using e tab frame tk dk unfolding I_def
        by (intro exI[of _ m]) (simp add: efi_deallocate_entry_def s' free_matching_def clear_matching_def Let_def)
    qed
  qed simp
  then show ?thesis by (simp add: I_def efi_deallocate_def)
qed

lemma free_matching_none: "\<forall>e \<in> set xs. fst e \<noteq> a \<Longrightarrow> free_matching fw a xs f = f"
  by (induction xs arbitrary: f) (auto simp: free_matching_def)

lemma free_matching_one:
  assumes "i < length xs" and "fst (xs ! i) = a"
    and "\<And>j. j < length xs \<Longrightarrow> j \<noteq> i \<Longrightarrow> fst (xs ! j) \<noteq> a"
  shows "free_matching fw a xs f = free_pages fw a (snd (xs ! i)) f"
proof -
  have "fst e \<noteq> a" if e: "e \<in> set (take i xs)" for e
  proof -
    obtain j where "j < length (take i xs)" "take i xs ! j = e"
      using e unfolding in_set_conv_nth by blast
    then show ?thesis using assms(1) assms(3)[of j] by auto
  qed
  moreover have "fst e \<noteq> a" if e: "e \<in> set (drop (Suc i) xs)" for e
  proof -
    obtain j where "j < length xs - Suc i" "e = xs ! (Suc i + j)"
      using e by (auto simp: in_set_conv_nth)
    then show ?thesis using assms(3)[of "Suc i + j"] by simp
  qed
  ultimately have "free_matching fw a (take i xs) f' = f'"
      and "free_matching fw a (drop (Suc i) xs) f' = f'" for f'
    by (simp_all add: free_matching_none)
  then have "free_matching fw a (take i xs @ xs ! i # drop (Suc i) xs) f
      = free_pages fw a (snd (xs ! i)) f"
    using assms(2) by (simp add: free_matching_def)
  then show ?thesis using id_take_nth_drop[OF assms(1)] by simp
qed

section \<open>The allocator as a finite map\<close>

definition live :: "(u64 \<times> u64) list \<Rightarrow> u64 \<rightharpoonup> u64" where
  "live xs = map_of (filter (\<lambda>e. fst e \<noteq> 0) xs)"

definition allocated :: "'f ldr \<Rightarrow> u64 \<rightharpoonup> u64" where
  "allocated s = live (alloc_table (l_mem s) (efi_allocations s))"

definition live_distinct :: "(u64 \<times> u64) list \<Rightarrow> bool" where
  "live_distinct xs \<longleftrightarrow> (\<forall>i < length xs. \<forall>j < length xs.
     fst (xs ! i) \<noteq> 0 \<longrightarrow> fst (xs ! i) = fst (xs ! j) \<longrightarrow> i = j)"

lemma live_iff:
  assumes "live_distinct xs"
  shows "live xs a = Some n \<longleftrightarrow> a \<noteq> 0 \<and> (\<exists>i < length xs. xs ! i = (a, n))"
proof
  assume "live xs a = Some n"
  then have "(a, n) \<in> set (filter (\<lambda>e. fst e \<noteq> 0) xs)"
    unfolding live_def by (rule map_of_SomeD)
  then show "a \<noteq> 0 \<and> (\<exists>i < length xs. xs ! i = (a, n))" by (auto simp: in_set_conv_nth)
next
  assume *: "a \<noteq> 0 \<and> (\<exists>i < length xs. xs ! i = (a, n))"
  then have "(a, n) \<in> set (filter (\<lambda>e. fst e \<noteq> 0) xs)" by (auto simp: in_set_conv_nth)
  then have "live xs a \<noteq> None" unfolding live_def by (auto simp: map_of_eq_None_iff image_iff)
  then obtain n' where n': "live xs a = Some n'" by blast
  then have "(a, n') \<in> set xs" unfolding live_def using map_of_SomeD by fastforce
  with * obtain i j where "i < length xs" "xs ! i = (a, n)" "j < length xs" "xs ! j = (a, n')" "a \<noteq> 0"
    by (auto simp: in_set_conv_nth)
  with assms have "i = j" unfolding live_distinct_def by (metis fst_conv)
  with \<open>xs ! i = (a, n)\<close> \<open>xs ! j = (a, n')\<close> n' show "live xs a = Some n" by simp
qed

lemma live_None: "live_distinct xs \<Longrightarrow> a \<noteq> 0 \<Longrightarrow> live xs a = None \<longleftrightarrow> (\<forall>i < length xs. fst (xs ! i) \<noteq> a)"
  using live_iff[of xs a] by (metis not_None_eq prod.collapse fst_conv)

lemma live_0 [simp]: "live xs 0 = None"
  by (auto simp: live_def map_of_eq_None_iff)

lemma map_eqI_Some: "(\<And>a n. f a = Some n \<longleftrightarrow> g a = Some n) \<Longrightarrow> f = g"
  for f g :: "'a \<rightharpoonup> 'b"
  by (rule ext) (metis not_None_eq)

lemma live_update:
  assumes "live_distinct xs" and "i < length xs" and "fst (xs ! i) = 0"
    and "live xs a = None" and "a \<noteq> 0"
  shows "live_distinct (xs[i := (a, n)])" and "live (xs[i := (a, n)]) = (live xs)(a \<mapsto> n)"
proof -
  have new: "fst (xs ! j) \<noteq> a" if "j < length xs" for j
    using assms(1,4,5) live_None that by blast
  then show d: "live_distinct (xs[i := (a, n)])"
    using assms(1,2) by (auto simp: live_distinct_def nth_list_update)
  show "live (xs[i := (a, n)]) = (live xs)(a \<mapsto> n)"
  proof (rule map_eqI_Some)
    fix b k
    show "live (xs[i := (a, n)]) b = Some k \<longleftrightarrow> ((live xs)(a \<mapsto> n)) b = Some k"
      using new assms(2,3,5) unfolding live_iff[OF d] fun_upd_apply
      by (auto simp: live_iff[OF assms(1)] nth_list_update split: if_splits)
        (metis fst_conv)+
  qed
qed

lemma live_update_free:
  assumes "live_distinct xs" and "i < length xs" and "fst (xs ! i) = 0"
  shows "live_distinct (xs[i := (0, n)])" and "live (xs[i := (0, n)]) = live xs"
proof -
  show d: "live_distinct (xs[i := (0, n)])"
    using assms by (auto simp: live_distinct_def nth_list_update)
  show "live (xs[i := (0, n)]) = live xs"
  proof (rule map_eqI_Some)
    fix b k
    have "xs[i := (0, n)] ! j = (b, k) \<longleftrightarrow> xs ! j = (b, k)" if "b \<noteq> 0" and "j < length xs" for j
      using that assms(2,3) by (auto simp: nth_list_update)
    then show "live (xs[i := (0, n)]) b = Some k \<longleftrightarrow> live xs b = Some k"
      unfolding live_iff[OF d] live_iff[OF assms(1)] length_list_update by blast
  qed
qed

lemma live_clear:
  assumes "live_distinct xs" and "a \<noteq> 0"
  shows "live_distinct (map (clear_matching a) xs)" and "live (map (clear_matching a) xs) = (live xs)(a := None)"
proof -
  show d: "live_distinct (map (clear_matching a) xs)"
    using assms(1) by (auto simp: live_distinct_def clear_matching_def)
  show "live (map (clear_matching a) xs) = (live xs)(a := None)"
    by (intro map_eqI_Some)
      (auto simp: live_iff[OF d] live_iff[OF assms(1)] clear_matching_def split: if_splits)
qed

section \<open>The contract of new and delete\<close>

text \<open>
  What the callers of \<open>new\<close> and \<open>delete\<close> rely on. The parameter \<open>'c\<close> carries what the
  implementation runs on; a null result is a refused request.
\<close>

locale page_heap =
  fixes alloc :: "'c \<Rightarrow> u64 \<Rightarrow> 's \<Rightarrow> u64 \<times> 's"
    and dealloc :: "'c \<Rightarrow> u64 \<Rightarrow> 's \<Rightarrow> 's"
    and heap :: "'s \<Rightarrow> u64 \<rightharpoonup> u64"
    and heap_ok :: "'c \<Rightarrow> 's \<Rightarrow> bool"
  assumes alloc_ok: "heap_ok c s \<Longrightarrow> NUM_PAGES n \<noteq> 0 \<Longrightarrow> heap_ok c (snd (alloc c n s))"
    and alloc_heap: "heap_ok c s \<Longrightarrow> NUM_PAGES n \<noteq> 0 \<Longrightarrow>
      heap (snd (alloc c n s)) =
        (if fst (alloc c n s) = 0 then heap s else (heap s)(fst (alloc c n s) \<mapsto> NUM_PAGES n))"
    and alloc_fresh: "heap_ok c s \<Longrightarrow> NUM_PAGES n \<noteq> 0 \<Longrightarrow> heap s (fst (alloc c n s)) = None"
    and dealloc_ok: "heap_ok c s \<Longrightarrow> a \<noteq> 0 \<Longrightarrow> heap_ok c (dealloc c a s)"
    and dealloc_heap: "heap_ok c s \<Longrightarrow> a \<noteq> 0 \<Longrightarrow> heap (dealloc c a s) = (heap s)(a := None)"
begin

lemma delete_new:
  assumes "heap_ok c s" and "NUM_PAGES n \<noteq> 0" and "alloc c n s = (a, s')" and "a \<noteq> 0"
  shows "heap (dealloc c a s') = heap s"
proof -
  have "heap_ok c s'" and "heap s' = (heap s)(a \<mapsto> NUM_PAGES n)" and "heap s a = None"
    using alloc_ok[OF assms(1,2)] alloc_heap[OF assms(1,2)] alloc_fresh[OF assms(1,2)] assms(3,4)
    by simp_all
  then show ?thesis using dealloc_heap[of c s' a] assms(4) by (simp add: fun_upd_idem)
qed

lemma new_keeps:
  assumes "heap_ok c s" and "NUM_PAGES n \<noteq> 0" and "heap s b = Some k"
  shows "heap (snd (alloc c n s)) b = Some k" and "fst (alloc c n s) \<noteq> b"
  using alloc_heap[OF assms(1,2)] alloc_fresh[OF assms(1,2)] assms(3) by auto

text \<open>Any sequence of requests and releases of non-null pointers.\<close>

inductive runs :: "'c \<Rightarrow> 's \<Rightarrow> 's \<Rightarrow> bool" for c where
  refl: "runs c s s"
| alloc: "runs c s s' \<Longrightarrow> NUM_PAGES n \<noteq> 0 \<Longrightarrow> runs c s (snd (alloc c n s'))"
| dealloc: "runs c s s' \<Longrightarrow> a \<noteq> 0 \<Longrightarrow> runs c s (dealloc c a s')"

lemma runs_ok: "runs c s s' \<Longrightarrow> heap_ok c s \<Longrightarrow> heap_ok c s'"
  by (induction rule: runs.induct) (auto simp: alloc_ok dealloc_ok)

end

section \<open>The invariant\<close>

text \<open>
  The bytes of \<open>n\<close> pages from \<open>a\<close>, and what UEFI documents of the page services, over the set
  \<open>owned\<close> of bytes that are given out: a granted block is page aligned, not null, does not reach
  past the end of the address space and was not given out before; a refused request leaves the pointer alone; freeing gives back at most the
  named block.
\<close>

definition span :: "u64 \<Rightarrow> u64 \<Rightarrow> u64 set" where
  "span a n = {b. unat (b - a) < unat n * 4096}"

definition page_service :: "'f efi \<Rightarrow> ('f \<Rightarrow> u64 set) \<Rightarrow> bool" where
  "page_service fw owned \<longleftrightarrow>
     (\<forall>ty n a0 f st a f'. allocate_pages fw allocate_any_pages ty n a0 f = (st, a, f') \<longrightarrow>
        (if st = efi_success
         then a \<noteq> 0 \<and> page_aligned a \<and> unat a + unat n * 4096 \<le> 2 ^ 64
           \<and> span a n \<inter> owned f = {} \<and> span a n \<union> owned f \<subseteq> owned f'
         else a = a0 \<and> owned f \<subseteq> owned f'))
   \<and> (\<forall>a n f. owned f - span a n \<subseteq> owned (free_pages fw a n f))"

definition block :: "u64 \<times> u64 \<Rightarrow> u64 set" where
  "block e = (if fst e = 0 then {} else span (fst e) (snd e))"

definition blocks_ok :: "u64 set \<Rightarrow> u64 \<Rightarrow> (u64 \<times> u64) list \<Rightarrow> bool" where
  "blocks_ok own t xs \<longleftrightarrow>
     (\<forall>e \<in> set xs. (fst e \<noteq> 0 \<longrightarrow> snd e \<noteq> 0) \<and> block e \<subseteq> own - span t (NUM_PAGES ALLOCATIONS_SIZE))
   \<and> (\<forall>i < length xs. \<forall>j < length xs. i \<noteq> j \<longrightarrow> block (xs ! i) \<inter> block (xs ! j) = {})"

definition heap_inv :: "'f efi \<times> ('f \<Rightarrow> u64 set) \<Rightarrow> 'f ldr \<Rightarrow> bool" where
  "heap_inv c s \<longleftrightarrow>
     (let t = efi_allocations s; own = snd c (l_fw s)
      in page_service (fst c) (snd c) \<and> table_at t \<and> span t (NUM_PAGES ALLOCATIONS_SIZE) \<subseteq> own
         \<and> blocks_ok own t (alloc_table (l_mem s) t))"

lemma span_self: "n \<noteq> 0 \<Longrightarrow> a \<in> span a n"
  by (simp add: span_def unat_gt_0)

lemma block_self: "fst e \<noteq> 0 \<Longrightarrow> snd e \<noteq> 0 \<Longrightarrow> fst e \<in> block e"
  by (simp add: block_def span_self)

lemma block_0 [simp]: "block (0, n) = {}"
  by (simp add: block_def)

lemma blocks_distinct: "blocks_ok own t xs \<Longrightarrow> live_distinct xs"
  unfolding live_distinct_def
proof (intro allI impI, rule ccontr)
  fix i j
  assume b: "blocks_ok own t xs" and ij: "i < length xs" "j < length xs" "i \<noteq> j"
    and e: "fst (xs ! i) \<noteq> 0" "fst (xs ! i) = fst (xs ! j)"
  have "snd (xs ! i) \<noteq> 0" and "snd (xs ! j) \<noteq> 0"
    using b ij e unfolding blocks_ok_def by (metis nth_mem)+
  then have "fst (xs ! i) \<in> block (xs ! i)" and "fst (xs ! i) \<in> block (xs ! j)"
    using e block_self[of "xs ! i"] block_self[of "xs ! j"] by auto
  moreover have "block (xs ! i) \<inter> block (xs ! j) = {}"
    using b ij unfolding blocks_ok_def by blast
  ultimately show False by blast
qed

lemma blocks_mono: "blocks_ok own t xs \<Longrightarrow> own \<subseteq> own' \<Longrightarrow> blocks_ok own' t xs"
  unfolding blocks_ok_def by blast

lemma blocks_update:
  assumes "blocks_ok own t xs" and "own \<subseteq> own'" and "fst e \<noteq> 0 \<Longrightarrow> snd e \<noteq> 0"
    and "block e \<subseteq> own' - span t (NUM_PAGES ALLOCATIONS_SIZE)"
    and "\<forall>x \<in> set xs. block e \<inter> block x = {}"
  shows "blocks_ok own' t (xs[i := e])"
proof (cases "i < length xs")
  case True
  have "block (xs[i := e] ! j) \<inter> block (xs[i := e] ! k) = {}"
    if "j < length xs" "k < length xs" "j \<noteq> k" for j k
  proof -
    have "block e \<inter> block (xs ! j) = {}" and "block e \<inter> block (xs ! k) = {}"
      using assms(5) that by simp_all
    moreover have "block (xs ! j) \<inter> block (xs ! k) = {}"
      using assms(1) that unfolding blocks_ok_def by blast
    ultimately show ?thesis using True that by (simp add: nth_list_update Int_commute)
  qed
  then show ?thesis
    using blocks_mono[OF assms(1,2)] assms(3,4) set_update_subset_insert[of xs i e]
    unfolding blocks_ok_def length_list_update by blast
next
  case False
  then show ?thesis using blocks_mono[OF assms(1,2)] by (simp add: list_update_beyond)
qed

lemma blocks_clear:
  assumes "blocks_ok own t xs" and "\<And>e. e \<in> set xs \<Longrightarrow> fst e \<noteq> a \<Longrightarrow> block e \<subseteq> own'" and "a \<noteq> 0"
  shows "blocks_ok own' t (map (clear_matching a) xs)"
proof -
  have c: "block (clear_matching a e) \<subseteq> block e" for e
    by (simp add: clear_matching_def)
  have "block (clear_matching a e) \<subseteq> own' - span t (NUM_PAGES ALLOCATIONS_SIZE)"
    "fst (clear_matching a e) \<noteq> 0 \<longrightarrow> snd (clear_matching a e) \<noteq> 0" if "e \<in> set xs" for e
    using that assms(1) assms(2)[OF that] unfolding blocks_ok_def
    by (auto simp: clear_matching_def)
  moreover have "block (clear_matching a (xs ! i)) \<inter> block (clear_matching a (xs ! j)) = {}"
    if "i < length xs" "j < length xs" "i \<noteq> j" for i j
    using c[of "xs ! i"] c[of "xs ! j"] assms(1) that unfolding blocks_ok_def by blast
  ultimately show ?thesis unfolding blocks_ok_def by simp
qed

lemma blocks_own: "blocks_ok own t xs \<Longrightarrow> e \<in> set xs \<Longrightarrow> block e \<subseteq> own - span t (NUM_PAGES ALLOCATIONS_SIZE)"
  unfolding blocks_ok_def by blast

text \<open>A block that was not given out is not live.\<close>

lemma live_fresh:
  assumes "blocks_ok own t xs" "span a n \<inter> own = {}" "n \<noteq> 0" "a \<noteq> 0"
  shows "live xs a = None"
proof (rule ccontr)
  assume "live xs a \<noteq> None"
  then obtain k where k: "(a, k) \<in> set xs" using live_iff[OF blocks_distinct[OF assms(1)]] by (metis not_None_eq nth_mem)
  then have "k \<noteq> 0" using assms(1,4) unfolding blocks_ok_def by fastforce
  then have "a \<in> own" using blocks_own[OF assms(1) k] block_self[of "(a, k)"] assms(4) by auto
  then show False using assms(2) span_self[OF assms(3), of a] by blast
qed

lemma blocks_grant:
  assumes "blocks_ok own t xs" "span a n \<inter> own = {}" "span a n \<union> own \<subseteq> own'" "n \<noteq> 0" "a \<noteq> 0"
    and "span t (NUM_PAGES ALLOCATIONS_SIZE) \<subseteq> own"
  shows "blocks_ok own' t (xs[i := (a, n)])"
proof -
  have e: "block (a, n) = span a n" using assms(5) by (simp add: block_def)
  show ?thesis
    using assms(2-4,6) blocks_own[OF assms(1)]
    by (intro blocks_update[OF assms(1)]; (unfold e)?; (simp; fail)?) blast+
qed

text \<open>Releasing an address frees its one block, which is apart from every other one.\<close>

lemma free_matching_live:
  assumes d: "live_distinct xs" and a: "a \<noteq> 0"
  shows "free_matching fw a xs f = (case live xs a of None \<Rightarrow> f | Some n \<Rightarrow> free_pages fw a n f)"
proof (cases "live xs a")
  case None
  then have "\<forall>i < length xs. fst (xs ! i) \<noteq> a" using live_None[OF d a] by simp
  then have "\<forall>e \<in> set xs. fst e \<noteq> a" by (metis in_set_conv_nth)
  then show ?thesis using None by (simp add: free_matching_none)
next
  case (Some n)
  then obtain i where i: "i < length xs" "xs ! i = (a, n)" using live_iff[OF d] by blast
  have "fst (xs ! j) \<noteq> a" if "j < length xs" "j \<noteq> i" for j
    using d i that a unfolding live_distinct_def by (metis fst_conv)
  then have "free_matching fw a xs f = free_pages fw a (snd (xs ! i)) f"
    using i by (intro free_matching_one) auto
  then show ?thesis using Some i by simp
qed

lemma live_apart:
  assumes b: "blocks_ok own t xs" and a: "a \<noteq> 0" and e: "e \<in> set xs" "fst e \<noteq> a" and l: "live xs a = Some n"
  shows "block e \<inter> span a n = {}"
proof -
  obtain i where i: "i < length xs" "xs ! i = (a, n)" using l live_iff[OF blocks_distinct[OF b]] by blast
  obtain j where j: "j < length xs" "xs ! j = e" using e(1) by (auto simp: in_set_conv_nth)
  have "block (xs ! j) \<inter> block (xs ! i) = {}"
    using b i j e(2) unfolding blocks_ok_def by (metis fst_conv)
  then show ?thesis using i j a by (simp add: block_def split: if_splits)
qed

text \<open>One request, for a firmware that keeps its contract.\<close>

lemma efi_allocate_heap:
  assumes inv: "heap_inv c s" and n: "NUM_PAGES n \<noteq> 0"
    and run: "efi_allocate (fst c) n s = (a, s')"
  shows "heap_inv c s'" and "allocated s a = None"
    and "allocated s' = (if a = 0 then allocated s else (allocated s)(a \<mapsto> NUM_PAGES n))"
proof -
  let ?t = "efi_allocations s" and ?fw = "fst c"
  let ?xs = "alloc_table (l_mem s) ?t" and ?own = "snd c (l_fw s)"
  have c: "page_service ?fw (snd c)" "table_at ?t" "span ?t (NUM_PAGES ALLOCATIONS_SIZE) \<subseteq> ?own"
    "blocks_ok ?own ?t ?xs"
    using inv by (simp_all add: heap_inv_def Let_def)
  have d: "live_distinct ?xs" using c(4) by (rule blocks_distinct)
  have "heap_inv c s' \<and> allocated s a = None
    \<and> allocated s' = (if a = 0 then allocated s else (allocated s)(a \<mapsto> NUM_PAGES n))"
  proof (cases "find (\<lambda>i. entry_address (l_mem s) ?t i = 0) [0..<ALLOCATIONS_MAX]")
    case None
    then have "a = 0" and "s' = log (Log (''max allocations reached!'' @ endl
                          @ ''shit will fuck up now'' @ endl)) s"
      using run efi_allocate_full[of s ?fw n] by (simp_all add: find_index_None)
    then show ?thesis using inv by (simp add: heap_inv_def allocated_def)
  next
    case (Some i)
    obtain st a' f where call: "allocate_pages ?fw allocate_any_pages boot_services_data (NUM_PAGES n) 0 (l_fw s) = (st, a', f)"
      by (metis prod_cases3)
    let ?m = "store_entry ?t i a (NUM_PAGES n) (l_mem s)"
    have a: "a' = a" and s': "s' = s\<lparr>l_mem := ?m, l_fw := f\<rparr>"
      using run efi_allocate_free[OF c(2) Some call] by auto
    have i: "i < ALLOCATIONS_MAX" "fst (?xs ! i) = 0" using find_index_Some[OF Some] by simp_all
    have tab: "alloc_table ?m ?t = ?xs[i := (a, NUM_PAGES n)]"
      using c(2) i(1) by (rule alloc_table_store)
    have svc: "if st = efi_success
        then a \<noteq> 0 \<and> span a (NUM_PAGES n) \<inter> ?own = {} \<and> span a (NUM_PAGES n) \<union> ?own \<subseteq> snd c f
        else a = 0 \<and> ?own \<subseteq> snd c f"
      using c(1) call unfolding page_service_def a by (metis (no_types, lifting))
    show ?thesis
    proof (cases "a = 0")
      case True
      then have "?own \<subseteq> snd c f" using svc by (auto split: if_splits)
      then have "blocks_ok (snd c f) ?t (?xs[i := (0, NUM_PAGES n)])"
        by (intro blocks_update[OF c(4)]) auto
      then show ?thesis
        using True c tab live_update_free[OF d _ i(2)] i(1) \<open>?own \<subseteq> snd c f\<close>
        by (auto simp: heap_inv_def Let_def allocated_def s')
    next
      case False
      then have svc: "span a (NUM_PAGES n) \<inter> ?own = {}" "span a (NUM_PAGES n) \<union> ?own \<subseteq> snd c f"
        using svc by (auto split: if_splits)
      note ok = blocks_grant[OF c(4) svc n False c(3), of i]
      note fresh = live_fresh[OF c(4) svc(1) n False]
      show ?thesis
        using False c tab live_update[OF d _ i(2) fresh False] i(1) svc ok fresh
        by (auto simp: heap_inv_def Let_def allocated_def s')
    qed
  qed
  then show "heap_inv c s'" "allocated s a = None"
    "allocated s' = (if a = 0 then allocated s else (allocated s)(a \<mapsto> NUM_PAGES n))"
    by simp_all
qed

lemma efi_deallocate_heap:
  assumes inv: "heap_inv c s" and a: "a \<noteq> 0"
  shows "heap_inv c (efi_deallocate (fst c) a s)"
    and "allocated (efi_deallocate (fst c) a s) = (allocated s)(a := None)"
    and "l_fw (efi_deallocate (fst c) a s) =
      (case allocated s a of None \<Rightarrow> l_fw s | Some n \<Rightarrow> free_pages (fst c) a n (l_fw s))"
proof -
  let ?t = "efi_allocations s" and ?fw = "fst c"
  let ?xs = "alloc_table (l_mem s) ?t" and ?own = "snd c (l_fw s)"
  let ?f = "free_matching ?fw a ?xs (l_fw s)"
  have c: "page_service ?fw (snd c)" "table_at ?t" "span ?t (NUM_PAGES ALLOCATIONS_SIZE) \<subseteq> ?own"
    "blocks_ok ?own ?t ?xs"
    using inv by (simp_all add: heap_inv_def Let_def)
  have d: "live_distinct ?xs" using c(4) by (rule blocks_distinct)
  obtain m where s': "efi_deallocate ?fw a s = s\<lparr>l_mem := m, l_fw := ?f\<rparr>"
    and tab: "alloc_table m ?t = map (clear_matching a) ?xs"
    using efi_deallocate_table[OF c(2), of ?fw a] by blast
  note f = free_matching_live[OF d a, of ?fw "l_fw s"]
  have keep: "A \<subseteq> snd c ?f"
    if "A \<subseteq> ?own" and "\<And>n. live ?xs a = Some n \<Longrightarrow> A \<inter> span a n = {}" for A
  proof (cases "live ?xs a")
    case None
    then show ?thesis using that f by simp
  next
    case (Some n)
    then have "?own - span a n \<subseteq> snd c ?f" using c(1) f by (simp add: page_service_def)
    then show ?thesis using that Some by blast
  qed
  note other = live_apart[OF c(4) a] and blocks = blocks_own[OF c(4)]
  have "blocks_ok (snd c ?f) ?t (map (clear_matching a) ?xs)"
  proof (rule blocks_clear[OF c(4) _ a])
    fix e
    assume e: "e \<in> set ?xs" "fst e \<noteq> a"
    show "block e \<subseteq> snd c ?f" using blocks[OF e(1)] other[OF e] by (intro keep) blast+
  qed
  moreover have "span ?t (NUM_PAGES ALLOCATIONS_SIZE) \<subseteq> snd c ?f"
  proof (rule keep[OF c(3)])
    fix n
    assume "live ?xs a = Some n"
    then have "(a, n) \<in> set ?xs" using live_iff[OF d] by (metis nth_mem)
    from blocks[OF this] show "span ?t (NUM_PAGES ALLOCATIONS_SIZE) \<inter> span a n = {}"
      using a by (auto simp: block_def)
  qed
  ultimately show "heap_inv c (efi_deallocate ?fw a s)"
    using c tab by (simp add: heap_inv_def Let_def s')
  show "allocated (efi_deallocate ?fw a s) = (allocated s)(a := None)"
    using live_clear[OF d a] tab by (simp add: allocated_def s')
  show "l_fw (efi_deallocate ?fw a s) =
      (case allocated s a of None \<Rightarrow> l_fw s | Some n \<Rightarrow> free_pages (fst c) a n (l_fw s))"
    using f by (simp add: allocated_def s')
qed

interpretation efi_heap: page_heap "\<lambda>c. operator_new (fst c)" "\<lambda>c. operator_delete (fst c)" allocated heap_inv
proof unfold_locales
  fix c :: "'a efi \<times> ('a \<Rightarrow> u64 set)" and s and n a :: u64
  assume h: "heap_inv c s"
  {
    assume n: "NUM_PAGES n \<noteq> 0"
    note run = efi_allocate_heap[OF h n prod.collapse[symmetric]]
    show "heap_inv c (snd (operator_new (fst c) n s))"
      "allocated s (fst (operator_new (fst c) n s)) = None"
      "allocated (snd (operator_new (fst c) n s)) =
        (if fst (operator_new (fst c) n s) = 0 then allocated s
         else (allocated s)(fst (operator_new (fst c) n s) \<mapsto> NUM_PAGES n))"
      unfolding operator_new_def by (rule run)+
  }
  assume "a \<noteq> 0"
  then show "heap_inv c (operator_delete (fst c) a s)"
    "allocated (operator_delete (fst c) a s) = (allocated s)(a := None)"
    unfolding operator_delete_def by (simp_all add: efi_deallocate_heap[OF h])
qed

section \<open>Initialisation\<close>

text \<open>The clearing in \<open>efi_allocator_init\<close> counts entries and not bytes: it reaches 256 of 4096.\<close>

lemma entry_offset:
  assumes "i < ALLOCATIONS_MAX" and "k < 16"
  shows "unat (entry_at t i + of_nat k - t) = 16 * i + k"
proof -
  have "entry_at t i + of_nat k - t = of_nat (16 * i + k)"
    by (simp add: entry_at_def sizeof_efi_allocation_entry_def)
  moreover have "16 * i + k < 2 ^ LENGTH(64)" using assms by (simp add: ALLOCATIONS_MAX_def)
  ultimately show ?thesis by (simp only: unat_of_nat_small)
qed

lemma load_zero_bytes: "(\<And>i. i < 8 \<Longrightarrow> m (a + of_nat i) = 0) \<Longrightarrow> load64 m a = 0"
proof -
  assume "\<And>i. i < 8 \<Longrightarrow> m (a + of_nat i) = 0"
  then have "load64 m a = load64 (\<lambda>_. 0) a" by (rule load64_cong)
  then show ?thesis by (simp add: load64_def load_bytes_def upt_rec)
qed

lemma efi_allocator_init_entries:
  assumes "allocate_pages fw allocate_any_pages boot_services_data (NUM_PAGES ALLOCATIONS_SIZE)
      (efi_allocations s) (l_fw s) = (efi_success, t, f)" and "t \<noteq> 0" and "i < ALLOCATIONS_MAX"
  defines "s' \<equiv> efi_allocator_init fw s"
  shows "efi_allocations s' = t" and "l_fw s' = f"
    and "alloc_table (l_mem s') t ! i = (if i < 256 then (0, 0) else alloc_table (l_mem s) t ! i)"
proof -
  have s': "s' = s\<lparr>l_fw := f, efi_allocations := t, l_mem := stosb (l_mem s) t 0 4096\<rparr>"
    using assms(1,2) by (simp add: s'_def efi_allocator_init_def ALLOCATIONS_MAX_def)
  then show "efi_allocations s' = t" and "l_fw s' = f" by simp_all
  have m: "l_mem s' (entry_at t i + of_nat k) = (if i < 256 then 0 else l_mem s (entry_at t i + of_nat k))"
    if "k < 16" for k
    using entry_offset[OF assms(3) that, of t] that by (simp add: s' stosb_apply)
  have e8: "entry_at t i + 8 + of_nat k = entry_at t i + of_nat (8 + k)" for k by (simp add: add.assoc)
  show "alloc_table (l_mem s') t ! i = (if i < 256 then (0, 0) else alloc_table (l_mem s) t ! i)"
  proof (cases "i < 256")
    case True
    have "entry_address (l_mem s') t i = 0" and "entry_pages (l_mem s') t i = 0"
      unfolding entry_address_def entry_pages_def using True m
      by (auto intro!: load_zero_bytes simp del: of_nat_add simp: e8)
    then show ?thesis using True assms(3) by simp
  next
    case False
    have "entry_address (l_mem s') t i = entry_address (l_mem s) t i"
      and "entry_pages (l_mem s') t i = entry_pages (l_mem s) t i"
      unfolding entry_address_def entry_pages_def using False m
      by (auto intro!: load64_cong simp del: of_nat_add simp: e8)
    then show ?thesis using False assms(3) by simp
  qed
qed

section \<open>A firmware that keeps the contract\<close>

text \<open>Pages are taken upwards and never reused.\<close>

definition bump :: "u64 efi \<Rightarrow> u64 efi" where
  "bump fw = fw\<lparr>allocate_pages := (\<lambda>ty mt n a0 f.
        if page_aligned f \<and> f \<noteq> 0 \<and> unat f + unat n * 4096 < 2 ^ 64
        then (efi_success, f, f + n * 4096) else (efi_error, a0, f)),
      free_pages := (\<lambda>a n f. f)\<rparr>"

definition below :: "u64 \<Rightarrow> u64 set" where
  "below f = {b. unat b < unat f}"

lemma unat_block:
  assumes "unat f + unat n * 4096 < 2 ^ 64"
  shows "unat (f + n * 4096 :: u64) = unat f + unat n * 4096"
proof -
  have "f + n * 4096 = f + of_nat (unat n * 4096)" by simp
  then show ?thesis using assms unat_add_small[of f "unat n * 4096"] by (simp only:) simp
qed

lemma span_below:
  assumes "unat f + unat n * 4096 < 2 ^ 64"
  shows "span f n = {b. unat f \<le> unat b \<and> unat b < unat f + unat n * 4096}"
proof -
  have "unat (b - f) < unat n * 4096 \<longleftrightarrow> unat f \<le> unat b \<and> unat b < unat f + unat n * 4096" for b
    using assms unat_lt64[of b] unat_lt64[of f] by (auto simp: unat_sub_if_size word_size)
  then show ?thesis by (simp add: span_def)
qed

lemma bump_service: "page_service (bump fw) below"
  unfolding page_service_def
proof (intro conjI allI impI)
  fix ty n a0 f st a f'
  assume call: "allocate_pages (bump fw) allocate_any_pages ty n a0 f = (st, a, f')"
  show "if st = efi_success
      then a \<noteq> 0 \<and> page_aligned a \<and> unat a + unat n * 4096 \<le> 2 ^ 64
        \<and> span a n \<inter> below f = {} \<and> span a n \<union> below f \<subseteq> below f'
      else a = a0 \<and> below f \<subseteq> below f'"
  proof (cases "page_aligned f \<and> f \<noteq> 0 \<and> unat f + unat n * 4096 < 2 ^ 64")
    case True
    then have "st = efi_success" "a = f" and f': "f' = f + n * 4096" using call by (auto simp: bump_def)
    have "unat f' = unat f + unat n * 4096" unfolding f' using True by (intro unat_block) simp
    moreover have "span f n = {b. unat f \<le> unat b \<and> unat b < unat f + unat n * 4096}"
      using True by (intro span_below) simp
    ultimately have "span f n \<inter> below f = {}" "span f n \<union> below f \<subseteq> below f'"
      by (simp_all only: below_def disjoint_iff subset_iff Un_iff mem_Collect_eq not_less) linarith+
    then show ?thesis using True \<open>st = efi_success\<close> \<open>a = f\<close> by simp
  next
    case False
    then have "st = efi_error" "a = a0" "f' = f"
      using call by (auto simp: bump_def split: if_splits)
    then show ?thesis by (simp add: efi_error_def efi_success_def)
  qed
qed (auto simp: bump_def)

lemma efi_allocator_init_heap:
  assumes "page_service fw owned"
    and "allocate_pages fw allocate_any_pages boot_services_data (NUM_PAGES ALLOCATIONS_SIZE)
      (efi_allocations s) (l_fw s) = (efi_success, t, f)"
    and "\<forall>i < ALLOCATIONS_MAX. 256 \<le> i \<longrightarrow> entry_address (l_mem s) t i = 0"
  shows "heap_inv (fw, owned) (efi_allocator_init fw s)"
proof -
  have t: "t \<noteq> 0" "page_aligned t" "unat t + unat (NUM_PAGES ALLOCATIONS_SIZE) * 4096 \<le> 2 ^ 64"
    "span t (NUM_PAGES ALLOCATIONS_SIZE) \<subseteq> owned f"
    using assms(1,2) unfolding page_service_def by (auto split: if_splits)
  let ?s = "efi_allocator_init fw s"
  note init = efi_allocator_init_entries[OF assms(2) t(1)]
  have "fst (alloc_table (l_mem ?s) t ! i) = 0" if "i < ALLOCATIONS_MAX" for i
    using init(3)[OF that] assms(3) that by simp
  then have "\<forall>e \<in> set (alloc_table (l_mem ?s) t). fst e = 0"
    by (metis in_set_conv_nth length_alloc_table)
  then have "blocks_ok (owned f) t (alloc_table (l_mem ?s) t)"
    by (auto simp: blocks_ok_def block_def simp del: nth_alloc_table)
  moreover have "table_at t"
    using t(2,3) by (simp add: table_at_def page_aligned_aligned8 NUM_PAGES_def PAGE_SIZE_def
        ALLOCATIONS_SIZE_def sizeof_efi_allocation_entry_def ALLOCATIONS_MAX_def)
  ultimately show ?thesis
    using assms(1) t(4) init[of 0] by (simp add: heap_inv_def Let_def ALLOCATIONS_MAX_def)
qed

section \<open>Properties\<close>

text \<open>
  C12. The allocator implements a finite map from live addresses to page counts, for a firmware
  that keeps the documented contract of its page services. A request with a free entry adds
  exactly the pair of a fresh address and the rounded up page count (or, when the firmware
  refuses, nothing, with a null result); with a full table it returns null, changes nothing and
  logs. Releasing a non-null address removes exactly that address, and the firmware gets the block
  back once, with the page count of its request; an unknown address is ignored.
\<close>

theorem allocator_refines_map:
  assumes "heap_inv (fw, owned) s" and "NUM_PAGES n \<noteq> 0" and "b \<noteq> 0"
    and "operator_new fw n s = (a, s')"
  shows "allocated s a = None
    \<and> allocated s' = (if a = 0 then allocated s else (allocated s)(a \<mapsto> NUM_PAGES n))
    \<and> ((\<forall>i < ALLOCATIONS_MAX. entry_address (l_mem s) (efi_allocations s) i \<noteq> 0) \<longrightarrow>
        a = 0 \<and> s' = log (Log (''max allocations reached!'' @ endl @ ''shit will fuck up now'' @ endl)) s)
    \<and> allocated (operator_delete fw b s) = (allocated s)(b := None)
    \<and> l_fw (operator_delete fw b s) =
        (case allocated s b of None \<Rightarrow> l_fw s | Some k \<Rightarrow> free_pages fw b k (l_fw s))"
proof (intro conjI impI)
  have run: "efi_allocate (fst (fw, owned)) n s = (a, s')"
    using assms(4) by (simp add: operator_new_def)
  note step = efi_allocate_heap[OF assms(1,2) run]
  show "allocated s a = None"
    "allocated s' = (if a = 0 then allocated s else (allocated s)(a \<mapsto> NUM_PAGES n))"
    by (rule step)+
  show "a = 0" and "s' = log (Log (''max allocations reached!'' @ endl @ ''shit will fuck up now'' @ endl)) s"
    if "\<forall>i < ALLOCATIONS_MAX. entry_address (l_mem s) (efi_allocations s) i \<noteq> 0"
    using efi_allocate_full[OF that, of fw n] run by simp_all
  show "allocated (operator_delete fw b s) = (allocated s)(b := None)"
    "l_fw (operator_delete fw b s) =
        (case allocated s b of None \<Rightarrow> l_fw s | Some k \<Rightarrow> free_pages fw b k (l_fw s))"
    using efi_deallocate_heap[OF assms(1,3)] unfolding fst_conv by (simp_all add: operator_delete_def)
qed

text \<open>A state whose table, at 0x1000, is all free.\<close>

definition fresh_heap :: "u64 ldr" where
  "fresh_heap = (ldr_start (\<lambda>_. 0) 0x11000 \<lparr>dtr_limit = 0, dtr_base = 0\<rparr> \<lparr>dtr_limit = 0, dtr_base = 0\<rparr> 0)
     \<lparr>efi_allocations := 0x1000\<rparr>"

lemma fresh_heap_sel:
  "l_mem fresh_heap = (\<lambda>_. 0)" "l_fw fresh_heap = 0x11000" "efi_allocations fresh_heap = 0x1000"
  by (simp_all add: fresh_heap_def ldr_start_def Let_def)

lemma fresh_table: "alloc_table (\<lambda>_. 0) t = replicate ALLOCATIONS_MAX (0, 0)"
  by (rule nth_equalityI) (simp_all add: entry_address_def entry_pages_def load_zero_bytes)

lemma fresh_heap_inv: "heap_inv (bump quiet_efi, below) fresh_heap"
proof -
  have n: "unat (NUM_PAGES ALLOCATIONS_SIZE) = 16"
    by (simp add: NUM_PAGES_def PAGE_SIZE_def ALLOCATIONS_SIZE_def
        sizeof_efi_allocation_entry_def ALLOCATIONS_MAX_def)
  then have "span 0x1000 (NUM_PAGES ALLOCATIONS_SIZE) \<subseteq> below 0x11000"
    using span_below[of "0x1000" "NUM_PAGES ALLOCATIONS_SIZE"] by (auto simp: below_def)
  moreover have "blocks_ok (below 0x11000) 0x1000 (replicate ALLOCATIONS_MAX (0, 0))"
    by (simp add: blocks_ok_def)
  moreover have "table_at 0x1000" by (simp add: table_at_def aligned8_def)
  ultimately show ?thesis
    by (simp add: heap_inv_def fresh_heap_sel fresh_table bump_service)
qed

lemma bump_new:
  assumes "table_at (efi_allocations s)" and "i < ALLOCATIONS_MAX"
    and "entry_address (l_mem s) (efi_allocations s) i = 0"
    and "page_aligned (l_fw s)" and "l_fw s \<noteq> 0" and "unat (l_fw s) + unat (NUM_PAGES n) * 4096 < 2 ^ 64"
  shows "\<exists>j. operator_new (bump fw) n s =
    (l_fw s, s\<lparr>l_mem := store_entry (efi_allocations s) j (l_fw s) (NUM_PAGES n) (l_mem s),
               l_fw := l_fw s + NUM_PAGES n * 4096\<rparr>) \<and> j \<le> i"
proof -
  let ?P = "\<lambda>i. entry_address (l_mem s) (efi_allocations s) i = 0"
  obtain j where j: "find ?P [0..<ALLOCATIONS_MAX] = Some j"
    using assms(2,3) find_index_None[of ?P ALLOCATIONS_MAX]
    by (cases "find ?P [0..<ALLOCATIONS_MAX]") auto
  have "j \<le> i" using find_index_Some[OF j] assms(3) not_less by blast
  moreover have "allocate_pages (bump fw) allocate_any_pages boot_services_data (NUM_PAGES n) 0 (l_fw s)
      = (efi_success, l_fw s, l_fw s + NUM_PAGES n * 4096)"
    using assms(4-6) by (simp add: bump_def)
  ultimately show ?thesis
    using efi_allocate_free[OF assms(1) j] by (auto simp: operator_new_def)
qed

lemma one_page: "NUM_PAGES 5 = 1"
  by (simp add: NUM_PAGES_def PAGE_SIZE_def)

lemma fresh_heap_new:
  "operator_new (bump quiet_efi) 5 fresh_heap =
     (0x11000, fresh_heap\<lparr>l_mem := store_entry 0x1000 0 0x11000 1 (\<lambda>_. 0), l_fw := 0x12000\<rparr>)"
proof -
  have "entry_address (l_mem fresh_heap) (efi_allocations fresh_heap) 0 = 0"
    by (simp add: fresh_heap_sel entry_address_def load_zero_bytes)
  then show ?thesis
    using bump_new[of fresh_heap 0 5 quiet_efi]
    by (simp add: fresh_heap_sel table_at_def aligned8_def ALLOCATIONS_MAX_def page_aligned_def one_page)
qed

theorem allocator_refines_map_witness:
  "allocated (snd (operator_new (bump quiet_efi) 5 fresh_heap)) = [0x11000 \<mapsto> 1]
   \<and> allocated (operator_delete (bump quiet_efi) 7 fresh_heap) = Map.empty"
proof -
  have "allocated fresh_heap = Map.empty"
    by (simp add: allocated_def fresh_heap_sel fresh_table live_def)
  then show ?thesis
    using allocator_refines_map[OF fresh_heap_inv, of 5 7, OF _ _ fresh_heap_new]
    by (simp add: one_page fresh_heap_new)
qed

section \<open>Sequences of requests\<close>

datatype heap_op = New u64 | Delete u64

fun exec_op :: "'f efi \<Rightarrow> heap_op \<Rightarrow> 'f ldr \<Rightarrow> 'f ldr" where
  "exec_op fw (New n) s = snd (operator_new fw n s)"
| "exec_op fw (Delete a) s = operator_delete fw a s"

fun op_ok :: "heap_op \<Rightarrow> bool" where
  "op_ok (New n) \<longleftrightarrow> NUM_PAGES n \<noteq> 0"
| "op_ok (Delete a) \<longleftrightarrow> a \<noteq> 0"

lemma exec_ops_inv:
  "heap_inv (fw, owned) s \<Longrightarrow> list_all op_ok ops \<Longrightarrow> heap_inv (fw, owned) (fold (exec_op fw) ops s)"
proof (induction ops arbitrary: s)
  case (Cons op ops)
  have "heap_inv (fw, owned) (exec_op fw op s)"
    using Cons.prems efi_heap.alloc_ok[of "(fw, owned)" s] efi_heap.dealloc_ok[of "(fw, owned)" s]
    by (cases op) auto
  then show ?case using Cons by simp
qed simp

lemma heap_inv_disjoint:
  assumes "heap_inv (fw, owned) s" and "allocated s a = Some n" and "allocated s b = Some k" and "a \<noteq> b"
  shows "span a n \<inter> span b k = {}"
    and "span a n \<subseteq> owned (l_fw s) - span (efi_allocations s) (NUM_PAGES ALLOCATIONS_SIZE)"
proof -
  let ?xs = "alloc_table (l_mem s) (efi_allocations s)"
  have ok: "blocks_ok (owned (l_fw s)) (efi_allocations s) ?xs"
    using assms(1) by (simp add: heap_inv_def Let_def)
  note l = live_iff[OF blocks_distinct[OF ok]]
  obtain i where i: "i < length ?xs" "?xs ! i = (a, n)" and "a \<noteq> 0"
    using l[THEN iffD1, OF assms(2)[unfolded allocated_def]] by blast
  obtain j where j: "j < length ?xs" "?xs ! j = (b, k)" and "b \<noteq> 0"
    using l[THEN iffD1, OF assms(3)[unfolded allocated_def]] by blast
  note ij = i j
  have "block (?xs ! i) \<inter> block (?xs ! j) = {}"
    using ok ij assms(4) unfolding blocks_ok_def by (metis prod.inject)
  then show "span a n \<inter> span b k = {}" using ij \<open>a \<noteq> 0\<close> \<open>b \<noteq> 0\<close> by (simp add: block_def del: nth_alloc_table)
  have "block (?xs ! i) \<subseteq> owned (l_fw s) - span (efi_allocations s) (NUM_PAGES ALLOCATIONS_SIZE)"
    using ok ij unfolding blocks_ok_def by (metis nth_mem)
  then show "span a n \<subseteq> owned (l_fw s) - span (efi_allocations s) (NUM_PAGES ALLOCATIONS_SIZE)"
    using ij \<open>a \<noteq> 0\<close> by (simp add: block_def del: nth_alloc_table)
qed



end
