(* ===== verification/Ia32.thy ===== *)
theory Ia32
  imports Prelude
begin

text \<open>
  The names of \<^verbatim>\<open>external/ia32-doc/out/ia32.hpp\<close>, a git submodule whose text is not part of the
  repository. The program uses three kinds of names of that header: numeric constants (MSR
  numbers, VMCS field encodings, memory types, descriptor types), the bit ranges of the members
  of its register and table unions, and the sizes of its structs. All of them are a parameter
  \<open>d :: ia32\<close> of the definitions that use them; what the header is documented to say (the Intel
  SDM layouts) appears as named hypotheses, and \<open>sdm\<close> is a value of the parameter with those
  documented numbers.
\<close>

section \<open>Names\<close>

datatype fixed_mtrr_name =
    FIX64K_00000 | FIX16K_80000 | FIX16K_A0000 | FIX4K_C0000 | FIX4K_C8000 | FIX4K_D0000
  | FIX4K_D8000 | FIX4K_E0000 | FIX4K_E8000 | FIX4K_F0000 | FIX4K_F8000

datatype msr_name =
    IA32_VMX_BASIC | IA32_FEATURE_CONTROL | IA32_VMX_EPT_VPID_CAP
  | IA32_VMX_CR0_FIXED0 | IA32_VMX_CR0_FIXED1 | IA32_VMX_CR4_FIXED0 | IA32_VMX_CR4_FIXED1
  | IA32_VMX_TRUE_EXIT_CTLS | IA32_VMX_EXIT_CTLS | IA32_VMX_TRUE_ENTRY_CTLS | IA32_VMX_ENTRY_CTLS
  | IA32_VMX_TRUE_PINBASED_CTLS | IA32_VMX_PINBASED_CTLS
  | IA32_VMX_TRUE_PROCBASED_CTLS | IA32_VMX_PROCBASED_CTLS | IA32_VMX_PROCBASED_CTLS2
  | IA32_EFER | IA32_FS_BASE | IA32_GS_BASE
  | IA32_SYSENTER_CS | IA32_SYSENTER_ESP | IA32_SYSENTER_EIP
  | IA32_MTRR_DEF_TYPE | IA32_MTRR_CAPABILITIES | IA32_MTRR_PHYSBASE0 | IA32_MTRR_PHYSMASK0
  | IA32_MTRR_FIXED fixed_mtrr_name

datatype ia32_const =
    MEMORY_TYPE_UNCACHEABLE | MEMORY_TYPE_WRITE_THROUGH | MEMORY_TYPE_WRITE_BACK
  | MEMORY_TYPE_INVALID | EPT_PAGE_WALK_LENGTH_4
  | SEGMENT_DESCRIPTOR_TYPE_TSS_AVAILABLE | SEGMENT_DESCRIPTOR_TYPE_TSS_BUSY
  | SEGMENT_DESCRIPTOR_TYPE_DATA_READ_WRITE_ACCESSED
  | SEGMENT_DESCRIPTOR_TYPE_DATA_READ_WRITE_EXPAND_DOWN_ACCESSED
  | SEGMENT_DESCRIPTOR_TYPE_CODE_EXECUTE_ONLY_ACCESSED
  | SEGMENT_DESCRIPTOR_TYPE_CODE_EXECUTE_READ_ACCESSED
  | SEGMENT_DESCRIPTOR_TYPE_CODE_EXECUTE_ONLY_CONFORMING_ACCESSED
  | SEGMENT_DESCRIPTOR_TYPE_CODE_EXECUTE_READ_CONFORMING_ACCESSED
  | CPUID_VERSION_INFORMATION | VMX_EXIT_REASON_EPT_MISCONFIGURATION
  | CR0_NUMERIC_ERROR_FLAG | CR0_PAGING_ENABLE_FLAG | CR4_VMX_ENABLE_FLAG
  | Invept_single_context | Invept_all_context | Invvpid_single_context | Invvpid_all_context
  | Vmx_active | Vmx_hlt | Vmx_shutdown | Vmx_wait_for_sipi

text \<open>
  A VMCS field by its name: \<open>Guest_seg CS Limit\<close> is \<^verbatim>\<open>VMCS_GUEST_CS_LIMIT\<close>, and so on for the
  selector, base, limit and access rights of the eight segment registers.
\<close>

datatype segreg = ES | CS | SS | DS | FS | GS | LDTR | TR

datatype segattr = Selector | Base | Limit | Access_rights

datatype vmcs_host =
    VMCS_HOST_ES_SELECTOR | VMCS_HOST_CS_SELECTOR | VMCS_HOST_SS_SELECTOR | VMCS_HOST_DS_SELECTOR
  | VMCS_HOST_FS_SELECTOR | VMCS_HOST_GS_SELECTOR | VMCS_HOST_TR_SELECTOR
  | VMCS_HOST_FS_BASE | VMCS_HOST_GS_BASE | VMCS_HOST_TR_BASE
  | VMCS_HOST_EFER | VMCS_HOST_SYSENTER_CS | VMCS_HOST_CR0 | VMCS_HOST_CR3 | VMCS_HOST_CR4
  | VMCS_HOST_GDTR_BASE | VMCS_HOST_IDTR_BASE | VMCS_HOST_SYSENTER_ESP | VMCS_HOST_SYSENTER_EIP
  | VMCS_HOST_RSP | VMCS_HOST_RIP

datatype vmcs_ctrl =
    VMCS_CTRL_VIRTUAL_PROCESSOR_IDENTIFIER | VMCS_CTRL_MSR_BITMAP_ADDRESS
  | VMCS_CTRL_EPT_POINTER | VMCS_CTRL_EXCEPTION_BITMAP
  | VMCS_CTRL_PIN_BASED_VM_EXECUTION_CONTROLS
  | VMCS_CTRL_PROCESSOR_BASED_VM_EXECUTION_CONTROLS
  | VMCS_CTRL_VMEXIT_CONTROLS | VMCS_CTRL_VMENTRY_CONTROLS
  | VMCS_CTRL_SECONDARY_PROCESSOR_BASED_VM_EXECUTION_CONTROLS
  | VMCS_CTRL_CR0_GUEST_HOST_MASK | VMCS_CTRL_CR0_READ_SHADOW
  | VMCS_CTRL_CR4_GUEST_HOST_MASK | VMCS_CTRL_CR4_READ_SHADOW

datatype vmcs_guest =
    VMCS_GUEST_VMCS_LINK_POINTER | VMCS_GUEST_EFER | VMCS_GUEST_GDTR_LIMIT
  | VMCS_GUEST_IDTR_LIMIT | VMCS_GUEST_SYSENTER_CS | VMCS_GUEST_CR0 | VMCS_GUEST_CR3
  | VMCS_GUEST_CR4 | VMCS_GUEST_GDTR_BASE | VMCS_GUEST_IDTR_BASE | VMCS_GUEST_RSP
  | VMCS_GUEST_RIP | VMCS_GUEST_RFLAGS | VMCS_GUEST_SYSENTER_ESP | VMCS_GUEST_SYSENTER_EIP
  | VMCS_GUEST_INTERRUPTIBILITY_STATE | VMCS_GUEST_ACTIVITY_STATE

datatype vmcs_info =
    VMCS_VM_INSTRUCTION_ERROR | VMCS_EXIT_REASON | VMCS_EXIT_QUALIFICATION
  | VMCS_VMEXIT_INSTRUCTION_INFO | VMCS_VMEXIT_INTERRUPTION_ERROR_CODE
  | VMCS_EXIT_GUEST_LINEAR_ADDRESS

datatype vmcs_field =
    Host vmcs_host | Ctrl vmcs_ctrl | Guest vmcs_guest | Guest_seg segreg segattr | Info vmcs_info

text \<open>
  Members of the header's unions, one constructor per member the program uses, grouped by what
  they belong to: \<open>Ept Epde_2mb Large_page\<close> is \<^verbatim>\<open>epde_2mb::large_page\<close>, \<open>Ar Ar_present\<close> is
  \<^verbatim>\<open>vmx_segment_access_rights::present\<close>.
\<close>

datatype ept_struct = Ept_pointer | Ept_pml4 | Epdpte | Epde | Epde_2mb | Epte

datatype ept_member =
    Read_access | Write_access | Execute_access | Memory_type | Large_page | Page_frame_number
  | Page_walk_length

datatype ctl_member =
    Exit_host_address_space_size | Exit_load_ia32_efer | Exit_save_ia32_efer
  | Entry_load_ia32_efer | Entry_ia32e_mode_guest | Entry_load_ia32_perf_global_ctrl
  | Entry_load_ia32_bndcfgs | Entry_load_ia32_rtit_ctl | Entry_load_cet_state
  | Pin_nmi_exiting | Pin_virtual_nmi | Proc_use_msr_bitmaps | Proc_activate_secondary_controls
  | Proc2_enable_ept | Proc2_enable_vpid | Proc2_enable_rdtscp | Proc2_unrestricted_guest
  | Proc2_enable_invpcid | Proc2_enable_xsaves

datatype cap_member =
    Basic_vmcs_revision_id | Basic_memory_type | Basic_vmx_controls
  | True_allowed_0_settings | True_allowed_1_settings
  | Feature_lock_bit | Feature_enable_vmx_outside_smx
  | Cap_page_walk_length_4 | Cap_memory_type_write_back | Cap_invept | Cap_invept_single_context
  | Cap_invept_all_contexts | Cap_invvpid | Cap_invvpid_individual_address
  | Cap_invvpid_single_context | Cap_invvpid_all_contexts
  | Cap_invvpid_single_context_retain_globals

datatype mtrr_member =
    Def_default_memory_type | Def_fixed_range_mtrr_enable
  | Mtrrcap_variable_range_count | Mtrrcap_fixed_range_supported
  | Physbase_type | Physbase_page_frame_number | Physmask_valid | Physmask_page_frame_number

datatype seg_member =
    Sel_request_privilege_level | Sel_table | Sel_index
  | Desc_base_address_low | Desc_base_address_middle | Desc_type | Desc_system
  | Desc_base_address_high | Desc_base_address_upper

datatype ar_member =
    Ar_type | Ar_descriptor_type | Ar_descriptor_privilege_level | Ar_present | Ar_reserved1
  | Ar_long_mode | Ar_default_big | Ar_granularity | Ar_unusable | Ar_reserved2

datatype reg_member =
    Cr0_protection_enable | Cr0_paging_enable | Cr4_physical_address_extension | Cr4_vmx_enable
  | Efer_reserved1 | Efer_ia32e_mode_enable | Efer_reserved2 | Efer_ia32e_mode_active
  | Efer_reserved3 | Rflags_read_as_1 | Rflags_reserved1 | Rflags_reserved2
  | Rflags_interrupt_enable_flag | Rflags_reserved3 | Rflags_reserved4
  | Intr_blocking_by_sti | Intr_blocking_by_mov_ss | Intr_enclave_interruption
  | Reason_basic_exit_reason | Reason_vm_entry_failure
  | Vmxon_revision_id | Vmxon_must_be_zero | Vmcs_revision_id

datatype member_name =
    Ept ept_struct ept_member | Ctl ctl_member | Cap cap_member | Mtrr mtrr_member
  | Seg seg_member | Ar ar_member | Reg reg_member

datatype struct_name =
    Vmxon_struct | Vmcs_struct | Vmx_msr_bitmap_struct | Segment_descriptor_32_struct
  | Segment_descriptor_64_struct

section \<open>The parameter\<close>

text \<open>
  \<open>fld d m\<close> is the bit range of a member; a member of a struct that is not a bit-field is given by
  its bits in the struct read as one little endian word.
\<close>

record ia32 =
  msr_id :: "msr_name \<Rightarrow> u32"
  vmcs_enc :: "vmcs_field \<Rightarrow> u64"
  cst :: "ia32_const \<Rightarrow> u64"
  fld :: "member_name \<Rightarrow> bitfield"
  size_of :: "struct_name \<Rightarrow> u64"

abbreviation get_m :: "ia32 \<Rightarrow> member_name \<Rightarrow> 'a::len word \<Rightarrow> 'a word" where
  "get_m d n x \<equiv> bf_get (fld d n) x"

abbreviation set_m :: "ia32 \<Rightarrow> member_name \<Rightarrow> 'a::len word \<Rightarrow> 'a word \<Rightarrow> 'a word" where
  "set_m d n v x \<equiv> bf_set (fld d n) v x"

section \<open>Documented layouts, as hypotheses\<close>

definition ept_layout :: "ia32 \<Rightarrow> bool" where
  "ept_layout d \<longleftrightarrow>
     fld d (Ept Ept_pointer Memory_type) = (0, 3) \<and>
     fld d (Ept Ept_pointer Page_walk_length) = (3, 3) \<and>
     fld d (Ept Ept_pointer Page_frame_number) = (12, 36) \<and>
     (\<forall>s \<in> {Ept_pml4, Epdpte, Epde, Epte, Epde_2mb}.
        fld d (Ept s Read_access) = (0, 1) \<and> fld d (Ept s Write_access) = (1, 1) \<and>
        fld d (Ept s Execute_access) = (2, 1)) \<and>
     (\<forall>s \<in> {Ept_pml4, Epdpte, Epde, Epte}. fld d (Ept s Page_frame_number) = (12, 36)) \<and>
     fld d (Ept Epte Memory_type) = (3, 3) \<and> fld d (Ept Epde_2mb Memory_type) = (3, 3) \<and>
     fld d (Ept Epde_2mb Large_page) = (7, 1) \<and>
     fld d (Ept Epde_2mb Page_frame_number) = (21, 27)"

definition selector_layout :: "ia32 \<Rightarrow> bool" where
  "selector_layout d \<longleftrightarrow>
     fld d (Seg Sel_request_privilege_level) = (0, 2) \<and> fld d (Seg Sel_table) = (2, 1) \<and>
     fld d (Seg Sel_index) = (3, 13)"

definition descriptor_layout :: "ia32 \<Rightarrow> bool" where
  "descriptor_layout d \<longleftrightarrow>
     fld d (Seg Desc_base_address_low) = (16, 16) \<and>
     fld d (Seg Desc_base_address_middle) = (32, 8) \<and> fld d (Seg Desc_type) = (40, 4) \<and>
     fld d (Seg Desc_base_address_high) = (56, 8) \<and>
     fld d (Seg Desc_base_address_upper) = (64, 32) \<and>
     size_of d Segment_descriptor_32_struct = 8 \<and> size_of d Segment_descriptor_64_struct = 16 \<and>
     cst d SEGMENT_DESCRIPTOR_TYPE_TSS_AVAILABLE = 9 \<and> cst d SEGMENT_DESCRIPTOR_TYPE_TSS_BUSY = 11"

definition access_rights_layout :: "ia32 \<Rightarrow> bool" where
  "access_rights_layout d \<longleftrightarrow>
     fld d (Ar Ar_type) = (0, 4) \<and> fld d (Ar Ar_descriptor_type) = (4, 1) \<and>
     fld d (Ar Ar_descriptor_privilege_level) = (5, 2) \<and> fld d (Ar Ar_present) = (7, 1) \<and>
     fld d (Ar Ar_reserved1) = (8, 4) \<and> fld d (Ar Ar_long_mode) = (13, 1) \<and>
     fld d (Ar Ar_default_big) = (14, 1) \<and> fld d (Ar Ar_granularity) = (15, 1) \<and>
     fld d (Ar Ar_unusable) = (16, 1) \<and> fld d (Ar Ar_reserved2) = (17, 15)"

definition memory_types :: "ia32 \<Rightarrow> bool" where
  "memory_types d \<longleftrightarrow>
     cst d MEMORY_TYPE_UNCACHEABLE = 0 \<and> cst d MEMORY_TYPE_WRITE_THROUGH = 4 \<and>
     cst d MEMORY_TYPE_WRITE_BACK = 6 \<and> cst d MEMORY_TYPE_INVALID = 0xFF"

definition vmcs_encodings :: "ia32 \<Rightarrow> bool" where
  "vmcs_encodings d \<longleftrightarrow> inj (vmcs_enc d)"

lemmas layout_defs = ept_layout_def selector_layout_def descriptor_layout_def
  access_rights_layout_def memory_types_def vmcs_encodings_def

section \<open>A value of the parameter: the numbers of the Intel SDM\<close>

fun sdm_msr :: "msr_name \<Rightarrow> u32" where
  "sdm_msr IA32_VMX_BASIC = 0x480" | "sdm_msr IA32_FEATURE_CONTROL = 0x3A"
| "sdm_msr IA32_VMX_EPT_VPID_CAP = 0x48C" | "sdm_msr IA32_VMX_CR0_FIXED0 = 0x486"
| "sdm_msr IA32_VMX_CR0_FIXED1 = 0x487" | "sdm_msr IA32_VMX_CR4_FIXED0 = 0x488"
| "sdm_msr IA32_VMX_CR4_FIXED1 = 0x489" | "sdm_msr IA32_VMX_TRUE_EXIT_CTLS = 0x48F"
| "sdm_msr IA32_VMX_EXIT_CTLS = 0x483" | "sdm_msr IA32_VMX_TRUE_ENTRY_CTLS = 0x490"
| "sdm_msr IA32_VMX_ENTRY_CTLS = 0x484" | "sdm_msr IA32_VMX_TRUE_PINBASED_CTLS = 0x48D"
| "sdm_msr IA32_VMX_PINBASED_CTLS = 0x481" | "sdm_msr IA32_VMX_TRUE_PROCBASED_CTLS = 0x48E"
| "sdm_msr IA32_VMX_PROCBASED_CTLS = 0x482" | "sdm_msr IA32_VMX_PROCBASED_CTLS2 = 0x48B"
| "sdm_msr IA32_EFER = 0xC0000080" | "sdm_msr IA32_FS_BASE = 0xC0000100"
| "sdm_msr IA32_GS_BASE = 0xC0000101" | "sdm_msr IA32_SYSENTER_CS = 0x174"
| "sdm_msr IA32_SYSENTER_ESP = 0x175" | "sdm_msr IA32_SYSENTER_EIP = 0x176"
| "sdm_msr IA32_MTRR_DEF_TYPE = 0x2FF" | "sdm_msr IA32_MTRR_CAPABILITIES = 0xFE"
| "sdm_msr IA32_MTRR_PHYSBASE0 = 0x200" | "sdm_msr IA32_MTRR_PHYSMASK0 = 0x201"
| "sdm_msr (IA32_MTRR_FIXED r) =
     (case r of FIX64K_00000 \<Rightarrow> 0x250 | FIX16K_80000 \<Rightarrow> 0x258 | FIX16K_A0000 \<Rightarrow> 0x259
      | FIX4K_C0000 \<Rightarrow> 0x268 | FIX4K_C8000 \<Rightarrow> 0x269 | FIX4K_D0000 \<Rightarrow> 0x26A | FIX4K_D8000 \<Rightarrow> 0x26B
      | FIX4K_E0000 \<Rightarrow> 0x26C | FIX4K_E8000 \<Rightarrow> 0x26D | FIX4K_F0000 \<Rightarrow> 0x26E | FIX4K_F8000 \<Rightarrow> 0x26F)"

fun sdm_const :: "ia32_const \<Rightarrow> u64" where
  "sdm_const MEMORY_TYPE_UNCACHEABLE = 0" | "sdm_const MEMORY_TYPE_WRITE_THROUGH = 4"
| "sdm_const MEMORY_TYPE_WRITE_BACK = 6" | "sdm_const MEMORY_TYPE_INVALID = 0xFF"
| "sdm_const EPT_PAGE_WALK_LENGTH_4 = 3"
| "sdm_const SEGMENT_DESCRIPTOR_TYPE_TSS_AVAILABLE = 9"
| "sdm_const SEGMENT_DESCRIPTOR_TYPE_TSS_BUSY = 0xB"
| "sdm_const SEGMENT_DESCRIPTOR_TYPE_DATA_READ_WRITE_ACCESSED = 3"
| "sdm_const SEGMENT_DESCRIPTOR_TYPE_DATA_READ_WRITE_EXPAND_DOWN_ACCESSED = 7"
| "sdm_const SEGMENT_DESCRIPTOR_TYPE_CODE_EXECUTE_ONLY_ACCESSED = 9"
| "sdm_const SEGMENT_DESCRIPTOR_TYPE_CODE_EXECUTE_READ_ACCESSED = 0xB"
| "sdm_const SEGMENT_DESCRIPTOR_TYPE_CODE_EXECUTE_ONLY_CONFORMING_ACCESSED = 0xD"
| "sdm_const SEGMENT_DESCRIPTOR_TYPE_CODE_EXECUTE_READ_CONFORMING_ACCESSED = 0xF"
| "sdm_const CPUID_VERSION_INFORMATION = 1"
| "sdm_const VMX_EXIT_REASON_EPT_MISCONFIGURATION = 0x31"
| "sdm_const CR0_NUMERIC_ERROR_FLAG = 0x20" | "sdm_const CR0_PAGING_ENABLE_FLAG = 0x80000000"
| "sdm_const CR4_VMX_ENABLE_FLAG = 0x2000"
| "sdm_const Invept_single_context = 1" | "sdm_const Invept_all_context = 2"
| "sdm_const Invvpid_single_context = 1" | "sdm_const Invvpid_all_context = 2"
| "sdm_const Vmx_active = 0" | "sdm_const Vmx_hlt = 1" | "sdm_const Vmx_shutdown = 2"
| "sdm_const Vmx_wait_for_sipi = 3"

fun sdm_segreg :: "segreg \<Rightarrow> u64" where
  "sdm_segreg ES = 0" | "sdm_segreg CS = 2" | "sdm_segreg SS = 4" | "sdm_segreg DS = 6"
| "sdm_segreg FS = 8" | "sdm_segreg GS = 0xA" | "sdm_segreg LDTR = 0xC" | "sdm_segreg TR = 0xE"

fun sdm_host :: "vmcs_host \<Rightarrow> u64" where
  "sdm_host VMCS_HOST_ES_SELECTOR = 0xC00" | "sdm_host VMCS_HOST_CS_SELECTOR = 0xC02"
| "sdm_host VMCS_HOST_SS_SELECTOR = 0xC04" | "sdm_host VMCS_HOST_DS_SELECTOR = 0xC06"
| "sdm_host VMCS_HOST_FS_SELECTOR = 0xC08" | "sdm_host VMCS_HOST_GS_SELECTOR = 0xC0A"
| "sdm_host VMCS_HOST_TR_SELECTOR = 0xC0C" | "sdm_host VMCS_HOST_EFER = 0x2C02"
| "sdm_host VMCS_HOST_SYSENTER_CS = 0x4C00" | "sdm_host VMCS_HOST_CR0 = 0x6C00"
| "sdm_host VMCS_HOST_CR3 = 0x6C02" | "sdm_host VMCS_HOST_CR4 = 0x6C04"
| "sdm_host VMCS_HOST_FS_BASE = 0x6C06" | "sdm_host VMCS_HOST_GS_BASE = 0x6C08"
| "sdm_host VMCS_HOST_TR_BASE = 0x6C0A" | "sdm_host VMCS_HOST_GDTR_BASE = 0x6C0C"
| "sdm_host VMCS_HOST_IDTR_BASE = 0x6C0E" | "sdm_host VMCS_HOST_SYSENTER_ESP = 0x6C10"
| "sdm_host VMCS_HOST_SYSENTER_EIP = 0x6C12" | "sdm_host VMCS_HOST_RSP = 0x6C14"
| "sdm_host VMCS_HOST_RIP = 0x6C16"

fun sdm_ctrl :: "vmcs_ctrl \<Rightarrow> u64" where
  "sdm_ctrl VMCS_CTRL_VIRTUAL_PROCESSOR_IDENTIFIER = 0"
| "sdm_ctrl VMCS_CTRL_MSR_BITMAP_ADDRESS = 0x2004" | "sdm_ctrl VMCS_CTRL_EPT_POINTER = 0x201A"
| "sdm_ctrl VMCS_CTRL_EXCEPTION_BITMAP = 0x4004"
| "sdm_ctrl VMCS_CTRL_PIN_BASED_VM_EXECUTION_CONTROLS = 0x4000"
| "sdm_ctrl VMCS_CTRL_PROCESSOR_BASED_VM_EXECUTION_CONTROLS = 0x4002"
| "sdm_ctrl VMCS_CTRL_VMEXIT_CONTROLS = 0x400C" | "sdm_ctrl VMCS_CTRL_VMENTRY_CONTROLS = 0x4012"
| "sdm_ctrl VMCS_CTRL_SECONDARY_PROCESSOR_BASED_VM_EXECUTION_CONTROLS = 0x401E"
| "sdm_ctrl VMCS_CTRL_CR0_GUEST_HOST_MASK = 0x6000" | "sdm_ctrl VMCS_CTRL_CR4_GUEST_HOST_MASK = 0x6002"
| "sdm_ctrl VMCS_CTRL_CR0_READ_SHADOW = 0x6004" | "sdm_ctrl VMCS_CTRL_CR4_READ_SHADOW = 0x6006"

fun sdm_guest :: "vmcs_guest \<Rightarrow> u64" where
  "sdm_guest VMCS_GUEST_VMCS_LINK_POINTER = 0x2800" | "sdm_guest VMCS_GUEST_EFER = 0x2806"
| "sdm_guest VMCS_GUEST_GDTR_LIMIT = 0x4810" | "sdm_guest VMCS_GUEST_IDTR_LIMIT = 0x4812"
| "sdm_guest VMCS_GUEST_SYSENTER_CS = 0x482A" | "sdm_guest VMCS_GUEST_CR0 = 0x6800"
| "sdm_guest VMCS_GUEST_CR3 = 0x6802" | "sdm_guest VMCS_GUEST_CR4 = 0x6804"
| "sdm_guest VMCS_GUEST_GDTR_BASE = 0x6816" | "sdm_guest VMCS_GUEST_IDTR_BASE = 0x6818"
| "sdm_guest VMCS_GUEST_RSP = 0x681C" | "sdm_guest VMCS_GUEST_RIP = 0x681E"
| "sdm_guest VMCS_GUEST_RFLAGS = 0x6820" | "sdm_guest VMCS_GUEST_SYSENTER_ESP = 0x6824"
| "sdm_guest VMCS_GUEST_SYSENTER_EIP = 0x6826"
| "sdm_guest VMCS_GUEST_INTERRUPTIBILITY_STATE = 0x4824"
| "sdm_guest VMCS_GUEST_ACTIVITY_STATE = 0x4826"

fun sdm_info :: "vmcs_info \<Rightarrow> u64" where
  "sdm_info VMCS_VM_INSTRUCTION_ERROR = 0x4400" | "sdm_info VMCS_EXIT_REASON = 0x4402"
| "sdm_info VMCS_EXIT_QUALIFICATION = 0x6400" | "sdm_info VMCS_VMEXIT_INSTRUCTION_INFO = 0x440E"
| "sdm_info VMCS_VMEXIT_INTERRUPTION_ERROR_CODE = 0x4406"
| "sdm_info VMCS_EXIT_GUEST_LINEAR_ADDRESS = 0x640A"

fun sdm_vmcs :: "vmcs_field \<Rightarrow> u64" where
  "sdm_vmcs (Host h) = sdm_host h" | "sdm_vmcs (Ctrl c) = sdm_ctrl c"
| "sdm_vmcs (Guest g) = sdm_guest g" | "sdm_vmcs (Info i) = sdm_info i"
| "sdm_vmcs (Guest_seg s Selector) = 0x800 + sdm_segreg s"
| "sdm_vmcs (Guest_seg s Limit) = 0x4800 + sdm_segreg s"
| "sdm_vmcs (Guest_seg s Access_rights) = 0x4814 + sdm_segreg s"
| "sdm_vmcs (Guest_seg s Base) = 0x6806 + sdm_segreg s"

fun sdm_ept :: "ept_struct \<Rightarrow> ept_member \<Rightarrow> bitfield" where
  "sdm_ept Ept_pointer Memory_type = (0, 3)"
| "sdm_ept Ept_pointer Page_walk_length = (3, 3)"
| "sdm_ept Epde_2mb Page_frame_number = (21, 27)"
| "sdm_ept s Page_frame_number = (12, 36)"
| "sdm_ept s Read_access = (0, 1)"
| "sdm_ept s Write_access = (1, 1)"
| "sdm_ept s Execute_access = (2, 1)"
| "sdm_ept s Memory_type = (3, 3)"
| "sdm_ept s Large_page = (7, 1)"
| "sdm_ept s Page_walk_length = (0, 0)"

fun sdm_ctl :: "ctl_member \<Rightarrow> bitfield" where
  "sdm_ctl Exit_host_address_space_size = (9, 1)" | "sdm_ctl Exit_save_ia32_efer = (20, 1)"
| "sdm_ctl Exit_load_ia32_efer = (21, 1)" | "sdm_ctl Entry_ia32e_mode_guest = (9, 1)"
| "sdm_ctl Entry_load_ia32_perf_global_ctrl = (13, 1)" | "sdm_ctl Entry_load_ia32_efer = (15, 1)"
| "sdm_ctl Entry_load_ia32_bndcfgs = (16, 1)" | "sdm_ctl Entry_load_ia32_rtit_ctl = (18, 1)"
| "sdm_ctl Entry_load_cet_state = (20, 1)" | "sdm_ctl Pin_nmi_exiting = (3, 1)"
| "sdm_ctl Pin_virtual_nmi = (5, 1)" | "sdm_ctl Proc_use_msr_bitmaps = (28, 1)"
| "sdm_ctl Proc_activate_secondary_controls = (31, 1)" | "sdm_ctl Proc2_enable_ept = (1, 1)"
| "sdm_ctl Proc2_enable_rdtscp = (3, 1)" | "sdm_ctl Proc2_enable_vpid = (5, 1)"
| "sdm_ctl Proc2_unrestricted_guest = (7, 1)" | "sdm_ctl Proc2_enable_invpcid = (12, 1)"
| "sdm_ctl Proc2_enable_xsaves = (20, 1)"

fun sdm_cap :: "cap_member \<Rightarrow> bitfield" where
  "sdm_cap Basic_vmcs_revision_id = (0, 31)" | "sdm_cap Basic_memory_type = (50, 4)"
| "sdm_cap Basic_vmx_controls = (55, 1)" | "sdm_cap True_allowed_0_settings = (0, 32)"
| "sdm_cap True_allowed_1_settings = (32, 32)" | "sdm_cap Feature_lock_bit = (0, 1)"
| "sdm_cap Feature_enable_vmx_outside_smx = (2, 1)" | "sdm_cap Cap_page_walk_length_4 = (6, 1)"
| "sdm_cap Cap_memory_type_write_back = (14, 1)" | "sdm_cap Cap_invept = (20, 1)"
| "sdm_cap Cap_invept_single_context = (25, 1)" | "sdm_cap Cap_invept_all_contexts = (26, 1)"
| "sdm_cap Cap_invvpid = (32, 1)" | "sdm_cap Cap_invvpid_individual_address = (40, 1)"
| "sdm_cap Cap_invvpid_single_context = (41, 1)" | "sdm_cap Cap_invvpid_all_contexts = (42, 1)"
| "sdm_cap Cap_invvpid_single_context_retain_globals = (43, 1)"

fun sdm_mtrr :: "mtrr_member \<Rightarrow> bitfield" where
  "sdm_mtrr Def_default_memory_type = (0, 3)" | "sdm_mtrr Def_fixed_range_mtrr_enable = (10, 1)"
| "sdm_mtrr Mtrrcap_variable_range_count = (0, 8)"
| "sdm_mtrr Mtrrcap_fixed_range_supported = (8, 1)" | "sdm_mtrr Physbase_type = (0, 8)"
| "sdm_mtrr Physbase_page_frame_number = (12, 36)" | "sdm_mtrr Physmask_valid = (11, 1)"
| "sdm_mtrr Physmask_page_frame_number = (12, 36)"

fun sdm_seg :: "seg_member \<Rightarrow> bitfield" where
  "sdm_seg Sel_request_privilege_level = (0, 2)" | "sdm_seg Sel_table = (2, 1)"
| "sdm_seg Sel_index = (3, 13)" | "sdm_seg Desc_base_address_low = (16, 16)"
| "sdm_seg Desc_base_address_middle = (32, 8)" | "sdm_seg Desc_type = (40, 4)"
| "sdm_seg Desc_system = (52, 1)" | "sdm_seg Desc_base_address_high = (56, 8)"
| "sdm_seg Desc_base_address_upper = (64, 32)"

fun sdm_ar :: "ar_member \<Rightarrow> bitfield" where
  "sdm_ar Ar_type = (0, 4)" | "sdm_ar Ar_descriptor_type = (4, 1)"
| "sdm_ar Ar_descriptor_privilege_level = (5, 2)" | "sdm_ar Ar_present = (7, 1)"
| "sdm_ar Ar_reserved1 = (8, 4)" | "sdm_ar Ar_long_mode = (13, 1)"
| "sdm_ar Ar_default_big = (14, 1)" | "sdm_ar Ar_granularity = (15, 1)"
| "sdm_ar Ar_unusable = (16, 1)" | "sdm_ar Ar_reserved2 = (17, 15)"

fun sdm_reg :: "reg_member \<Rightarrow> bitfield" where
  "sdm_reg Cr0_protection_enable = (0, 1)" | "sdm_reg Cr0_paging_enable = (31, 1)"
| "sdm_reg Cr4_physical_address_extension = (5, 1)" | "sdm_reg Cr4_vmx_enable = (13, 1)"
| "sdm_reg Efer_reserved1 = (1, 7)" | "sdm_reg Efer_ia32e_mode_enable = (8, 1)"
| "sdm_reg Efer_reserved2 = (9, 1)" | "sdm_reg Efer_ia32e_mode_active = (10, 1)"
| "sdm_reg Efer_reserved3 = (12, 52)" | "sdm_reg Rflags_read_as_1 = (1, 1)"
| "sdm_reg Rflags_reserved1 = (3, 1)" | "sdm_reg Rflags_reserved2 = (5, 1)"
| "sdm_reg Rflags_interrupt_enable_flag = (9, 1)" | "sdm_reg Rflags_reserved3 = (15, 1)"
| "sdm_reg Rflags_reserved4 = (22, 42)" | "sdm_reg Intr_blocking_by_sti = (0, 1)"
| "sdm_reg Intr_blocking_by_mov_ss = (1, 1)" | "sdm_reg Intr_enclave_interruption = (4, 1)"
| "sdm_reg Reason_basic_exit_reason = (0, 16)" | "sdm_reg Reason_vm_entry_failure = (31, 1)"
| "sdm_reg Vmxon_revision_id = (0, 31)" | "sdm_reg Vmxon_must_be_zero = (31, 1)"
| "sdm_reg Vmcs_revision_id = (0, 31)"

fun sdm_fld :: "member_name \<Rightarrow> bitfield" where
  "sdm_fld (Ept s m) = sdm_ept s m" | "sdm_fld (Ctl m) = sdm_ctl m" | "sdm_fld (Cap m) = sdm_cap m"
| "sdm_fld (Mtrr m) = sdm_mtrr m" | "sdm_fld (Seg m) = sdm_seg m" | "sdm_fld (Ar m) = sdm_ar m"
| "sdm_fld (Reg m) = sdm_reg m"

fun sdm_size :: "struct_name \<Rightarrow> u64" where
  "sdm_size Vmxon_struct = 4096" | "sdm_size Vmcs_struct = 4096"
| "sdm_size Vmx_msr_bitmap_struct = 4096" | "sdm_size Segment_descriptor_32_struct = 8"
| "sdm_size Segment_descriptor_64_struct = 16"

definition sdm :: ia32 where
  "sdm = \<lparr>msr_id = sdm_msr, vmcs_enc = sdm_vmcs, cst = sdm_const, fld = sdm_fld, size_of = sdm_size\<rparr>"

lemma sdm_simps [simp]:
  "msr_id sdm = sdm_msr" "vmcs_enc sdm = sdm_vmcs" "cst sdm = sdm_const" "fld sdm = sdm_fld"
  "size_of sdm = sdm_size"
  by (simp_all add: sdm_def)

lemma sdm_layouts [simp]:
  "ept_layout sdm" "selector_layout sdm" "descriptor_layout sdm" "access_rights_layout sdm"
  "memory_types sdm"
  by (simp_all add: layout_defs)

lemma sdm_class_host: "drop_bit 10 (take_bit 12 (sdm_host h)) = 3"
  by (cases h) simp_all

lemma sdm_class_ctrl: "drop_bit 10 (take_bit 12 (sdm_ctrl c)) = 0"
  by (cases c) simp_all

lemma sdm_class_guest: "drop_bit 10 (take_bit 12 (sdm_guest g)) = 2"
  by (cases g) simp_all

lemma sdm_class_info: "drop_bit 10 (take_bit 12 (sdm_info i)) = 1"
  by (cases i) simp_all

lemma sdm_class_seg: "drop_bit 10 (take_bit 12 (sdm_vmcs (Guest_seg s a))) = 2"
  by (cases s; cases a) simp_all

lemma sdm_host_inj: "sdm_host a = sdm_host b \<Longrightarrow> a = b"
  by (cases a; cases b) simp_all

lemma sdm_ctrl_inj: "sdm_ctrl a = sdm_ctrl b \<Longrightarrow> a = b"
  by (cases a; cases b) simp_all

lemma sdm_guest_inj: "sdm_guest a = sdm_guest b \<Longrightarrow> a = b"
  by (cases a; cases b) simp_all

lemma sdm_info_inj: "sdm_info a = sdm_info b \<Longrightarrow> a = b"
  by (cases a; cases b) simp_all

lemma sdm_guest_not_seg: "sdm_guest g \<noteq> sdm_vmcs (Guest_seg s a)"
  by (cases g; cases s; cases a) simp_all

lemma sdm_seg_inj: "sdm_vmcs (Guest_seg s a) = sdm_vmcs (Guest_seg s' a') \<Longrightarrow> s = s' \<and> a = a'"
  by (cases s; cases a; cases s'; cases a') simp_all

fun vmcs_class :: "vmcs_field \<Rightarrow> u64" where
  "vmcs_class (Ctrl c) = 0" | "vmcs_class (Info i) = 1" | "vmcs_class (Guest g) = 2"
| "vmcs_class (Guest_seg s a) = 2" | "vmcs_class (Host h) = 3"

lemma sdm_class: "drop_bit 10 (take_bit 12 (sdm_vmcs f)) = vmcs_class f"
  by (cases f)
    (simp_all add: sdm_class_host sdm_class_ctrl sdm_class_guest sdm_class_info sdm_class_seg
      del: sdm_vmcs.simps(5-8) take_bit_word_numeral drop_bit_take_bit)

lemma sdm_vmcs_inj: "sdm_vmcs f = sdm_vmcs g \<Longrightarrow> f = g"
proof -
  assume eq: "sdm_vmcs f = sdm_vmcs g"
  then have "vmcs_class f = vmcs_class g" by (simp only: sdm_class[symmetric])
  then show ?thesis
    using eq sdm_guest_not_seg sdm_guest_not_seg[symmetric]
    by (cases f; cases g)
      (auto simp del: sdm_vmcs.simps(5-8)
        dest: sdm_host_inj sdm_ctrl_inj sdm_guest_inj sdm_info_inj sdm_seg_inj)
qed

lemma sdm_vmcs_encodings [simp]: "vmcs_encodings sdm"
  using sdm_vmcs_inj by (simp add: vmcs_encodings_def inj_def)

end
