(* ===== verification/X86utils.thy ===== *)
theory X86utils
  imports Ia32 Memory
begin

text \<open>
  \<^verbatim>\<open>freestanding/x86utils.{h,cc}\<close> and the result convention of the VMX wrappers of
  \<^verbatim>\<open>x86utils.S\<close>: page table indices of an address, segment descriptors, selectors and access
  rights. The locale \<open>page_index\<close> is what the EPT code relies on: splitting and joining an address
  are inverse to each other on 9 bit indices.
\<close>

section \<open>Page table indices\<close>

text \<open>The members of the union \<^verbatim>\<open>pt_helper\<close>, whose layout is written in x86utils.cc itself.\<close>

definition pt_helper_unused :: bitfield where "pt_helper_unused = (0, 12)"
definition pt_helper_pt :: bitfield where "pt_helper_pt = (12, 9)"
definition pt_helper_pd :: bitfield where "pt_helper_pd = (21, 9)"
definition pt_helper_pdpt :: bitfield where "pt_helper_pdpt = (30, 9)"
definition pt_helper_pml4 :: bitfield where "pt_helper_pml4 = (39, 9)"

lemmas pt_helper_defs = pt_helper_unused_def pt_helper_pt_def pt_helper_pd_def pt_helper_pdpt_def
  pt_helper_pml4_def

definition address_to_pt :: "u64 \<Rightarrow> u32 \<times> u32 \<times> u32 \<times> u32" where
  "address_to_pt address =
     (ucast (bf_get pt_helper_pml4 address), ucast (bf_get pt_helper_pdpt address),
      ucast (bf_get pt_helper_pd address), ucast (bf_get pt_helper_pt address))"

definition pt_to_address :: "u32 \<Rightarrow> u32 \<Rightarrow> u32 \<Rightarrow> u32 \<Rightarrow> u64" where
  "pt_to_address pml4 pdpt pd pt =
     (let helper = 0;
          helper = bf_set pt_helper_pml4 (ucast pml4) helper;
          helper = bf_set pt_helper_pdpt (ucast pdpt) helper;
          helper = bf_set pt_helper_pd (ucast pd) helper;
          helper = bf_set pt_helper_pt (ucast pt) helper
      in helper)"

lemma pt_helper_disjoint [simp]:
  "bf_fits 64 pt_helper_pml4" "bf_fits 64 pt_helper_pdpt" "bf_fits 64 pt_helper_pd"
  "bf_fits 64 pt_helper_pt"
  "bf_disjoint pt_helper_pdpt pt_helper_pml4" "bf_disjoint pt_helper_pd pt_helper_pml4"
  "bf_disjoint pt_helper_pt pt_helper_pml4" "bf_disjoint pt_helper_pd pt_helper_pdpt"
  "bf_disjoint pt_helper_pt pt_helper_pdpt" "bf_disjoint pt_helper_pt pt_helper_pd"
  by (simp_all add: bf_fits_def bf_disjoint_def pt_helper_defs)

lemma ucast_take_bit_ucast: "ucast (take_bit 9 (ucast p :: u64)) = take_bit 9 p" for p :: u32
  by (rule bit_word_eqI) (auto simp: bit_simps)

lemma pt_to_address_to_pt:
  "address_to_pt (pt_to_address p4 p3 p2 p1) =
     (take_bit 9 p4, take_bit 9 p3, take_bit 9 p2, take_bit 9 p1)"
proof -
  have "snd pt_helper_pml4 = 9" "snd pt_helper_pdpt = 9" "snd pt_helper_pd = 9" "snd pt_helper_pt = 9"
    by (simp_all add: pt_helper_defs)
  then show ?thesis
    by (simp add: address_to_pt_def pt_to_address_def Let_def bf_simps ucast_take_bit_ucast)
qed

lemma pt_to_address_sum:
  "pt_to_address p4 p3 p2 p1 =
     push_bit 39 (ucast (take_bit 9 p4)) OR push_bit 30 (ucast (take_bit 9 p3)) OR
     push_bit 21 (ucast (take_bit 9 p2)) OR push_bit 12 (ucast (take_bit 9 p1))"
proof -
  have set_or: "bf_set (lo, 9) (ucast p) x = x OR push_bit lo (ucast (take_bit 9 p))"
    if "bf_get (lo, 9) x = 0" for lo p and x :: u64
  proof (rule bit_word_eqI)
    fix i
    assume "i < LENGTH(64)"
    have "\<not> bit x i" if "lo \<le> i" "i < lo + 9"
      using bit_bf_get[of "(lo, 9)" x "i - lo"] \<open>bf_get (lo, 9) x = 0\<close> that by simp
    then show "bit (bf_set (lo, 9) (ucast p) x) i \<longleftrightarrow> bit (x OR push_bit lo (ucast (take_bit 9 p))) i"
      using \<open>i < LENGTH(64)\<close> by (auto simp: bit_bf_set bit_simps)
  qed
  have get_set: "bf_get g (bf_set f v x) = 0" if "bf_disjoint f g" "bf_get g x = 0"
    for f g v and x :: u64
    using that by (simp add: bf_get_set_other)
  let ?a = "bf_set (39, 9) (ucast p4) (0 :: u64)"
  let ?b = "bf_set (30, 9) (ucast p3) ?a"
  let ?c = "bf_set (21, 9) (ucast p2) ?b"
  have "pt_to_address p4 p3 p2 p1 = bf_set (12, 9) (ucast p1) ?c"
    by (simp add: pt_to_address_def pt_helper_defs Let_def)
  moreover have "bf_get (12, 9) ?c = 0" "bf_get (21, 9) ?b = 0" "bf_get (30, 9) ?a = 0"
    by (simp_all add: get_set bf_disjoint_def)
  ultimately show ?thesis by (simp add: set_or or.assoc)
qed

lemma address_to_pt_to_address:
  assumes "address_to_pt a = (p4, p3, p2, p1)"
  shows "pt_to_address p4 p3 p2 p1 = a AND 0xFFFFFFFFF000"
proof (rule bit_word_eqI)
  fix i
  assume i: "i < LENGTH(64)"
  have "(0xFFFFFFFFF000 :: u64) = push_bit 12 (mask 36)"
    by (simp add: mask_numeral push_bit_eq_mult)
  then have m: "bit (0xFFFFFFFFF000 :: u64) i \<longleftrightarrow> 12 \<le> i \<and> i < 48"
    by (simp only: bit_simps) (use i in auto)
  have p: "bit p4 j \<longleftrightarrow> j < 9 \<and> bit a (39 + j)" "bit p3 j \<longleftrightarrow> j < 9 \<and> bit a (30 + j)"
    "bit p2 j \<longleftrightarrow> j < 9 \<and> bit a (21 + j)" "bit p1 j \<longleftrightarrow> j < 9 \<and> bit a (12 + j)" for j
    using assms by (auto simp: address_to_pt_def bit_bf_get pt_helper_defs bit_simps)
  show "bit (pt_to_address p4 p3 p2 p1) i \<longleftrightarrow> bit (a AND 0xFFFFFFFFF000) i"
  proof -
    consider "i < 12" | "12 \<le> i" "i < 21" | "21 \<le> i" "i < 30" | "30 \<le> i" "i < 39"
      | "39 \<le> i" "i < 48" | "48 \<le> i" by linarith
    then show ?thesis
      unfolding pt_to_address_sum bit_and_iff m by cases (use i in \<open>auto simp: bit_simps p\<close>)
  qed
qed

lemma ucast_bf9_less: "(ucast (bf_get (lo, 9) a) :: u32) < 512" for a :: u64
proof -
  have "unat (bf_get (lo, 9) a) < 512"
    using unat_take_bit_less[of 9 "drop_bit lo a"] by (simp add: bf_get_def)
  then show ?thesis
    by (simp add: word_less_nat_alt unsigned_ucast_eq take_bit_nat_eq_self)
qed

locale page_index =
  fixes split :: "u64 \<Rightarrow> u32 \<times> u32 \<times> u32 \<times> u32"
    and join :: "u32 \<Rightarrow> u32 \<Rightarrow> u32 \<Rightarrow> u32 \<Rightarrow> u64"
  assumes split_join:
      "p4 < 512 \<Longrightarrow> p3 < 512 \<Longrightarrow> p2 < 512 \<Longrightarrow> p1 < 512 \<Longrightarrow>
       split (join p4 p3 p2 p1) = (p4, p3, p2, p1)"
    and join_split: "split a = (p4, p3, p2, p1) \<Longrightarrow> join p4 p3 p2 p1 = a AND 0xFFFFFFFFF000"
    and split_bound: "split a = (p4, p3, p2, p1) \<Longrightarrow> p4 < 512 \<and> p3 < 512 \<and> p2 < 512 \<and> p1 < 512"
begin

lemma join_inj:
  assumes "p4 < 512" "p3 < 512" "p2 < 512" "p1 < 512" "q4 < 512" "q3 < 512" "q2 < 512" "q1 < 512"
    and eq: "join p4 p3 p2 p1 = join q4 q3 q2 q1"
  shows "p4 = q4 \<and> p3 = q3 \<and> p2 = q2 \<and> p1 = q1"
proof -
  have "(p4, p3, p2, p1) = split (join p4 p3 p2 p1)"
    using split_join[OF assms(1-4)] by (rule sym)
  also have "\<dots> = split (join q4 q3 q2 q1)" by (simp only: eq)
  also have "\<dots> = (q4, q3, q2, q1)" by (rule split_join[OF assms(5-8)])
  finally show ?thesis by (simp only: prod.inject)
qed

lemma join_covers:
  assumes "a AND 0xFFFFFFFFF000 = a"
  shows "\<exists>p4 p3 p2 p1. a = join p4 p3 p2 p1 \<and> p4 < 512 \<and> p3 < 512 \<and> p2 < 512 \<and> p1 < 512"
proof -
  obtain p4 p3 p2 p1 where "split a = (p4, p3, p2, p1)" by (metis prod.exhaust)
  then show ?thesis using assms join_split split_bound by metis
qed

end

lemma take_bit_9_small: "p < 512 \<Longrightarrow> take_bit 9 p = p" for p :: u32
  by (rule take_bit_self_unat) (simp add: word_less_nat_alt)

interpretation pt_index: page_index address_to_pt pt_to_address
proof
  show "address_to_pt (pt_to_address p4 p3 p2 p1) = (p4, p3, p2, p1)"
    if "p4 < 512" "p3 < 512" "p2 < 512" "p1 < 512" for p4 p3 p2 p1
    using that by (simp add: pt_to_address_to_pt take_bit_9_small)
  show "pt_to_address p4 p3 p2 p1 = a AND 0xFFFFFFFFF000"
    if "address_to_pt a = (p4, p3, p2, p1)" for a p4 p3 p2 p1
    using that by (rule address_to_pt_to_address)
  show "p4 < 512 \<and> p3 < 512 \<and> p2 < 512 \<and> p1 < 512"
    if "address_to_pt a = (p4, p3, p2, p1)" for a p4 p3 p2 p1
    using that by (auto simp: address_to_pt_def ucast_bf9_less pt_helper_defs)
qed

section \<open>Processor instructions\<close>

text \<open>
  Instructions whose result the program reads and that are not C++: what \<^verbatim>\<open>lsl\<close> and \<^verbatim>\<open>lar\<close> load
  for a selector (\<open>None\<close> when they clear ZF), what \<^verbatim>\<open>cpuid\<close> returns, and the stale register value
  that \<^verbatim>\<open>lsl\<close> and \<^verbatim>\<open>bsf\<close> leave in \<^verbatim>\<open>rax\<close> when they have no result. They are parameters.
\<close>

record x86 =
  i_lsl :: "u16 \<Rightarrow> u64 option"
  i_lar :: "u16 \<Rightarrow> u64 option"
  i_cpuid :: "u32 \<Rightarrow> u32 \<Rightarrow> u32 \<times> u32 \<times> u32 \<times> u32"
  i_stale :: u64

definition call_lsl :: "x86 \<Rightarrow> u16 \<Rightarrow> u64" where
  "call_lsl x selector = (case i_lsl x selector of Some v \<Rightarrow> v | None \<Rightarrow> i_stale x)"

definition call_lar :: "x86 \<Rightarrow> u16 \<Rightarrow> u64" where
  "call_lar x selector = (case i_lar x selector of Some v \<Rightarrow> v | None \<Rightarrow> 0)"

definition call_bsf :: "x86 \<Rightarrow> u64 \<Rightarrow> u64" where
  "call_bsf x v = (if v = 0 then i_stale x else of_nat (hd (filter (bit v) [0..<64])))"

text \<open>ZF and CF after a VMX instruction, folded into the status the wrappers return.\<close>

definition vmx_error_tail :: "bool \<Rightarrow> bool \<Rightarrow> u64" where
  "vmx_error_tail zf cf = (if zf then 1 else if cf then 2 else 0)"

section \<open>Segments\<close>

definition load128 :: "mem \<Rightarrow> u64 \<Rightarrow> 128 word" where
  "load128 m a = of_le (load_bytes m a 16)"

definition get_segment_descriptor :: "ia32 \<Rightarrow> u64 \<Rightarrow> u16 \<Rightarrow> u64" where
  "get_segment_descriptor d descriptor_table_base selector =
     descriptor_table_base
       + size_of d Segment_descriptor_32_struct * ucast (get_m d (Seg Sel_index) selector)"

text \<open>
  The 8 bit members are promoted to \<^verbatim>\<open>int\<close> before the shift, so a set top bit makes \<open>base_hi\<close>
  negative and its conversion to 64 bits sign extends; the mask removes the extension.
\<close>

definition get_descriptor_base :: "ia32 \<Rightarrow> mem \<Rightarrow> u64 \<Rightarrow> u64" where
  "get_descriptor_base d m segment_descriptor =
     (let desc = load128 m segment_descriptor;
          high = (ucast (get_m d (Seg Desc_base_address_high) desc) :: u32);
          middle = (ucast (get_m d (Seg Desc_base_address_middle) desc) :: u32);
          base_hi = (scast (push_bit 24 high) :: u64);
          base_mid = (scast (push_bit 16 middle) :: u64);
          base_low = (ucast (get_m d (Seg Desc_base_address_low) desc) :: u64);
          base = (base_hi OR base_mid OR base_low) AND 0xFFFFFFFF;
          type = (ucast (get_m d (Seg Desc_type) desc) :: u64)
      in if get_m d (Seg Desc_system) desc = 0 \<and>
            (type = cst d SEGMENT_DESCRIPTOR_TYPE_TSS_AVAILABLE \<or>
             type = cst d SEGMENT_DESCRIPTOR_TYPE_TSS_BUSY)
         then base OR push_bit 32 (ucast (get_m d (Seg Desc_base_address_upper) desc))
         else base)"

definition get_segment_base :: "ia32 \<Rightarrow> mem \<Rightarrow> u64 \<Rightarrow> u16 \<Rightarrow> u64" where
  "get_segment_base d m descriptor_table_base selector =
     (if get_m d (Seg Sel_table) selector = 0 \<and>
         get_m d (Seg Sel_index) selector = 0 then 0
      else if get_m d (Seg Sel_table) selector \<noteq> 0 then 0
      else get_descriptor_base d m (get_segment_descriptor d descriptor_table_base selector))"

definition get_segment_limit :: "x86 \<Rightarrow> u16 \<Rightarrow> u16" where
  "get_segment_limit x selector = ucast (call_lsl x selector)"

definition get_segment_access_rights_vmx :: "ia32 \<Rightarrow> x86 \<Rightarrow> u16 \<Rightarrow> u32" where
  "get_segment_access_rights_vmx d x selector =
     (if get_m d (Seg Sel_table) selector = 0 \<and>
         get_m d (Seg Sel_index) selector = 0
      then set_m d (Ar Ar_unusable) 1 0
      else
        let rights = (ucast (call_lar x selector) :: u32);
            output = drop_bit 8 rights;
            output = set_m d (Ar Ar_reserved1) 0 output;
            output = set_m d (Ar Ar_reserved2) 0 output;
            output = set_m d (Ar Ar_unusable) 0 output
        in output)"

definition get_current_elf_base :: u64 where
  "get_current_elf_base = 0"

section \<open>Lemmas\<close>

text \<open>The sign extension of the high byte disappears under the mask.\<close>

lemma bit_u32_mask: "bit (0xFFFFFFFF :: u64) i \<longleftrightarrow> i < 32"
proof -
  have "(0xFFFFFFFF :: u64) = mask 32" by (simp add: mask_numeral)
  then show ?thesis by (simp only: bit_mask_iff) auto
qed

lemma scast_mask_low: "scast w AND 0xFFFFFFFF = (ucast w :: u64)" for w :: u32
proof (rule bit_word_eqI)
  fix i
  assume i: "i < LENGTH(64)"
  have "min 31 i = i" if "i < 32" using that by simp
  moreover have "i < 32" if "bit w i" using bit_imp_le_length[OF that] by simp
  ultimately show "bit (scast w AND 0xFFFFFFFF :: u64) i \<longleftrightarrow> bit (ucast w :: u64) i"
    unfolding bit_and_iff bit_u32_mask bit_unsigned_iff bit_signed_iff
    using i by auto
qed

definition is_tss_descriptor :: "ia32 \<Rightarrow> 128 word \<Rightarrow> bool" where
  "is_tss_descriptor d desc \<longleftrightarrow>
     get_m d (Seg Desc_system) desc = 0 \<and> bf_get (40, 4) desc \<in> {9, 11}"

lemma tss_type_iff:
  "(ucast (bf_get (40, 4) desc :: 128 word) :: u64) = 9 \<or>
   (ucast (bf_get (40, 4) desc) :: u64) = 11 \<longleftrightarrow> bf_get (40, 4) desc \<in> {9, 11}"
proof -
  have "unat (bf_get (40, 4) desc) < 16"
    using unat_take_bit_less[of 4 "drop_bit 40 desc"] by (simp add: bf_get_def)
  then have "unat (ucast (bf_get (40, 4) desc) :: u64) = unat (bf_get (40, 4) desc)"
    by (simp add: unsigned_ucast_eq take_bit_nat_eq_self)
  then show ?thesis by (simp add: word_unat_eq_iff)
qed

lemma bf_low_bits:
  "unat (bf_get (lo, n) desc) < 2 ^ n" for desc :: "'a::len word"
  using unat_take_bit_less[of n "drop_bit lo desc"] by (simp add: bf_get_def)

text \<open>The base as the concatenation of its parts.\<close>

lemma get_descriptor_base_parts:
  assumes "descriptor_layout d"
  shows "get_descriptor_base d m p =
    (let desc = load128 m p;
         low = ucast (bf_get (16, 16) desc) OR push_bit 16 (ucast (bf_get (32, 8) desc))
           OR push_bit 24 (ucast (bf_get (56, 8) desc))
     in if is_tss_descriptor d desc then low OR push_bit 32 (ucast (bf_get (64, 32) desc)) else low)"
proof -
  let ?d = "load128 m p"
  let ?hi = "ucast (bf_get (56, 8) ?d) :: u32" and ?mid = "ucast (bf_get (32, 8) ?d) :: u32"
  have hi: "scast (push_bit 24 ?hi) AND 0xFFFFFFFF = (push_bit 24 (ucast (bf_get (56, 8) ?d)) :: u64)"
    unfolding scast_mask_low
    by (rule bit_word_eqI) (auto simp: bit_simps bit_bf_get)
  have mid: "scast (push_bit 16 ?mid) AND 0xFFFFFFFF = (push_bit 16 (ucast (bf_get (32, 8) ?d)) :: u64)"
    unfolding scast_mask_low
    by (rule bit_word_eqI) (auto simp: bit_simps bit_bf_get)
  have lo: "ucast (bf_get (16, 16) ?d) AND 0xFFFFFFFF = (ucast (bf_get (16, 16) ?d) :: u64)"
    by (rule bit_word_eqI, simp only: bit_and_iff bit_u32_mask bit_unsigned_iff bit_bf_get) auto
  have "(scast (push_bit 24 ?hi) OR scast (push_bit 16 ?mid) OR ucast (bf_get (16, 16) ?d)) AND 0xFFFFFFFF
    = (ucast (bf_get (16, 16) ?d) OR push_bit 16 (ucast (bf_get (32, 8) ?d))
        OR push_bit 24 (ucast (bf_get (56, 8) ?d)) :: u64)"
    by (simp only: bit.conj_disj_distrib2 hi mid lo) (simp only: ac_simps)
  moreover have "fld d (Seg Desc_base_address_high) = (56, 8)"
    "fld d (Seg Desc_base_address_middle) = (32, 8)"
    "fld d (Seg Desc_base_address_low) = (16, 16)"
    "fld d (Seg Desc_type) = (40, 4)"
    "fld d (Seg Desc_base_address_upper) = (64, 32)"
    "cst d SEGMENT_DESCRIPTOR_TYPE_TSS_AVAILABLE = 9" "cst d SEGMENT_DESCRIPTOR_TYPE_TSS_BUSY = 11"
    using assms by (simp_all only: descriptor_layout_def)
  ultimately show ?thesis
    by (simp only: get_descriptor_base_def Let_def is_tss_descriptor_def tss_type_iff)
qed

lemma sel_members:
  fixes sel :: u16
  shows "bf_get (3, 13) sel = drop_bit 3 sel" and "bf_get (2, 1) sel = 0 \<longleftrightarrow> \<not> bit sel 2"
proof -
  have "n < 13" if "bit sel (3 + n)" for n
    using bit_imp_le_length[OF that] by simp
  then show "bf_get (3, 13) sel = drop_bit 3 sel"
    by (intro bit_word_eqI) (auto simp: bit_bf_get bit_drop_bit_eq)
  show "bf_get (2, 1) sel = 0 \<longleftrightarrow> \<not> bit sel 2"
    using bf_flag_bit[of "(2, 1)" sel] unfolding bf_flag_def fst_conv snd_conv by blast
qed

lemma sel_null_iff:
  "selector_layout d \<Longrightarrow>
     get_m d (Seg Sel_table) sel = 0 \<and> get_m d (Seg Sel_index) sel = 0 \<longleftrightarrow>
       drop_bit 3 sel = 0 \<and> \<not> bit sel 2" for sel :: u16
  unfolding selector_layout_def using sel_members[of sel] by auto

lemma get_segment_base_gdt:
  assumes "selector_layout d" and "descriptor_layout d"
    and "\<not> bit sel 2" and "drop_bit 3 sel \<noteq> 0"
  shows "get_segment_base d m base sel =
    get_descriptor_base d m (base + 8 * ucast (drop_bit 3 sel))"
proof -
  have "get_m d (Seg Sel_table) sel = 0" and "get_m d (Seg Sel_index) sel = drop_bit 3 sel"
    using assms(1,3) sel_members[of sel] by (simp_all add: selector_layout_def)
  then show ?thesis
    using assms(2,4) by (simp add: get_segment_base_def get_segment_descriptor_def descriptor_layout_def)
qed

section \<open>Properties\<close>

text \<open>
  Splitting an address into page table indices and joining indices into an address are
  inverse: joining keeps the low nine bits of every index, and joining the indices of an address
  gives back its bits 12 to 47.
\<close>

theorem page_index_roundtrip:
  "address_to_pt (pt_to_address p4 p3 p2 p1) =
     (take_bit 9 p4, take_bit 9 p3, take_bit 9 p2, take_bit 9 p1)
   \<and> (case address_to_pt a of (q4, q3, q2, q1) \<Rightarrow> pt_to_address q4 q3 q2 q1 = a AND 0xFFFFFFFFF000)"
  by (auto simp: pt_to_address_to_pt address_to_pt_to_address split: prod.splits)

text \<open>
  The segment base of a selector, with the documented descriptor layout: 0 for a null selector
  and for every LDT selector; for a GDT selector the 32 bit base assembled from its three parts,
  with no trace of the sign extension of the shifted high byte, and with the upper 32 bits added
  exactly for the descriptors that the code takes for a TSS.
\<close>

theorem segment_base_value:
  assumes "selector_layout d" and "descriptor_layout d"
  shows "(drop_bit 3 sel = 0 \<or> bit sel 2 \<longrightarrow> get_segment_base d m base sel = 0)
    \<and> (drop_bit 3 sel \<noteq> 0 \<and> \<not> bit sel 2 \<longrightarrow>
        get_segment_base d m base sel =
          (let desc = load128 m (base + 8 * ucast (drop_bit 3 sel));
               low = ucast (bf_get (16, 16) desc) OR push_bit 16 (ucast (bf_get (32, 8) desc))
                 OR push_bit 24 (ucast (bf_get (56, 8) desc))
           in if is_tss_descriptor d desc
              then low OR push_bit 32 (ucast (bf_get (64, 32) desc)) else low))"
proof (intro conjI impI)
  have "get_m d (Seg Sel_table) sel = 0 \<longleftrightarrow> \<not> bit sel 2"
    and "get_m d (Seg Sel_index) sel = drop_bit 3 sel"
    using assms(1) sel_members[of sel] by (simp_all only: selector_layout_def)
  then show "get_segment_base d m base sel = 0" if "drop_bit 3 sel = 0 \<or> bit sel 2"
    using that by (auto simp: get_segment_base_def)
qed (simp add: get_segment_base_gdt get_descriptor_base_parts assms)

theorem segment_base_value_witness:
  "get_segment_base sdm (\<lambda>_. 0xFF) 0x1000 0x10 = 0xFFFFFFFF \<and> get_segment_base sdm (\<lambda>_. 0xFF) 0x1000 3 = 0"
proof -
  have "load128 (\<lambda>_. 0xFF) (0x1000 + 8 * ucast (drop_bit 3 (0x10 :: u16))) = - 1"
    by (simp add: load128_def load_bytes_def upt_rec)
  then show ?thesis
    using segment_base_value[of sdm "0x10" "\<lambda>_. 0xFF" "0x1000"]
      segment_base_value[of sdm 3 "\<lambda>_. 0xFF" "0x1000"]
    by (simp add: is_tss_descriptor_def bf_get_def mask_numeral Let_def)
qed

text \<open>
  The access rights written to the VMCS, with the documented layout: a null selector gives an
  unusable segment; any other selector gives a usable one whose type, S, DPL, P and AVL/L/DB/G
  bits are bits 8 to 15 and 20 to 23 of what LAR loads and whose reserved bits are clear.
\<close>

theorem access_rights_value:
  assumes "selector_layout d" and "access_rights_layout d"
  shows "get_segment_access_rights_vmx d x sel =
    (if drop_bit 3 sel = 0 \<and> \<not> bit sel 2 then 0x10000
     else drop_bit 8 (ucast (call_lar x sel)) AND 0xF0FF)"
proof -
  let ?r = "drop_bit 8 (ucast (call_lar x sel)) :: u32"
  have l: "fld d (Ar Ar_unusable) = (16, 1)" "fld d (Ar Ar_reserved1) = (8, 4)"
    "fld d (Ar Ar_reserved2) = (17, 15)"
    using assms(2) by (simp_all only: access_rights_layout_def)
  have "bf_set (16, 1) 1 0 = (0x10000 :: u32)"
    by (simp add: bf_set_def)
  moreover have "bf_set (16, 1) 0 (bf_set (17, 15) 0 (bf_set (8, 4) 0 ?r)) = ?r AND 0xF0FF"
  proof -
    have "(- 4294905601 :: u32) = 0xF0FF" by simp
    then have "?r AND - 4294905601 = ?r AND 0xF0FF" by (simp only:)
    then show ?thesis unfolding bf_set_def by (simp add: ac_simps mask_numeral)
  qed
  ultimately show ?thesis
    unfolding get_segment_access_rights_vmx_def sel_null_iff[OF assms(1)] l Let_def by simp
qed

theorem access_rights_value_witness:
  "get_segment_access_rights_vmx sdm
     \<lparr>i_lsl = (\<lambda>_. None), i_lar = (\<lambda>_. Some 0xAF9B00), i_cpuid = (\<lambda>_ _. (0, 0, 0, 0)), i_stale = 0\<rparr> 0x38
   = 0xA09B"
  using access_rights_value[of sdm _ "0x38"] by (simp add: call_lar_def)

end
