(* ===== verification/Tables.thy ===== *)
theory Tables
  imports Allocator X86utils
begin

text \<open>
  The descriptor tables the loader installs: \<^verbatim>\<open>loader/efi/idt.cc\<close>, \<^verbatim>\<open>idt.S\<close> and \<^verbatim>\<open>gdt.cc\<close>. Both copy
  the firmware's table into memory from \<open>new\<close>; the IDT gets seven of its gates redirected, the GDT
  a descriptor for a task state segment. The addresses the linker gives to the stubs and to
  \<open>new_tss\<close> are parameters.
\<close>

section \<open>idt.cc\<close>

datatype idt_handler =
    efi_idt_invalid_opcode | efi_idt_double_fault | efi_idt_invalid_tss
  | efi_idt_segment_not_present | efi_idt_stack_segment_fault
  | efi_idt_general_protection_fault | efi_idt_pagefault

definition sizeof_idt_entry :: u64 where "sizeof_idt_entry = 16"

definition hooks :: "(nat \<times> idt_handler) list" where
  "hooks =
     [(0x6, efi_idt_invalid_opcode), (0x8, efi_idt_double_fault), (0xA, efi_idt_invalid_tss),
      (0xB, efi_idt_segment_not_present), (0xC, efi_idt_stack_segment_fault),
      (0xD, efi_idt_general_protection_fault), (0xE, efi_idt_pagefault)]"

text \<open>The three stores to \<open>isr_low\<close>, \<open>isr_mid\<close> and \<open>isr_high\<close> of the entry at \<open>e\<close>.\<close>

definition set_isr :: "u64 \<Rightarrow> u64 \<Rightarrow> mem \<Rightarrow> mem" where
  "set_isr e ptr m =
     store32 (store16 (store16 m e (ucast ptr)) (e + 6) (ucast (drop_bit 16 ptr)))
       (e + 8) (ucast (drop_bit 32 ptr))"

definition idt_hook :: "(idt_handler \<Rightarrow> u64) \<Rightarrow> nat \<times> idt_handler \<Rightarrow> 'f ldr \<Rightarrow> 'f ldr" where
  "idt_hook stub hook s =
     (let e = custom_idt s + sizeof_idt_entry * of_nat (fst hook);
          s = s\<lparr>l_mem := set_isr e (stub (snd hook)) (l_mem s)\<rparr>
      in if hook = hd hooks then log (Log_hex ''kernel cs: '' (ucast (load16 (l_mem s) (e + 2)))) s else s)"

definition efi_idt_init :: "'f efi \<Rightarrow> (idt_handler \<Rightarrow> u64) \<Rightarrow> 'f ldr \<Rightarrow> 'f ldr" where
  "efi_idt_init fw stub s =
     (let s = log (Log (''initializing idt hooks'' @ endl)) s;
          s = s\<lparr>efi_idtr := reg_idtr s, custom_idtr := reg_idtr s\<rparr>;
          entries = ucast (dtr_limit (efi_idtr s)) div sizeof_idt_entry;
          s = log (Log_hex ''idt size: '' entries) s;
          (p, s) = operator_new fw (entries * sizeof_idt_entry) s;
          s = s\<lparr>custom_idt := p\<rparr>;
          s = s\<lparr>l_mem := snd (memcpy (l_mem s) p (dtr_base (efi_idtr s)) (ucast (dtr_limit (efi_idtr s))))\<rparr>;
          s = log (Log (''hooking interesting entries'' @ endl)) s;
          s = fold (idt_hook stub) hooks s;
          s = log (Log (''overwriting idtr'' @ endl)) s;
          s = s\<lparr>custom_idtr := (custom_idtr s)\<lparr>dtr_base := custom_idt s\<rparr>\<rparr>
      in s\<lparr>reg_idtr := custom_idtr s\<rparr>)"

text \<open>\<^verbatim>\<open>delete[]\<close> of a null pointer does not call the operator.\<close>

definition efi_idt_exit :: "'f efi \<Rightarrow> 'f ldr \<Rightarrow> 'f ldr" where
  "efi_idt_exit fw s =
     (let s = s\<lparr>reg_idtr := efi_idtr s\<rparr>
      in if custom_idt s = 0 then s else operator_delete fw (custom_idt s) s)"

text \<open>The members of \<open>idt_ctx\<close> (idt.h) behind the fifteen general registers.\<close>

definition ctx_error_code :: "mem \<Rightarrow> u64 \<Rightarrow> u64" where "ctx_error_code m c = load64 m (c + 120)"
definition ctx_rip :: "mem \<Rightarrow> u64 \<Rightarrow> u64" where "ctx_rip m c = load64 m (c + 128)"

definition oh_no :: "string \<Rightarrow> string" where
  "oh_no what = endl @ endl @ endl @ ''oh no, '' @ what @ '' :(((((((((((((((((((((((((((('' @ endl"

text \<open>
  The seven handlers: what they log, and the context they return; the one for the general
  protection fault never returns.
\<close>

fun run_handler :: "idt_handler \<Rightarrow> u64 \<Rightarrow> u64 \<Rightarrow> 'f ldr \<Rightarrow> (u64 \<times> 'f ldr) option" where
  "run_handler efi_idt_pagefault cr2 c s =
     Some (c, log (Log_hex ''naughty address: '' cr2) (log (Log (oh_no ''page fault'')) s))"
| "run_handler efi_idt_invalid_opcode cr2 c s =
     Some (c, log (Log_hex ''naughty rip: '' (ctx_rip (l_mem s) c)) (log (Log (oh_no ''invalid instruction'')) s))"
| "run_handler efi_idt_general_protection_fault cr2 c s = None"
| "run_handler efi_idt_stack_segment_fault cr2 c s =
     Some (c, log (Log_hex ''naughty rip: '' (ctx_rip (l_mem s) c)) (log (Log (oh_no ''stack segment fault'')) s))"
| "run_handler efi_idt_invalid_tss cr2 c s =
     Some (c, log (Log_hex ''naughty rip: '' (ctx_rip (l_mem s) c)) (log (Log (oh_no ''invalid tss'')) s))"
| "run_handler efi_idt_segment_not_present cr2 c s =
     Some (c, log (Log_hex ''naughty rip: '' (ctx_rip (l_mem s) c)) (log (Log (oh_no ''segment not present'')) s))"
| "run_handler efi_idt_double_fault cr2 c s =
     Some (c, log (Log_hex ''naughty rip: '' (ctx_rip (l_mem s) c)) (log (Log (oh_no ''double fault'')) s))"

section \<open>idt.S\<close>

definition stub_has_error_code :: "idt_handler \<Rightarrow> bool" where
  "stub_has_error_code h \<longleftrightarrow> h \<noteq> efi_idt_invalid_opcode"

definition stack_push :: "u64 \<Rightarrow> mem \<times> u64 \<Rightarrow> mem \<times> u64" where
  "stack_push v ms = (case ms of (m, rsp) \<Rightarrow> (store64 m (rsp - 8) v, rsp - 8))"

definition stack_pop :: "mem \<times> u64 \<Rightarrow> u64 \<times> mem \<times> u64" where
  "stack_pop ms = (case ms of (m, rsp) \<Rightarrow> (load64 m rsp, m, rsp + 8))"

primrec stack_pops :: "nat \<Rightarrow> mem \<times> u64 \<Rightarrow> u64 list \<times> mem \<times> u64" where
  "stack_pops 0 ms = ([], ms)"
| "stack_pops (Suc n) ms =
     (let (v, ms) = stack_pop ms; (vs, ms) = stack_pops n ms in (v # vs, ms))"

text \<open>
  The state the processor continues in: the general registers in the order they are popped and
  what \<^verbatim>\<open>iretq\<close> takes from the stack.
\<close>

record resumed =
  res_gp :: "u64 list"
  res_rip :: u64
  res_cs :: u64
  res_rflags :: u64
  res_rsp :: u64
  res_ss :: u64

definition iretq :: "u64 list \<Rightarrow> mem \<times> u64 \<Rightarrow> resumed" where
  "iretq gp ms =
     (case stack_pops 5 ms of (vs, _) \<Rightarrow>
        \<lparr>res_gp = gp, res_rip = vs ! 0, res_cs = vs ! 1, res_rflags = vs ! 2, res_rsp = vs ! 3,
         res_ss = vs ! 4\<rparr>)"

text \<open>\<open>gp_regs\<close> are the fifteen registers in the order of \<^verbatim>\<open>push_gp_regs\<close>.\<close>

definition idt_stub ::
  "idt_handler \<Rightarrow> u64 list \<Rightarrow> u64 \<Rightarrow> u64 \<Rightarrow> 'f ldr \<Rightarrow> (resumed \<times> 'f ldr) option" where
  "idt_stub h gp_regs cr2 rsp s =
     (let ms = (if stub_has_error_code h then (l_mem s, rsp) else stack_push 0 (l_mem s, rsp));
          (m, rsp) = fold stack_push gp_regs ms
      in case run_handler h cr2 rsp (s\<lparr>l_mem := m\<rparr>) of
           None \<Rightarrow> None
         | Some (rax, s) \<Rightarrow>
             let (gp, ms) = stack_pops 15 (l_mem s, rax) in Some (iretq gp ms, s))"

section \<open>gdt.cc\<close>

definition sizeof_tss_entry :: u64 where "sizeof_tss_entry = 4 + 8 + 8 + 8 + 8 + 7 * 8 + 8 + 2 + 2"

definition log_gdt :: "ia32 \<Rightarrow> 'f ldr \<Rightarrow> 'f ldr" where
  "log_gdt d s =
     for_range 0 (unat (ucast (dtr_limit (efi_gdtr s)) div size_of d Segment_descriptor_64_struct))
       (\<lambda>i s. log (Log_hex ''type: '' (ucast (get_m d (Seg Desc_type)
            (load128 (l_mem s) (new_gdt s + size_of d Segment_descriptor_64_struct * of_nat i)))))
          (log (Log (''found gdt entry'' @ endl)) s)) s"

text \<open>The members of \<open>tss_gdt_entry\<close>, in the order of the assignments.\<close>

definition set_tss_descriptor :: "u64 \<Rightarrow> u64 \<Rightarrow> mem \<Rightarrow> mem" where
  "set_tss_descriptor e tss_ptr m =
     (let m = store16 m e (ucast (sizeof_tss_entry - 1));
          m = store16 m (e + 2) (ucast tss_ptr);
          m = store_bytes m (e + 4) [ucast (drop_bit 16 tss_ptr)];
          m = store_bytes m (e + 7) [ucast (drop_bit 24 tss_ptr)];
          m = store32 m (e + 8) (ucast (drop_bit 32 tss_ptr));
          m = store_bytes m (e + 5) [0x89]
      in store32 m (e + 12) 0)"

text \<open>\<^verbatim>\<open>ltr\<close> also sets the busy bit in the type of the descriptor.\<close>

definition write_tr :: "u16 \<Rightarrow> 'f ldr \<Rightarrow> 'f ldr" where
  "write_tr sel s =
     (let e = dtr_base (reg_gdtr s) + 8 * ucast (drop_bit 3 sel)
      in s\<lparr>l_mem := store_bytes (l_mem s) (e + 5) [l_mem s (e + 5) OR 2], reg_tr := sel\<rparr>)"

definition efi_gdt_init :: "'f efi \<Rightarrow> ia32 \<Rightarrow> u64 \<Rightarrow> 'f ldr \<Rightarrow> 'f ldr" where
  "efi_gdt_init fw d new_tss s =
     (let s = log (Log (''patching efi gdt'' @ endl)) s;
          s = s\<lparr>efi_gdtr := reg_gdtr s\<rparr>;
          new_gdtr = reg_gdtr s;
          size64 = size_of d Segment_descriptor_64_struct;
          entries = ucast (dtr_limit new_gdtr) + 1 div size64;
          s = log (Log_hex ''gdt size: '' entries) s;
          (p, s) = operator_new fw ((entries + 1) * size64) s;
          s = s\<lparr>new_gdt := p\<rparr>;
          s = s\<lparr>l_mem := snd (memcpy (l_mem s) p (dtr_base new_gdtr) (ucast (dtr_limit new_gdtr)))\<rparr>;
          tr = set_m d (Seg Sel_index)
                 (ucast ((ucast (dtr_limit new_gdtr) + 1) div size_of d Segment_descriptor_32_struct)) (0 :: u16);
          index = (ucast (get_m d (Seg Sel_index) tr) :: u64);
          s = log (Log_hex ''tr index: '' index) s;
          new_gdtr = new_gdtr\<lparr>dtr_base := p, dtr_limit := dtr_limit new_gdtr + ucast size64\<rparr>;
          e = p + size_of d Segment_descriptor_32_struct * index;
          s = log (Log_hex ''tss ptr: '' new_tss) s;
          s = s\<lparr>l_mem := set_tss_descriptor e new_tss (snd (memset (l_mem s) e 0 size64))\<rparr>;
          s = s\<lparr>l_mem := snd (memset (l_mem s) new_tss 0 sizeof_tss_entry)\<rparr>;
          s = s\<lparr>reg_gdtr := new_gdtr\<rparr>
      in write_tr tr s)"

text \<open>\<^verbatim>\<open>clear_tr\<close> is a \<^verbatim>\<open>clts\<close>: it clears the task switched flag and leaves the task register alone.\<close>

definition clear_tr :: "'f ldr \<Rightarrow> 'f ldr" where
  "clear_tr s = s\<lparr>task_switched := False\<rparr>"

definition efi_gdt_exit :: "'f ldr \<Rightarrow> 'f ldr" where
  "efi_gdt_exit s =
     (let s = log (Log (''resetting gdt'' @ endl)) s; s = clear_tr s in s\<lparr>reg_gdtr := efi_gdtr s\<rparr>)"

section \<open>The gates as bytes\<close>

text \<open>
  The handler address of a gate, as the processor assembles it, and the eight of its sixteen bytes
  that hold it: byte \<open>j\<close> of the gate is byte \<open>isr_index j\<close> of the address.
\<close>

definition gate_isr :: "mem \<Rightarrow> u64 \<Rightarrow> u64" where
  "gate_isr m e = ucast (load16 m e) OR push_bit 16 (ucast (load16 m (e + 6)))
     OR push_bit 32 (ucast (load32 m (e + 8)))"

definition isr_byte :: "nat \<Rightarrow> bool" where
  "isr_byte j \<longleftrightarrow> j < 2 \<or> 6 \<le> j \<and> j < 12"

definition isr_index :: "nat \<Rightarrow> nat" where
  "isr_index j = (if j < 2 then j else j - 4)"

definition patch_isr :: "nat \<Rightarrow> u64 \<Rightarrow> u8 list \<Rightarrow> u8 list" where
  "patch_isr k ptr t =
     patch (k + 8) (to_le 4 (ucast (drop_bit 32 ptr) :: u32))
       (patch (k + 6) (to_le 2 (ucast (drop_bit 16 ptr) :: u16))
         (patch k (to_le 2 (ucast ptr :: u16)) t))"

lemma length_patch_isr [simp]: "k + 12 \<le> length t \<Longrightarrow> length (patch_isr k ptr t) = length t"
  by (simp add: patch_isr_def)

lemma ucast_drop_bit_16: "j < 2 \<Longrightarrow> ucast (drop_bit (8 * j) (ucast w :: u16)) = (ucast (drop_bit (8 * j) w) :: u8)"
  for w :: u64
  by (rule bit_word_eqI) (auto simp: bit_simps)

lemma ucast_drop_bit_32: "j < 4 \<Longrightarrow> ucast (drop_bit (8 * j) (ucast w :: u32)) = (ucast (drop_bit (8 * j) w) :: u8)"
  for w :: u64
  by (rule bit_word_eqI) (auto simp: bit_simps)

lemma nth_patch_isr:
  assumes "k + 12 \<le> length t" and "i < length t"
  shows "patch_isr k ptr t ! i =
    (if k \<le> i \<and> isr_byte (i - k) then ucast (drop_bit (8 * isr_index (i - k)) ptr) else t ! i)"
proof -
  have a: "to_le 2 (ucast ptr :: u16) ! (i - k) = ucast (drop_bit (8 * (i - k)) ptr)"
    if "k \<le> i" "i < k + 2"
    using that ucast_drop_bit_16[of "i - k" ptr] by (simp add: nth_to_le)
  have b: "to_le 2 (ucast (drop_bit 16 ptr) :: u16) ! (i - (k + 6)) = ucast (drop_bit (8 * (i - k - 4)) ptr)"
    if "k + 6 \<le> i" "i < k + 8"
    using that ucast_drop_bit_16[of "i - (k + 6)" "drop_bit 16 ptr"]
    by (simp add: nth_to_le drop_bit_drop_bit algebra_simps)
  have c: "to_le 4 (ucast (drop_bit 32 ptr) :: u32) ! (i - (k + 8)) = ucast (drop_bit (8 * (i - k - 4)) ptr)"
    if "k + 8 \<le> i" "i < k + 12"
    using that ucast_drop_bit_32[of "i - (k + 8)" "drop_bit 32 ptr"]
    by (simp add: nth_to_le drop_bit_drop_bit algebra_simps)
  show ?thesis
    unfolding patch_isr_def using assms a b c
    by (auto simp: nth_patch isr_byte_def isr_index_def)
qed

lemma set_isr_patch:
  assumes "k + 12 \<le> length t" and "length t < 2 ^ 64"
  shows "set_isr (p + of_nat k) ptr (store_bytes m p t) = store_bytes m p (patch_isr k ptr t)"
proof -
  have e: "p + of_nat k + 6 = p + of_nat (k + 6)" "p + of_nat k + 8 = p + of_nat (k + 8)"
    by (simp_all add: add.assoc)
  show ?thesis
    unfolding set_isr_def e store16_def store32_def patch_isr_def
    using assms by (simp add: store_bytes_inner del: of_nat_add)
qed

text \<open>Reading the address back from its bytes.\<close>

lemma gate_isr_bytes:
  assumes "\<And>j. isr_byte j \<Longrightarrow> m (e + of_nat j) = ucast (drop_bit (8 * isr_index j) ptr)"
  shows "gate_isr m e = ptr"
proof -
  have l: "load16 m e = ucast ptr"
  proof -
    have "load_bytes m e 2 = to_le 2 (ucast ptr :: u16)"
      using assms by (intro nth_equalityI)
        (auto simp: nth_to_le ucast_drop_bit_16 isr_byte_def isr_index_def)
    then show ?thesis by (simp add: load16_def)
  qed
  have mid: "load16 m (e + 6) = ucast (drop_bit 16 ptr)"
  proof -
    have "load_bytes m (e + 6) 2 ! j = to_le 2 (ucast (drop_bit 16 ptr) :: u16) ! j" if "j < 2" for j
      using that assms[of "j + 6"] ucast_drop_bit_16[of j "drop_bit 16 ptr"]
      by (simp add: nth_to_le isr_byte_def isr_index_def drop_bit_drop_bit add.assoc algebra_simps)
    then have "load_bytes m (e + 6) 2 = to_le 2 (ucast (drop_bit 16 ptr) :: u16)"
      by (intro nth_equalityI) auto
    then show ?thesis by (simp add: load16_def)
  qed
  have h: "load32 m (e + 8) = ucast (drop_bit 32 ptr)"
  proof -
    have "load_bytes m (e + 8) 4 ! j = to_le 4 (ucast (drop_bit 32 ptr) :: u32) ! j" if "j < 4" for j
      using that assms[of "j + 8"] ucast_drop_bit_32[of j "drop_bit 32 ptr"]
      by (simp add: nth_to_le isr_byte_def isr_index_def drop_bit_drop_bit add.assoc algebra_simps)
    then have "load_bytes m (e + 8) 4 = to_le 4 (ucast (drop_bit 32 ptr) :: u32)"
      by (intro nth_equalityI) auto
    then show ?thesis by (simp add: load32_def)
  qed
  show ?thesis
    unfolding gate_isr_def l mid h
  proof (rule bit_word_eqI)
    fix n
    assume "n < LENGTH(64)"
    then show "bit (ucast (ucast ptr :: u16) OR push_bit 16 (ucast (ucast (drop_bit 16 ptr) :: u16))
        OR push_bit 32 (ucast (ucast (drop_bit 32 ptr) :: u32)) :: u64) n \<longleftrightarrow> bit ptr n"
      by (cases "n < 16"; cases "n < 32") (auto simp: bit_simps)
  qed
qed

section \<open>The new interrupt table\<close>

definition hook_bytes :: "(idt_handler \<Rightarrow> u64) \<Rightarrow> nat \<times> idt_handler \<Rightarrow> u8 list \<Rightarrow> u8 list" where
  "hook_bytes stub hook t = patch_isr (16 * fst hook) (stub (snd hook)) t"

lemma length_hook_bytes:
  "\<forall>hk \<in> set hs. 16 * fst hk + 12 \<le> length t \<Longrightarrow> length (fold (hook_bytes stub) hs t) = length t"
  by (induction hs arbitrary: t) (auto simp: hook_bytes_def)

lemma gate_position:
  fixes i v :: nat
  shows "16 * v \<le> i \<and> isr_byte (i - 16 * v) \<longleftrightarrow> i div 16 = v \<and> isr_byte (i mod 16)"
proof
  assume *: "16 * v \<le> i \<and> isr_byte (i - 16 * v)"
  then obtain j where j: "i = 16 * v + j" "isr_byte j" by (metis le_add_diff_inverse)
  then have "j < 16" by (auto simp: isr_byte_def)
  then show "i div 16 = v \<and> isr_byte (i mod 16)" using j by simp
next
  assume *: "i div 16 = v \<and> isr_byte (i mod 16)"
  then have "i - 16 * v = i mod 16" by (simp add: modulo_nat_def)
  then show "16 * v \<le> i \<and> isr_byte (i - 16 * v)" using * by auto
qed

lemma nth_hook_fold:
  assumes "\<forall>hk \<in> set hs. 16 * fst hk + 12 \<le> length t" and "distinct (map fst hs)" and "i < length t"
  shows "fold (hook_bytes stub) hs t ! i =
    (case map_of hs (i div 16) of
       Some h \<Rightarrow> if isr_byte (i mod 16) then ucast (drop_bit (8 * isr_index (i mod 16)) (stub h)) else t ! i
     | None \<Rightarrow> t ! i)"
  using assms
proof (induction hs arbitrary: t)
  case (Cons hk hs)
  obtain v h where hk: "hk = (v, h)" by fastforce
  let ?t = "hook_bytes stub hk t"
  have len: "length ?t = length t" using Cons.prems(1) by (simp add: hook_bytes_def)
  have nth: "?t ! i = (if i div 16 = v \<and> isr_byte (i mod 16)
      then ucast (drop_bit (8 * isr_index (i mod 16)) (stub h)) else t ! i)"
  proof -
    have "i - 16 * v = i mod 16" if "i div 16 = v" using that by (simp add: modulo_nat_def)
    then show ?thesis
      using nth_patch_isr[of "16 * v" t i "stub h"] Cons.prems hk gate_position[of v i]
      by (auto simp: hook_bytes_def)
  qed
  have "map_of hs v = None" using Cons.prems(2) hk by (auto simp: map_of_eq_None_iff)
  then show ?case
    using Cons.IH[of ?t] Cons.prems len nth hk by (auto split: option.splits)
qed simp

lemma idt_hooks_memory:
  assumes "\<forall>hk \<in> set hs. 16 * fst hk + 12 \<le> length t" and "length t < 2 ^ 64"
    and "l_mem s = store_bytes m p t" and "custom_idt s = p"
  shows "\<exists>l. fold (idt_hook stub) hs s = s\<lparr>l_mem := store_bytes m p (fold (hook_bytes stub) hs t), l_log := l\<rparr>"
  using assms
proof (induction hs arbitrary: s t)
  case Nil
  then have "s = s\<lparr>l_mem := store_bytes m p t, l_log := l_log s\<rparr>" by simp
  then show ?case by (metis fold_simps(1))
next
  case (Cons hk hs)
  let ?t = "hook_bytes stub hk t" and ?s = "idt_hook stub hk s"
  have "set_isr (p + sizeof_idt_entry * of_nat (fst hk)) (stub (snd hk)) (store_bytes m p t) = store_bytes m p ?t"
    using set_isr_patch[of "16 * fst hk" t p "stub (snd hk)" m] Cons.prems
    by (simp add: sizeof_idt_entry_def hook_bytes_def)
  then have s1: "?s = s\<lparr>l_mem := store_bytes m p ?t, l_log := l_log ?s\<rparr>"
    using Cons.prems(3,4) by (auto simp: idt_hook_def log_def Let_def)
  have "length ?t = length t" using Cons.prems(1) by (simp add: hook_bytes_def)
  then have "\<exists>l. fold (idt_hook stub) hs ?s = ?s\<lparr>l_mem := store_bytes m p (fold (hook_bytes stub) hs ?t), l_log := l\<rparr>"
    using Cons.prems by (intro Cons.IH) (simp_all add: s1[THEN arg_cong[where f = l_mem]]
        s1[THEN arg_cong[where f = custom_idt]])
  then obtain l where "fold (idt_hook stub) hs ?s = ?s\<lparr>l_mem := store_bytes m p (fold (hook_bytes stub) hs ?t), l_log := l\<rparr>"
    by blast
  also have "\<dots> = s\<lparr>l_mem := store_bytes m p (fold (hook_bytes stub) hs ?t), l_log := l\<rparr>"
    by (subst s1) simp
  finally show ?case by auto
qed

lemma unat_ucast_16: "unat (ucast (w :: u16) :: u64) = unat w"
  using unat_lt_power[of w] by (simp add: unsigned_ucast_eq take_bit_nat_eq_self)

text \<open>The state in which \<open>efi_idt_init\<close> asks for memory, and the size it asks for.\<close>

definition idt_request :: "'f ldr \<Rightarrow> 'f ldr" where
  "idt_request s =
     log (Log_hex ''idt size: '' (ucast (dtr_limit (reg_idtr s)) div sizeof_idt_entry))
       ((log (Log (''initializing idt hooks'' @ endl)) s)\<lparr>efi_idtr := reg_idtr s, custom_idtr := reg_idtr s\<rparr>)"

definition idt_request_size :: "'f ldr \<Rightarrow> u64" where
  "idt_request_size s = ucast (dtr_limit (reg_idtr s)) div sizeof_idt_entry * sizeof_idt_entry"

definition idt_copy :: "'f ldr \<Rightarrow> mem \<Rightarrow> u8 list" where
  "idt_copy s m = load_bytes m (dtr_base (reg_idtr s)) (unat (dtr_limit (reg_idtr s)))"

lemma efi_idt_init_memory:
  assumes "table_at (efi_allocations s)"
    and new: "operator_new fw (idt_request_size s) (idt_request s) = (p, s1)"
    and "236 \<le> unat (dtr_limit (reg_idtr s))"
    and sep: "separate p (unat (dtr_limit (reg_idtr s))) (dtr_base (reg_idtr s)) (unat (dtr_limit (reg_idtr s)))"
  shows "\<exists>l. efi_idt_init fw stub s =
    s1\<lparr>l_mem := store_bytes (l_mem s1) p (fold (hook_bytes stub) hooks (idt_copy s (l_mem s1))),
       l_log := l, custom_idt := p,
       custom_idtr := (reg_idtr s)\<lparr>dtr_base := p\<rparr>, reg_idtr := (reg_idtr s)\<lparr>dtr_base := p\<rparr>\<rparr>"
proof -
  let ?r = "idt_request s" and ?t = "idt_copy s (l_mem s1)"
  have "table_at (efi_allocations ?r)" using assms(1) by (simp add: idt_request_def log_def)
  then obtain m f l where s1: "s1 = ?r\<lparr>l_mem := m, l_fw := f, l_log := l\<rparr>"
    using efi_allocate_frame[of ?r fw "idt_request_size s" p s1] new by (auto simp: operator_new_def)
  have sel: "efi_idtr s1 = reg_idtr s" "custom_idtr s1 = reg_idtr s"
    by (simp_all add: s1 idt_request_def log_def)
  have cp: "snd (memcpy (l_mem s1) p (dtr_base (reg_idtr s)) (ucast (dtr_limit (reg_idtr s))))
      = store_bytes (l_mem s1) p ?t"
    using sep movsb_separate[of p "ucast (dtr_limit (reg_idtr s))" "dtr_base (reg_idtr s)" "l_mem s1"]
    by (simp add: memcpy_def unat_ucast_16 idt_copy_def)
  define s2 where "s2 = log (Log (''hooking interesting entries'' @ endl))
    (s1\<lparr>custom_idt := p, l_mem := store_bytes (l_mem s1) p ?t\<rparr>)"
  have "length ?t < 2 ^ 64" using unat_lt_power[of "dtr_limit (reg_idtr s)"] by (simp add: idt_copy_def)
  moreover have "\<forall>hk \<in> set hooks. 16 * fst hk + 12 \<le> length ?t"
    using assms(3) by (simp add: hooks_def idt_copy_def)
  ultimately obtain l' where h: "fold (idt_hook stub) hooks s2 =
      s2\<lparr>l_mem := store_bytes (l_mem s1) p (fold (hook_bytes stub) hooks ?t), l_log := l'\<rparr>"
    using idt_hooks_memory[of hooks ?t s2 "l_mem s1" p stub] by (auto simp: s2_def log_def)
  have "efi_idt_init fw stub s =
    (let s = log (Log (''overwriting idtr'' @ endl)) (fold (idt_hook stub) hooks s2);
         s = s\<lparr>custom_idtr := (custom_idtr s)\<lparr>dtr_base := custom_idt s\<rparr>\<rparr>
     in s\<lparr>reg_idtr := custom_idtr s\<rparr>)"
    using new cp sel unfolding efi_idt_init_def s2_def idt_request_def idt_request_size_def
    by (simp add: Let_def)
  also have "\<dots> = s1\<lparr>l_mem := store_bytes (l_mem s1) p (fold (hook_bytes stub) hooks ?t),
      l_log := l' @ [Log (''overwriting idtr'' @ endl)], custom_idt := p,
      custom_idtr := (reg_idtr s)\<lparr>dtr_base := p\<rparr>, reg_idtr := (reg_idtr s)\<lparr>dtr_base := p\<rparr>\<rparr>"
    using sel unfolding h by (simp add: s2_def log_def Let_def)
  finally show ?thesis by blast
qed

text \<open>Deleting changes no register.\<close>

lemma operator_delete_idtr:
  "table_at (efi_allocations s) \<Longrightarrow> reg_idtr (operator_delete fw a s) = reg_idtr s"
  using efi_deallocate_table[of s fw a] by (auto simp: operator_delete_def)

lemma hook_vectors:
  "distinct (map fst hooks)" "v < 15 \<Longrightarrow> (v, h) \<in> set hooks \<Longrightarrow> map_of hooks v = Some h"
  by (auto simp: hooks_def)

text \<open>Bytes of the new table.\<close>

lemma idt_bytes:
  fixes p :: u64
  assumes "236 \<le> length t" and "length t < 2 ^ 64" and "i < length t"
  shows "store_bytes m p (fold (hook_bytes stub) hooks t) (p + of_nat i) =
    (case map_of hooks (i div 16) of
       Some h \<Rightarrow> if isr_byte (i mod 16) then ucast (drop_bit (8 * isr_index (i mod 16)) (stub h)) else t ! i
     | None \<Rightarrow> t ! i)"
proof -
  have h: "\<forall>hk \<in> set hooks. 16 * fst hk + 12 \<le> length t" using assms(1) by (simp add: hooks_def)
  have "unat (of_nat i :: u64) = i" by (rule unat_of_nat_small) (use assms(2,3) in simp)
  then show ?thesis
    using assms(3) length_hook_bytes[OF h, of stub] nth_hook_fold[OF h hook_vectors(1) assms(3), of stub]
    by (simp add: store_bytes_def)
qed

section \<open>Properties\<close>

text \<open>The registers after the IDT set up and every byte of the new table.\<close>

lemma idt_init_bytes:
  fixes s :: "'f ldr" and stub
  assumes alloc: "table_at (efi_allocations s)"
    and new: "operator_new fw (idt_request_size s) (idt_request s) = (p, s1)"
    and limit: "239 \<le> unat (dtr_limit (reg_idtr s))"
    and sep: "separate p (unat (dtr_limit (reg_idtr s))) (dtr_base (reg_idtr s)) (unat (dtr_limit (reg_idtr s)))"
    and far: "\<forall>i < unat (dtr_limit (reg_idtr s)).
      65536 \<le> unat (dtr_base (reg_idtr s) + of_nat i - efi_allocations s)"
  defines "s' \<equiv> efi_idt_init fw stub s"
  shows "reg_idtr s' = (reg_idtr s)\<lparr>dtr_base := p\<rparr>" "efi_idtr s' = reg_idtr s" "efi_allocations s' = efi_allocations s"
    and "i < unat (dtr_limit (reg_idtr s)) \<Longrightarrow> l_mem s' (p + of_nat i) = (case map_of hooks (i div 16) of
       Some h \<Rightarrow> if isr_byte (i mod 16) then ucast (drop_bit (8 * isr_index (i mod 16)) (stub h))
         else l_mem s (dtr_base (reg_idtr s) + of_nat i)
     | None \<Rightarrow> l_mem s (dtr_base (reg_idtr s) + of_nat i))"
proof -
  let ?n = "unat (dtr_limit (reg_idtr s))"
  let ?t = "idt_copy s (l_mem s1)"
  have "236 \<le> unat (dtr_limit (reg_idtr s))" using limit by simp
  from efi_idt_init_memory[OF alloc new this sep, of stub] obtain l where s':
    "s' = s1\<lparr>l_mem := store_bytes (l_mem s1) p (fold (hook_bytes stub) hooks ?t),
       l_log := l, custom_idt := p,
       custom_idtr := (reg_idtr s)\<lparr>dtr_base := p\<rparr>, reg_idtr := (reg_idtr s)\<lparr>dtr_base := p\<rparr>\<rparr>"
    unfolding s'_def by blast
  have "table_at (efi_allocations (idt_request s))" using alloc by (simp add: idt_request_def log_def)
  then obtain m f l' where s1: "s1 = (idt_request s)\<lparr>l_mem := m, l_fw := f, l_log := l'\<rparr>"
    and m: "\<forall>b. 65536 \<le> unat (b - efi_allocations (idt_request s)) \<longrightarrow> m b = l_mem (idt_request s) b"
    using efi_allocate_frame[of "idt_request s" fw "idt_request_size s" p s1] new
    by (auto simp: operator_new_def)
  have t: "?t ! i = l_mem s (dtr_base (reg_idtr s) + of_nat i)" if "i < ?n" for i
    using m far that by (simp add: idt_copy_def s1 idt_request_def log_def)
  have len: "length ?t = ?n" "?n < 2 ^ 64"
    using unat_lt_power[of "dtr_limit (reg_idtr s)"] by (simp_all add: idt_copy_def)
  show "reg_idtr s' = (reg_idtr s)\<lparr>dtr_base := p\<rparr>" "efi_idtr s' = reg_idtr s" "efi_allocations s' = efi_allocations s"
    by (simp_all add: s' s1 idt_request_def log_def)
  assume i: "i < ?n"
  then show "l_mem s' (p + of_nat i) = (case map_of hooks (i div 16) of
       Some h \<Rightarrow> if isr_byte (i mod 16) then ucast (drop_bit (8 * isr_index (i mod 16)) (stub h))
         else l_mem s (dtr_base (reg_idtr s) + of_nat i)
     | None \<Rightarrow> l_mem s (dtr_base (reg_idtr s) + of_nat i))"
    using idt_bytes[of ?t i "l_mem s1" p stub] limit len t[OF i]
    by (simp add: s' split: option.splits)
qed

text \<open>
  C15. \<open>efi_idt_init\<close> installs a copy of the firmware's interrupt table in which exactly the seven
  hooked gates are redirected. When \<open>new\<close> returns memory apart from the old table and the table
  has at least 15 gates: the address that the processor assembles from the three parts of a hooked
  gate is that of its stub, its selector, stack index and attributes are the old ones, the bytes of
  every other gate are the old ones (up to the last byte, which the copy leaves out), IDTR points to the
  copy with the old limit, and after \<open>efi_idt_exit\<close> IDTR is what it was before.
\<close>

theorem idt_hooks_installed:
  fixes s :: "'f ldr"
  assumes alloc: "table_at (efi_allocations s)"
    and new: "operator_new fw (idt_request_size s) (idt_request s) = (p, s1)"
    and limit: "239 \<le> unat (dtr_limit (reg_idtr s))"
    and sep: "separate p (unat (dtr_limit (reg_idtr s))) (dtr_base (reg_idtr s)) (unat (dtr_limit (reg_idtr s)))"
    and far: "\<forall>i < unat (dtr_limit (reg_idtr s)).
      65536 \<le> unat (dtr_base (reg_idtr s) + of_nat i - efi_allocations s)"
    and hook: "(v, h) \<in> set hooks"
  shows "gate_isr (l_mem (efi_idt_init fw stub s)) (p + of_nat (16 * v)) = stub h
    \<and> (\<forall>j \<in> {2..<6}. l_mem (efi_idt_init fw stub s) (p + of_nat (16 * v + j))
          = l_mem s (dtr_base (reg_idtr s) + of_nat (16 * v + j)))
    \<and> (\<forall>i < unat (dtr_limit (reg_idtr s)). i div 16 \<notin> fst ` set hooks \<longrightarrow>
          l_mem (efi_idt_init fw stub s) (p + of_nat i) = l_mem s (dtr_base (reg_idtr s) + of_nat i))
    \<and> reg_idtr (efi_idt_init fw stub s) = (reg_idtr s)\<lparr>dtr_base := p\<rparr>
    \<and> reg_idtr (efi_idt_exit fw (efi_idt_init fw stub s)) = reg_idtr s"
proof -
  let ?s' = "efi_idt_init fw stub s"
  note init = idt_init_bytes[OF alloc new limit sep far, where stub = stub]
  have v: "v < 15" using hook by (auto simp: hooks_def)
  have gate: "l_mem ?s' (p + of_nat (16 * v + j)) = (if isr_byte j then ucast (drop_bit (8 * isr_index j) (stub h))
      else l_mem s (dtr_base (reg_idtr s) + of_nat (16 * v + j)))" if "j < 15" for j
    using init(4)[of "16 * v + j"] that v limit hook_vectors(2)[OF v hook] by simp
  have "gate_isr (l_mem ?s') (p + of_nat (16 * v)) = stub h"
  proof (rule gate_isr_bytes)
    fix j
    assume j: "isr_byte j"
    then have "j < 15" by (auto simp: isr_byte_def)
    from gate[OF this] j show "l_mem ?s' (p + of_nat (16 * v) + of_nat j) = ucast (drop_bit (8 * isr_index j) (stub h))"
      by (simp add: add.assoc)
  qed
  moreover have "l_mem ?s' (p + of_nat (16 * v + j)) = l_mem s (dtr_base (reg_idtr s) + of_nat (16 * v + j))"
    if "j \<in> {2..<6}" for j
    using that gate[of j] by (simp add: isr_byte_def del: of_nat_add of_nat_mult)
  moreover have "l_mem ?s' (p + of_nat i) = l_mem s (dtr_base (reg_idtr s) + of_nat i)"
    if "i < unat (dtr_limit (reg_idtr s))" and "i div 16 \<notin> fst ` set hooks" for i
    using init(4)[OF that(1)] that(2) by (simp add: map_of_eq_None_iff[THEN iffD2])
  moreover have "reg_idtr (efi_idt_exit fw ?s') = reg_idtr s"
    using operator_delete_idtr[of "?s'\<lparr>reg_idtr := efi_idtr ?s'\<rparr>" fw] alloc init(2,3)
    by (simp add: efi_idt_exit_def Let_def)
  ultimately show ?thesis using init(1) by blast
qed

theorem idt_hooks_installed_witness:
  "\<exists>s :: u64 ldr. gate_isr (l_mem (efi_idt_init (bump quiet_efi) (\<lambda>_. 0xFEDCBA9876543210) s)) (0x11000 + of_nat (16 * 0xE))
     = 0xFEDCBA9876543210"
proof -
  let ?s = "fresh_heap\<lparr>reg_idtr := \<lparr>dtr_limit = 0xFFF, dtr_base = 0x100000\<rparr>\<rparr>"
  have sz: "NUM_PAGES (idt_request_size ?s) = 1"
    by (simp add: idt_request_size_def sizeof_idt_entry_def NUM_PAGES_def PAGE_SIZE_def)
  have "entry_address (l_mem (idt_request ?s)) (efi_allocations (idt_request ?s)) 0 = 0"
    by (simp add: idt_request_def log_def fresh_heap_sel entry_address_def load_zero_bytes)
  then obtain s1 where new: "operator_new (bump quiet_efi) (idt_request_size ?s) (idt_request ?s) = (0x11000, s1)"
    using bump_new[of "idt_request ?s" 0 "idt_request_size ?s" quiet_efi]
    by (auto simp: sz idt_request_def log_def fresh_heap_sel table_at_def aligned8_def
        ALLOCATIONS_MAX_def page_aligned_def)
  have far: "\<forall>i < unat (dtr_limit (reg_idtr ?s)).
      65536 \<le> unat (dtr_base (reg_idtr ?s) + of_nat i - efi_allocations ?s)"
  proof (intro allI impI)
    fix i
    assume "i < unat (dtr_limit (reg_idtr ?s))"
    then have i: "i < 4095" by simp
    have "(0x100000 :: u64) + of_nat i - 0x1000 = of_nat (0xFF000 + i)" by simp
    moreover have "unat (of_nat (0xFF000 + i) :: u64) = 0xFF000 + i"
      by (rule unat_of_nat_small) (use i in simp)
    ultimately show "65536 \<le> unat (dtr_base (reg_idtr ?s) + of_nat i - efi_allocations ?s)"
      by (simp add: fresh_heap_sel)
  qed
  have "gate_isr (l_mem (efi_idt_init (bump quiet_efi) (\<lambda>_. 0xFEDCBA9876543210) ?s)) (0x11000 + of_nat (16 * 0xE))
      = 0xFEDCBA9876543210"
    using idt_hooks_installed[OF _ new _ _ far, of "0xE" efi_idt_pagefault "\<lambda>_. 0xFEDCBA9876543210"]
    by (simp add: fresh_heap_sel table_at_def aligned8_def separate_def hooks_def)
  then show ?thesis by blast
qed

section \<open>The task state segment\<close>

lemma of_le_part:
  fixes w :: "128 word"
  assumes "w = of_le bs" and "length bs = 16" and "k + n \<le> 16"
  shows "bf_get (8 * k, 8 * n) w = of_le (take n (drop k bs))"
proof (rule bit_word_eqI)
  fix i
  assume "i < LENGTH(128)"
  have "(8 * k + i) div 8 = k + i div 8" "(8 * k + i) mod 8 = i mod 8" by simp_all
  moreover have "i < 8 * n \<longleftrightarrow> i div 8 < n" by (simp add: div_less_iff_less_mult mult.commute)
  ultimately show "bit (bf_get (8 * k, 8 * n) w) i \<longleftrightarrow> bit (of_le (take n (drop k bs)) :: 128 word) i"
    using assms \<open>i < LENGTH(128)\<close> by (auto simp: bit_bf_get bit_of_le)
qed

text \<open>The sixteen bytes of the descriptor, with \<open>type\<close> in the byte of the access rights.\<close>

definition tss_bytes :: "u8 \<Rightarrow> u64 \<Rightarrow> u8 list" where
  "tss_bytes type ptr =
     [103, 0, ucast ptr, ucast (drop_bit 8 ptr), ucast (drop_bit 16 ptr), type, 0, ucast (drop_bit 24 ptr),
      ucast (drop_bit 32 ptr), ucast (drop_bit 40 ptr), ucast (drop_bit 48 ptr), ucast (drop_bit 56 ptr),
      0, 0, 0, 0]"

lemma length_tss_bytes [simp]: "length (tss_bytes type ptr) = 16"
  by (simp add: tss_bytes_def)

lemma to_le_2: "to_le 2 w = [ucast w, ucast (drop_bit 8 w)]"
  and to_le_4: "to_le 4 w = [ucast w, ucast (drop_bit 8 w), ucast (drop_bit 16 w), ucast (drop_bit 24 w)]"
  for w :: "'a::len word"
proof -
  have n: "2 = Suc (Suc 0)" "4 = Suc (Suc (Suc (Suc 0)))" by simp_all
  show "to_le 2 w = [ucast w, ucast (drop_bit 8 w)]"
    unfolding n(1) by simp
  show "to_le 4 w = [ucast w, ucast (drop_bit 8 w), ucast (drop_bit 16 w), ucast (drop_bit 24 w)]"
    unfolding n(2) by (simp add: drop_bit_drop_bit)
qed

lemma set_tss_descriptor_bytes:
  "set_tss_descriptor e ptr (store_bytes m e (replicate 16 0)) = store_bytes m e (tss_bytes 0x89 ptr)"
proof -
  have b16: "to_le 2 (ucast ptr :: u16) = [ucast ptr, ucast (drop_bit 8 ptr)]"
    using ucast_drop_bit_16[of 0 ptr] ucast_drop_bit_16[of 1 ptr] by (simp add: to_le_2)
  have b32: "to_le 4 (ucast (drop_bit 32 ptr) :: u32) = [ucast (drop_bit 32 ptr), ucast (drop_bit 40 ptr),
      ucast (drop_bit 48 ptr), ucast (drop_bit 56 ptr)]"
    using ucast_drop_bit_32[of 0 "drop_bit 32 ptr"] ucast_drop_bit_32[of 1 "drop_bit 32 ptr"]
      ucast_drop_bit_32[of 2 "drop_bit 32 ptr"] ucast_drop_bit_32[of 3 "drop_bit 32 ptr"]
    by (simp add: to_le_4 drop_bit_drop_bit)
  have z: "to_le 2 (ucast (sizeof_tss_entry - 1) :: u16) = [103, 0]" "to_le 4 (0 :: u32) = [0, 0, 0, 0]"
    by (simp_all add: sizeof_tss_entry_def to_le_2 to_le_4)
  have r: "replicate 16 0 = [0, 0, 0, 0, 0, 0, 0, 0, 0, 0, 0, 0, 0, 0, 0, 0 :: u8]"
    by (simp add: eval_nat_numeral)
  note st = store_bytes_inner[of 0, simplified] store_bytes_inner[of 2, simplified]
    store_bytes_inner[of 4, simplified] store_bytes_inner[of 5, simplified]
    store_bytes_inner[of 7, simplified] store_bytes_inner[of 8, simplified]
    store_bytes_inner[of 12, simplified]
  show ?thesis
    unfolding set_tss_descriptor_def Let_def store16_def store32_def z b16 b32 r
    by (simp add: st patch_def tss_bytes_def)
qed

lemma bf_get_nested: "j + n \<le> k \<Longrightarrow> bf_get (i + j, n) w = bf_get (j, n) (bf_get (i, k) w)"
  for w :: "'a::len word"
  by (rule bit_word_eqI) (auto simp: bit_bf_get add.assoc)

lemma bit_of_le_to_le:
  "bit (of_le (to_le k w) :: 'b::len word) i \<longleftrightarrow> i < LENGTH('b) \<and> i < 8 * k \<and> bit w i"
  for w :: "'a::len word"
proof -
  have "i div 8 < k \<longleftrightarrow> i < 8 * k" by (simp add: div_less_iff_less_mult mult.commute)
  moreover have "8 * (i div 8) + i mod 8 = i" "i mod 8 < 8" by simp_all
  ultimately show ?thesis by (auto simp: bit_of_le nth_to_le bit_simps)
qed

text \<open>An address from its parts, the way a descriptor holds them.\<close>

lemma join_base:
  fixes ptr :: u64
  shows "ucast (of_le (to_le 2 ptr) :: 128 word)
      OR push_bit 16 (ucast (of_le (to_le 1 (drop_bit 16 ptr)) :: 128 word))
      OR push_bit 24 (ucast (of_le (to_le 1 (drop_bit 24 ptr)) :: 128 word))
      OR push_bit 32 (ucast (of_le (to_le 4 (drop_bit 32 ptr)) :: 128 word)) = ptr"
    (is "?l = ptr")
proof (rule bit_word_eqI)
  fix n
  assume "n < LENGTH(64)"
  then show "bit ?l n \<longleftrightarrow> bit ptr n"
    unfolding bit_or_iff bit_push_bit_iff bit_unsigned_iff bit_of_le_to_le bit_drop_bit_eq
    by (cases "n < 16"; cases "n < 24"; cases "n < 32") auto
qed

lemma tss_descriptor_base:
  assumes "descriptor_layout d" and "fld d (Seg Desc_system) \<in> {(44, 1), (52, 1)}"
    and "load_bytes m e 16 = tss_bytes 0x8B ptr"
  shows "get_descriptor_base d m e = ptr"
proof -
  let ?w = "load128 m e"
  have w: "?w = of_le (tss_bytes 0x8B ptr)" using assms(3) by (simp add: load128_def)
  note part = of_le_part[OF w]
  have "bf_get (16, 16) ?w = of_le (to_le 2 ptr)"
    using part[of 2 2] by (simp add: tss_bytes_def to_le_2)
  moreover have "bf_get (32, 8) ?w = of_le (to_le 1 (drop_bit 16 ptr))"
    using part[of 4 1] by (simp add: tss_bytes_def)
  moreover have "bf_get (56, 8) ?w = of_le (to_le 1 (drop_bit 24 ptr))"
    using part[of 7 1] by (simp add: tss_bytes_def)
  moreover have "bf_get (64, 32) ?w = of_le (to_le 4 (drop_bit 32 ptr))"
    using part[of 8 4] by (simp add: tss_bytes_def to_le_4 drop_bit_drop_bit)
  moreover have "is_tss_descriptor d ?w"
  proof -
    have "bf_get (40, 8) ?w = 0x8B" "bf_get (48, 8) ?w = 0"
      using part[of 5 1] part[of 6 1] by (simp_all add: tss_bytes_def)
    then have "bf_get (40, 4) ?w = 11" "bf_get (44, 1) ?w = 0" "bf_get (52, 1) ?w = 0"
      using bf_get_nested[of 0 4 8 40 ?w] bf_get_nested[of 4 1 8 40 ?w] bf_get_nested[of 4 1 8 48 ?w]
      by (simp_all add: bf_get_def)
    then show ?thesis using assms(2) by (auto simp: is_tss_descriptor_def)
  qed
  ultimately show ?thesis
    unfolding get_descriptor_base_parts[OF assms(1)] Let_def using join_base[of ptr]
    by (simp only: if_True or.assoc)
qed

lemma tr_selector:
  fixes q :: nat
  assumes "selector_layout d" and "q < 8192"
  defines "sel \<equiv> of_nat (8 * q) :: u16"
  shows "set_m d (Seg Sel_index) (of_nat q) 0 = sel" and "get_m d (Seg Sel_index) sel = of_nat q"
    and "drop_bit 3 sel = of_nat q" and "\<not> bit sel 2"
proof -
  have l: "fld d (Seg Sel_index) = (3, 13)" using assms(1) by (simp add: selector_layout_def)
  have t: "take_bit 13 (of_nat q :: u16) = of_nat q"
    by (rule take_bit_self_unat) (use assms(2) in \<open>simp add: unat_of_nat\<close>)
  have p: "sel = push_bit 3 (of_nat q)" by (simp add: sel_def push_bit_eq_mult)
  show "set_m d (Seg Sel_index) (of_nat q) 0 = sel" by (simp add: l bf_set_def t p)
  have b: "bit (of_nat q :: u16) n \<Longrightarrow> n < 13" for n by (subst (asm) t[symmetric]) (simp add: bit_take_bit_iff)
  show drop: "drop_bit 3 sel = of_nat q"
    unfolding p by (rule bit_word_eqI) (use b in \<open>fastforce simp: bit_simps\<close>)
  show "get_m d (Seg Sel_index) sel = of_nat q" unfolding l sel_members(1) by (rule drop)
  show "\<not> bit sel 2" unfolding p by (simp add: bit_push_bit_iff)
qed

text \<open>The state in which \<open>efi_gdt_init\<close> asks for memory, and the size it asks for.\<close>

definition gdt_request :: "ia32 \<Rightarrow> 'f ldr \<Rightarrow> 'f ldr" where
  "gdt_request d s =
     log (Log_hex ''gdt size: '' (ucast (dtr_limit (reg_gdtr s)) + 1 div size_of d Segment_descriptor_64_struct))
       ((log (Log (''patching efi gdt'' @ endl)) s)\<lparr>efi_gdtr := reg_gdtr s\<rparr>)"

definition gdt_request_size :: "ia32 \<Rightarrow> 'f ldr \<Rightarrow> u64" where
  "gdt_request_size d s =
     (ucast (dtr_limit (reg_gdtr s)) + 1 div size_of d Segment_descriptor_64_struct + 1)
       * size_of d Segment_descriptor_64_struct"

lemma ucast_small_16: "q < 65536 \<Longrightarrow> ucast (of_nat q :: u16) = (of_nat q :: u64)"
  by (simp add: unsigned_ucast_eq word_unat_eq_iff unat_of_nat take_bit_nat_eq_self)

lemma tss_bytes_type: "tss_bytes t ptr = (tss_bytes t' ptr)[5 := t]"
  by (simp add: tss_bytes_def)

text \<open>A block at \<open>p\<close>, a later one behind it, and a third somewhere else.\<close>

lemma three_blocks:
  fixes p :: u64
  assumes "length xs = L" and "length ys = 16" and "L + 17 \<le> 65536" and "k < L + 17"
    and "separate z (length zs) p (L + 17)"
  shows "store_bytes (store_bytes (store_bytes m p xs) (p + of_nat (L + 1)) ys) z zs (p + of_nat k) =
    (if L + 1 \<le> k then ys ! (k - (L + 1)) else if k < L then xs ! k else m (p + of_nat k))"
proof -
  have k: "unat (of_nat k :: u64) = k" by (rule unat_of_nat_small) (use assms(3,4) in simp)
  have "length zs \<le> unat (p + of_nat k - z)" using assms(5,4) by (rule separate_offset)
  then have 1: "store_bytes m' z zs (p + of_nat k) = m' (p + of_nat k)" for m'
    by (simp add: store_bytes_def)
  have d: "p + of_nat k - (p + of_nat (L + 1)) = of_nat k - of_nat (L + 1)" by simp
  note u = unat_sub_less[of "L + 1" 16 "of_nat k :: u64", unfolded k]
  have 2: "store_bytes m' (p + of_nat (L + 1)) ys (p + of_nat k) =
      (if L + 1 \<le> k then ys ! (k - (L + 1)) else m' (p + of_nat k))" for m'
    using u assms(2-4) unfolding store_bytes_def d by auto
  show ?thesis unfolding 1 2 using k assms(1) by (simp add: store_bytes_def)
qed

lemma efi_gdt_init_memory:
  assumes lay: "selector_layout d" "descriptor_layout d" and "table_at (efi_allocations s)"
    and new: "operator_new fw (gdt_request_size d s) (gdt_request d s) = (p, s1)"
    and L: "L = unat (dtr_limit (reg_gdtr s))" "L + 1 = 8 * q" "q < 8192"
    and sep: "separate p L (dtr_base (reg_gdtr s)) L"
  shows "\<exists>l. efi_gdt_init fw d new_tss s = write_tr (of_nat (L + 1))
    (s1\<lparr>new_gdt := p, l_log := l,
        l_mem := store_bytes (store_bytes (store_bytes (l_mem s1) p (load_bytes (l_mem s1) (dtr_base (reg_gdtr s)) L))
            (p + of_nat (L + 1)) (tss_bytes 0x89 new_tss)) new_tss (replicate 104 0),
        reg_gdtr := (reg_gdtr s)\<lparr>dtr_base := p, dtr_limit := dtr_limit (reg_gdtr s) + 16\<rparr>\<rparr>)"
proof -
  let ?r = "gdt_request d s" and ?lim = "dtr_limit (reg_gdtr s)"
  have "table_at (efi_allocations ?r)" using assms(3) by (simp add: gdt_request_def log_def)
  then obtain m f l where s1: "s1 = ?r\<lparr>l_mem := m, l_fw := f, l_log := l\<rparr>"
    using efi_allocate_frame[of ?r fw "gdt_request_size d s" p s1] new by (auto simp: operator_new_def)
  have sel: "reg_gdtr s1 = reg_gdtr s" by (simp add: s1 gdt_request_def log_def)
  have sz: "size_of d Segment_descriptor_64_struct = 16" "size_of d Segment_descriptor_32_struct = 8"
    using lay(2) by (simp_all add: descriptor_layout_def)
  have cp: "snd (memcpy (l_mem s1) p (dtr_base (reg_gdtr s)) (ucast ?lim))
      = store_bytes (l_mem s1) p (load_bytes (l_mem s1) (dtr_base (reg_gdtr s)) L)"
    using sep movsb_separate[of p "ucast ?lim" "dtr_base (reg_gdtr s)" "l_mem s1"]
    by (simp add: memcpy_def unat_ucast_16 L(1))
  have "unat ((ucast ?lim + 1 :: u64) div 8) = q"
  proof -
    have "unat (ucast ?lim + of_nat 1 :: u64) = unat (ucast ?lim :: u64) + 1"
      by (rule unat_add_small) (use unat_lt_power[of ?lim] in \<open>simp add: unat_ucast_16\<close>)
    then show ?thesis using L by (simp add: unat_div unat_ucast_16)
  qed
  then have q64: "(ucast ?lim + 1 :: u64) div 8 = of_nat q" by (metis of_nat_unat ucast_id)
  have q16: "ucast (of_nat q :: u64) = (of_nat q :: u16)"
    using L(3) by (simp add: unsigned_ucast_eq word_unat_eq_iff unat_of_nat take_bit_nat_eq_self)
  have q64': "ucast (of_nat q :: u16) = (of_nat q :: u64)"
    using L(3) by (simp add: unsigned_ucast_eq word_unat_eq_iff unat_of_nat take_bit_nat_eq_self)
  note tr = tr_selector[OF lay(1) L(3)]
  have e: "p + 8 * of_nat q = p + of_nat (L + 1)" using L(2) by simp
  have tr': "set_m d (Seg Sel_index) (ucast ((ucast ?lim + 1 :: u64) div 8)) 0 = (of_nat (L + 1) :: u16)"
    unfolding q64 q16 tr(1) L(2) ..
  have ix: "ucast (get_m d (Seg Sel_index) (of_nat (L + 1) :: u16)) = (of_nat q :: u64)"
    unfolding L(2) tr(2) by (rule q64')
  have z: "unat (16 :: u64) = 16" "unat sizeof_tss_entry = 104" by (simp_all add: sizeof_tss_entry_def)
  have new': "operator_new fw ((ucast ?lim + 1 div 16 + 1) * 16)
      (log (Log_hex ''gdt size: '' (ucast ?lim + 1 div 16)) ((log (Log (''patching efi gdt'' @ endl)) s)\<lparr>efi_gdtr := reg_gdtr s\<rparr>))
      = (p, s1)"
    using new by (simp only: gdt_request_def gdt_request_size_def sz)
  let ?l = "l_log s1 @ [Log_hex ''tr index: '' (of_nat q), Log_hex ''tss ptr: '' new_tss]"
  have "efi_gdt_init fw d new_tss s = write_tr (of_nat (L + 1))
    (s1\<lparr>new_gdt := p, l_log := ?l,
        l_mem := store_bytes (store_bytes (store_bytes (l_mem s1) p (load_bytes (l_mem s1) (dtr_base (reg_gdtr s)) L))
            (p + of_nat (L + 1)) (tss_bytes 0x89 new_tss)) new_tss (replicate 104 0),
        reg_gdtr := (reg_gdtr s)\<lparr>dtr_base := p, dtr_limit := dtr_limit (reg_gdtr s) + 16\<rparr>\<rparr>)"
    unfolding efi_gdt_init_def Let_def sz using new' tr' ix e cp
    by (simp add: memset_block z set_tss_descriptor_bytes sel) (simp add: log_def)
  then show ?thesis by blast
qed

text \<open>The new table once the descriptor is written, the segment cleared and the descriptor marked busy.\<close>

lemma marked_tss_table:
  fixes m :: mem and p base new_tss
  assumes L: "L + 16 < 65536" and sep: "separate new_tss 104 p (L + 17)"
  defines "e \<equiv> p + of_nat (L + 1)"
    and "n \<equiv> store_bytes (store_bytes (store_bytes m p (load_bytes m base L)) (p + of_nat (L + 1)) (tss_bytes 0x89 new_tss))
      new_tss (replicate 104 0)"
  shows "load_bytes (store_bytes n (e + 5) [n (e + 5) OR 2]) e 16 = tss_bytes 0x8B new_tss"
    and "i < L \<Longrightarrow> store_bytes n (e + 5) [n (e + 5) OR 2] (p + of_nat i) = m (base + of_nat i)"
proof -
  have byte: "n (p + of_nat k) = (if L + 1 \<le> k then tss_bytes 0x89 new_tss ! (k - (L + 1))
      else if k < L then m (base + of_nat k) else m (p + of_nat k))" if "k < L + 17" for k
    using three_blocks[of "load_bytes m base L" L "tss_bytes 0x89 new_tss" k new_tss "replicate 104 0" p m]
      that L sep by (simp add: n_def)
  have e5: "e + 5 = p + of_nat (L + 6)" by (simp add: e_def)
  have five: "n (e + 5) OR 2 = 0x8B"
    unfolding e5 by (subst byte) (simp_all add: tss_bytes_def)
  have byte': "store_bytes n (e + 5) [n (e + 5) OR 2] (p + of_nat k) = (if k = L + 6 then 0x8B else n (p + of_nat k))"
    if "k < L + 17" for k
  proof -
    have k: "unat (of_nat k :: u64) = k" by (rule unat_of_nat_small) (use that L in simp)
    have d: "p + of_nat k - (p + of_nat (L + 6)) = of_nat k - of_nat (L + 6)" by simp
    show ?thesis
      unfolding five unfolding e5 store_bytes_def d
      using unat_sub_less[of "L + 6" 1 "of_nat k :: u64", unfolded k] L by auto
  qed
  then show "i < L \<Longrightarrow> store_bytes n (e + 5) [n (e + 5) OR 2] (p + of_nat i) = m (base + of_nat i)"
    using byte[of i] by simp
  show "load_bytes (store_bytes n (e + 5) [n (e + 5) OR 2]) e 16 = tss_bytes 0x8B new_tss" (is "?l = _")
  proof (rule nth_equalityI)
    fix j
    assume "j < length ?l"
    then have j: "j < 16" by simp
    have "?l ! j = store_bytes n (e + 5) [n (e + 5) OR 2] (p + of_nat (L + 1 + j))"
      using j by (simp add: e_def add.assoc)
    also have "\<dots> = (if j = 5 then 0x8B else tss_bytes 0x89 new_tss ! j)"
      using byte'[of "L + 1 + j"] byte[of "L + 1 + j"] j by simp
    also have "\<dots> = tss_bytes 0x8B new_tss ! j"
      using j tss_bytes_type[of "0x8B" new_tss "0x89"] by (simp add: nth_list_update)
    finally show "?l ! j = tss_bytes 0x8B new_tss ! j" .
  qed simp
qed

text \<open>
  C16. The task register round trip. With the documented descriptor layout, a GDT whose size is a
  multiple of eight bytes, and memory from \<open>new\<close> apart from the old GDT and from the task state
  segment: after \<open>efi_gdt_init\<close> the base that \<open>get_segment_base\<close> reads for TR from the new GDT is the address of
  \<open>new_tss\<close> that the initialisation split over the descriptor, TR selects the descriptor right behind
  the old table, and the limit covers it. The old descriptors are the first ones of the new table, but
  for the very last byte, which is not copied. After \<open>efi_gdt_exit\<close> GDTR is the old one again while TR still
  selects the descriptor, which is outside the restored limit.
\<close>

theorem gdt_tss_roundtrip:
  assumes lay: "selector_layout d" "descriptor_layout d" "fld d (Seg Desc_system) \<in> {(44, 1), (52, 1)}"
    and alloc: "table_at (efi_allocations s)"
    and new: "operator_new fw (gdt_request_size d s) (gdt_request d s) = (p, s1)"
    and L: "L = unat (dtr_limit (reg_gdtr s))" "(L + 1) mod 8 = 0" "L + 16 < 65536"
    and sep: "separate p L (dtr_base (reg_gdtr s)) L" "separate new_tss 104 p (L + 17)"
    and far: "\<forall>i < L. 65536 \<le> unat (dtr_base (reg_gdtr s) + of_nat i - efi_allocations s)"
    and s': "s' = efi_gdt_init fw d new_tss s"
  shows "get_segment_base d (l_mem s') (dtr_base (reg_gdtr s')) (reg_tr s') = new_tss
    \<and> unat (reg_tr s') = L + 1 \<and> dtr_base (reg_gdtr s') = p \<and> unat (dtr_limit (reg_gdtr s')) = L + 16
    \<and> (\<forall>i < L. l_mem s' (p + of_nat i) = l_mem s (dtr_base (reg_gdtr s) + of_nat i))
    \<and> reg_gdtr (efi_gdt_exit s') = reg_gdtr s \<and> reg_tr (efi_gdt_exit s') = reg_tr s'"
proof -
  define q where "q = (L + 1) div 8"
  have q: "L + 1 = 8 * q" "q < 8192" using L(2,3) by (auto simp: q_def)
  let ?base = "dtr_base (reg_gdtr s)"
  let ?m0 = "store_bytes (l_mem s1) p (load_bytes (l_mem s1) ?base L)"
  let ?e = "p + of_nat (L + 1)"
  let ?m = "store_bytes (store_bytes ?m0 ?e (tss_bytes 0x89 new_tss)) new_tss (replicate 104 0)"
  obtain l where init: "s' = write_tr (of_nat (L + 1)) (s1\<lparr>new_gdt := p, l_log := l, l_mem := ?m,
      reg_gdtr := (reg_gdtr s)\<lparr>dtr_base := p, dtr_limit := dtr_limit (reg_gdtr s) + 16\<rparr>\<rparr>)"
    using efi_gdt_init_memory[OF lay(1,2) alloc new L(1) q sep(1), of new_tss] s' by blast
  note tr = tr_selector[OF lay(1) q(2)]
  have e: "p + 8 * ucast (drop_bit 3 (of_nat (L + 1) :: u16)) = ?e"
    unfolding q(1) tr(3) using q(2) by (simp add: ucast_small_16)
  have mem: "l_mem s' = store_bytes ?m (?e + 5) [?m (?e + 5) OR 2]"
    unfolding init write_tr_def Let_def using e by simp
  have "table_at (efi_allocations (gdt_request d s))" using alloc by (simp add: gdt_request_def log_def)
  then obtain m f l' where s1: "s1 = (gdt_request d s)\<lparr>l_mem := m, l_fw := f, l_log := l'\<rparr>"
    and frame: "\<forall>b. 65536 \<le> unat (b - efi_allocations (gdt_request d s)) \<longrightarrow> m b = l_mem (gdt_request d s) b"
    using efi_allocate_frame[of "gdt_request d s" fw "gdt_request_size d s" p s1] new
    by (auto simp: operator_new_def)
  have regs: "reg_tr s' = of_nat (L + 1)" "dtr_base (reg_gdtr s') = p"
    "dtr_limit (reg_gdtr s') = dtr_limit (reg_gdtr s) + 16" "efi_gdtr s' = reg_gdtr s"
    unfolding init by (simp_all add: write_tr_def Let_def s1 gdt_request_def log_def)
  note new_bytes = marked_tss_table[OF L(3) sep(2), where m = "l_mem s1" and base = ?base]
  have "load_bytes (l_mem s') ?e 16 = tss_bytes 0x8B new_tss" unfolding mem by (rule new_bytes(1))
  then have "get_descriptor_base d (l_mem s') ?e = new_tss" by (rule tss_descriptor_base[OF lay(2,3)])
  moreover have "drop_bit 3 (of_nat (L + 1) :: u16) \<noteq> 0"
    unfolding q(1) tr(3) using q by (simp add: word_unat_eq_iff unat_of_nat)
  ultimately have "get_segment_base d (l_mem s') (dtr_base (reg_gdtr s')) (reg_tr s') = new_tss"
    using get_segment_base_gdt[OF lay(1,2), of "of_nat (L + 1)" "l_mem s'" p] tr(4) q(1) e
    unfolding regs by (simp only: not_False_eq_True)
  moreover have "unat (reg_tr s') = L + 1" unfolding regs by (rule unat_of_nat_small) (use L(3) in simp)
  moreover have "unat (dtr_limit (reg_gdtr s')) = L + 16"
    unfolding regs L(1) using unat_add_small[of "dtr_limit (reg_gdtr s)" 16] L(1,3) by simp
  moreover have "l_mem s' (p + of_nat i) = l_mem s (?base + of_nat i)" if "i < L" for i
    using new_bytes(2)[OF that] that frame far unfolding mem by (simp add: s1 gdt_request_def log_def)
  moreover have "reg_gdtr (efi_gdt_exit s') = reg_gdtr s" "reg_tr (efi_gdt_exit s') = reg_tr s'"
    using regs(4) by (simp_all add: efi_gdt_exit_def clear_tr_def log_def Let_def)
  ultimately show ?thesis using regs(2) by blast
qed

theorem gdt_tss_roundtrip_witness:
  "\<exists>s :: u64 ldr. get_segment_base sdm (l_mem (efi_gdt_init (bump quiet_efi) sdm 0x200000 s)) 0x11000 0x30 = 0x200000"
proof -
  let ?s = "fresh_heap\<lparr>reg_gdtr := \<lparr>dtr_limit = 0x2F, dtr_base = 0x100000\<rparr>\<rparr>"
  have sz: "NUM_PAGES (gdt_request_size sdm ?s) = 1"
    by (simp add: gdt_request_size_def NUM_PAGES_def PAGE_SIZE_def)
  have "entry_address (l_mem (gdt_request sdm ?s)) (efi_allocations (gdt_request sdm ?s)) 0 = 0"
    by (simp add: gdt_request_def log_def fresh_heap_sel entry_address_def load_zero_bytes)
  then obtain s1 where new: "operator_new (bump quiet_efi) (gdt_request_size sdm ?s) (gdt_request sdm ?s) = (0x11000, s1)"
    using bump_new[of "gdt_request sdm ?s" 0 "gdt_request_size sdm ?s" quiet_efi]
    by (auto simp: sz gdt_request_def log_def fresh_heap_sel table_at_def aligned8_def
        ALLOCATIONS_MAX_def page_aligned_def)
  have far: "\<forall>i < 47. 65536 \<le> unat (dtr_base (reg_gdtr ?s) + of_nat i - efi_allocations ?s)"
  proof (intro allI impI)
    fix i :: nat
    assume i: "i < 47"
    have "(0x100000 :: u64) + of_nat i - 0x1000 = of_nat (0xFF000 + i)" by simp
    moreover have "unat (of_nat (0xFF000 + i) :: u64) = 0xFF000 + i"
      by (rule unat_of_nat_small) (use i in simp)
    ultimately show "65536 \<le> unat (dtr_base (reg_gdtr ?s) + of_nat i - efi_allocations ?s)"
      by (simp add: fresh_heap_sel)
  qed
  let ?s' = "efi_gdt_init (bump quiet_efi) sdm 0x200000 ?s"
  have pre: "fld sdm (Seg Desc_system) \<in> {(44, 1), (52, 1)}" "table_at (efi_allocations ?s)"
    "47 = unat (dtr_limit (reg_gdtr ?s))" "(47 + 1) mod 8 = (0 :: nat)" "47 + 16 < (65536 :: nat)"
    "separate 0x11000 47 (dtr_base (reg_gdtr ?s)) 47" "separate 0x200000 104 0x11000 (47 + 17)"
    by (simp_all add: fresh_heap_sel table_at_def aligned8_def separate_def)
  note result = gdt_tss_roundtrip[OF sdm_layouts(2,3) pre(1,2) new pre(3-7) far refl]
  have "reg_tr ?s' = 0x30" using result by (simp add: word_unat_eq_iff)
  then show ?thesis using result by (intro exI[of _ ?s]) metis
qed

section \<open>The interrupt stubs\<close>

lemma stack_pops_list:
  "stack_pops n (m, a) = (map (\<lambda>i. load64 m (a + of_nat (8 * i))) [0..<n], m, a + of_nat (8 * n))"
proof (induction n arbitrary: a)
  case (Suc n)
  have "map (\<lambda>i. load64 m (a + of_nat (8 * i))) [0..<Suc n] =
      load64 m a # map (\<lambda>i. load64 m (a + 8 + of_nat (8 * i))) [0..<n]"
    by (simp add: upt_conv_Cons map_Suc_upt[symmetric] add.assoc del: upt_Suc)
  then show ?case using Suc[of "a + 8"] by (simp add: stack_pop_def add.assoc)
qed simp

lemma aligned8_add: "aligned8 a \<Longrightarrow> aligned8 (a + of_nat (8 * i))"
  unfolding aligned8_def take_bit_0_dvd
  by (simp add: unat_word_ariths unat_of_nat dvd_mod_iff dvd_mod)

lemma aligned8_sub: "aligned8 a \<Longrightarrow> aligned8 (a - 8)"
proof -
  assume "aligned8 a"
  moreover have "a - 8 = a + of_nat (8 * (2 ^ 61 - 1))" by simp
  ultimately show ?thesis using aligned8_add by metis
qed

lemma slot_above:
  assumes "8 * Suc i < 2 ^ 64"
  shows "(a :: u64) - 8 \<noteq> a + of_nat (8 * i)"
proof
  assume *: "a - 8 = a + of_nat (8 * i)"
  have "(of_nat (8 * Suc i) :: u64) = of_nat (8 * i) + 8" by simp
  also have "\<dots> = (a + of_nat (8 * i)) - (a - 8)" by simp
  also have "\<dots> = 0" unfolding * by simp
  finally have "unat (of_nat (8 * Suc i) :: u64) = 0" by simp
  moreover have "unat (of_nat (8 * Suc i) :: u64) = 8 * Suc i"
    by (rule unat_of_nat_small) (use assms in simp)
  ultimately show False by simp
qed

text \<open>What was pushed is popped in reverse, and what was on the stack before is untouched.\<close>

lemma push_pop:
  assumes "aligned8 rsp" and "length vs < 2 ^ 32" and "fold stack_push vs (m, rsp) = (m', a)"
  shows "a + of_nat (8 * length vs) = rsp" and "stack_pops (length vs) (m', a) = (rev vs, m', rsp)"
    and "k < 2 ^ 32 \<Longrightarrow> load64 m' (rsp + of_nat (8 * k)) = load64 m (rsp + of_nat (8 * k))"
proof -
  have "a + of_nat (8 * length vs) = rsp \<and> aligned8 a
    \<and> map (\<lambda>i. load64 m' (a + of_nat (8 * i))) [0..<length vs] = rev vs
    \<and> (\<forall>k < 2 ^ 32. load64 m' (rsp + of_nat (8 * k)) = load64 m (rsp + of_nat (8 * k)))"
    using assms(2,3)
  proof (induction vs arbitrary: m' a rule: rev_induct)
    case Nil
    then show ?case using assms(1) by simp
  next
    case (snoc v vs)
    obtain m1 a1 where f: "fold stack_push vs (m, rsp) = (m1, a1)" by fastforce
    have IH: "a1 + of_nat (8 * length vs) = rsp" "aligned8 a1"
      "map (\<lambda>i. load64 m1 (a1 + of_nat (8 * i))) [0..<length vs] = rev vs"
      "\<forall>k < 2 ^ 32. load64 m1 (rsp + of_nat (8 * k)) = load64 m (rsp + of_nat (8 * k))"
      using snoc.IH[OF _ f] snoc.prems(1) by simp_all
    have r: "m' = store64 m1 (a1 - 8) v" "a = a1 - 8"
      using snoc.prems(2) f by (auto simp: stack_push_def[of v])
    have al: "aligned8 (a1 - 8)" using IH(2) by (rule aligned8_sub)
    have keep: "load64 m' (a1 + of_nat (8 * i)) = load64 m1 (a1 + of_nat (8 * i))" if "8 * Suc i < 2 ^ 64" for i
      using load64_store64_aligned[OF al aligned8_add[OF IH(2), of i]] slot_above[OF that, of a1] r by simp
    have "map (\<lambda>i. load64 m' (a + of_nat (8 * i))) [0..<Suc (length vs)]
        = load64 m' a # map (\<lambda>i. load64 m' (a1 + of_nat (8 * i))) [0..<length vs]"
    proof -
      have "a1 = a + 8" using r(2) by simp
      then show ?thesis by (simp add: upt_conv_Cons map_Suc_upt[symmetric] add.assoc del: upt_Suc)
    qed
    also have "map (\<lambda>i. load64 m' (a1 + of_nat (8 * i))) [0..<length vs]
        = map (\<lambda>i. load64 m1 (a1 + of_nat (8 * i))) [0..<length vs]"
      using keep snoc.prems(1) by (intro map_cong) auto
    finally have "map (\<lambda>i. load64 m' (a + of_nat (8 * i))) [0..<length (vs @ [v])] = rev (vs @ [v])"
      using IH(3) r by (simp add: load_store_same)
    moreover have "load64 m' (rsp + of_nat (8 * k)) = load64 m (rsp + of_nat (8 * k))" if "k < 2 ^ 32" for k
    proof -
      have "rsp + of_nat (8 * k) = a1 + of_nat (8 * (length vs + k))" using IH(1) by (auto simp: algebra_simps)
      moreover have "8 * Suc (length vs + k) < 2 ^ 64" using that snoc.prems(1) by simp
      ultimately show ?thesis using keep[of "length vs + k"] IH(4) that by metis
    qed
    ultimately show ?case using IH(1) al r by (auto simp: algebra_simps)
  qed
  then show "a + of_nat (8 * length vs) = rsp" "stack_pops (length vs) (m', a) = (rev vs, m', rsp)"
    "k < 2 ^ 32 \<Longrightarrow> load64 m' (rsp + of_nat (8 * k)) = load64 m (rsp + of_nat (8 * k))"
    by (simp_all add: stack_pops_list)
qed

lemma run_handler_keeps:
  "h \<noteq> efi_idt_general_protection_fault \<Longrightarrow>
     \<exists>s'. run_handler h cr2 c s = Some (c, s') \<and> l_mem s' = l_mem s"
  by (cases h) simp_all

text \<open>
  C17. The interrupt stubs do not return to the interrupted code. They restore the fifteen general
  registers, but leave the error code (the one of the processor, or the 0 pushed in its place) on
  the stack, so that \<^verbatim>\<open>iretq\<close> takes it for RIP and the interrupted RIP for CS. The stub of the general
  protection fault does not return at all.
\<close>

theorem idt_stub_resumes_at_error_code:
  assumes "aligned8 rsp" and "length gp_regs = 15" and "h \<noteq> efi_idt_general_protection_fault"
  shows "idt_stub efi_idt_general_protection_fault gp_regs cr2 rsp s = None
    \<and> (\<exists>r s'. idt_stub h gp_regs cr2 rsp s = Some (r, s') \<and> res_gp r = rev gp_regs
        \<and> (if stub_has_error_code h
           then res_rip r = load64 (l_mem s) rsp \<and> res_cs r = load64 (l_mem s) (rsp + 8)
           else res_rip r = 0 \<and> res_cs r = load64 (l_mem s) rsp))"
proof (rule conjI)
  show "idt_stub efi_idt_general_protection_fault gp_regs cr2 rsp s = None"
    by (simp add: idt_stub_def Let_def split: prod.splits)
  define ms where "ms = (if stub_has_error_code h then (l_mem s, rsp) else stack_push 0 (l_mem s, rsp))"
  obtain m1 top where ms: "ms = (m1, top)" by fastforce
  have al: "aligned8 top"
    using assms(1) ms aligned8_sub[OF assms(1)]
    by (auto simp: ms_def stack_push_def split: if_splits)
  obtain m2 a where f: "fold stack_push gp_regs (m1, top) = (m2, a)" by fastforce
  note pp = push_pop[OF al _ f]
  obtain s' where run: "run_handler h cr2 a (s\<lparr>l_mem := m2\<rparr>) = Some (a, s')" "l_mem s' = m2"
    using run_handler_keeps[OF assms(3), of cr2 a "s\<lparr>l_mem := m2\<rparr>"] by auto
  have pops: "stack_pops 15 (m2, a) = (rev gp_regs, m2, top)" using pp(2) assms(2) by simp
  have "idt_stub h gp_regs cr2 rsp s = Some (iretq (rev gp_regs) (m2, top), s')"
    using f run pops ms by (simp add: idt_stub_def ms_def[symmetric])
  moreover have "res_gp (iretq (rev gp_regs) (m2, top)) = rev gp_regs"
    "res_rip (iretq (rev gp_regs) (m2, top)) = load64 m1 top"
    "res_cs (iretq (rev gp_regs) (m2, top)) = load64 m1 (top + 8)"
    using pp(3)[of 0] pp(3)[of 1] assms(2) by (simp_all add: iretq_def stack_pops_list)
  moreover have "load64 m1 top = (if stub_has_error_code h then load64 (l_mem s) rsp else 0)"
    "load64 m1 (top + 8) = (if stub_has_error_code h then load64 (l_mem s) (rsp + 8) else load64 (l_mem s) rsp)"
    using ms slot_above[of 0 rsp] load64_store64_aligned[OF aligned8_sub[OF assms(1)] assms(1)]
    by (auto simp: ms_def stack_push_def load_store_same split: if_splits)
  ultimately show "\<exists>r s'. idt_stub h gp_regs cr2 rsp s = Some (r, s') \<and> res_gp r = rev gp_regs
        \<and> (if stub_has_error_code h
           then res_rip r = load64 (l_mem s) rsp \<and> res_cs r = load64 (l_mem s) (rsp + 8)
           else res_rip r = 0 \<and> res_cs r = load64 (l_mem s) rsp)"
    by auto
qed

text \<open>A page fault at 0x401000 with error code 2, its frame at 0x9000.\<close>

theorem idt_stub_resumes_at_error_code_witness:
  "\<exists>(s :: unit ldr) r s'. idt_stub efi_idt_pagefault (map of_nat [0..<15]) 0 0x9000 s = Some (r, s')
     \<and> res_rip r = 2 \<and> res_cs r = 0x401000"
proof -
  let ?m = "store64 (store64 (\<lambda>_. 0) 0x9000 2) 0x9008 0x401000"
  let ?s = "ldr_start ?m () \<lparr>dtr_limit = 0, dtr_base = 0\<rparr> \<lparr>dtr_limit = 0, dtr_base = 0\<rparr> 0"
  have "aligned8 0x9000" "aligned8 0x9008" by (simp_all add: aligned8_def)
  then have "load64 ?m 0x9000 = 2" "load64 ?m 0x9008 = 0x401000"
    by (simp_all add: load64_store64_aligned)
  moreover have "l_mem ?s = ?m" by (simp add: ldr_start_def Let_def)
  ultimately show ?thesis
    using idt_stub_resumes_at_error_code[of "0x9000" "map of_nat [0..<15]" efi_idt_pagefault 0 ?s] \<open>aligned8 0x9000\<close>
    by (auto simp: stub_has_error_code_def)
qed

end
