(* ===== verification/Gfx.thy ===== *)
theory Gfx
  imports Firmware "HOL-Library.Signed_Division" "HOL-Library.Monad_Syntax"
begin

text \<open>
  Drawing and the keyboard of the loader: \<^verbatim>\<open>loader/efi/gfx.cc\<close> and \<^verbatim>\<open>loader/efi/input.cc\<close>. The font and
  the logo are headers the build generates from images; their sizes and the address of their
  pixels are the parameter \<open>image\<close>. \<open>None\<close> is a loop that does not return (waiting for a key,
  drawing a string without end) or, in \<open>efi_gfx_init\<close>, the use of a null \<open>gop\<close>.
\<close>

section \<open>gfx.cc\<close>

record image =
  image_data :: u64
  image_width :: u64
  image_height :: u64

definition efi_gfx_blit ::
  "'f efi \<Rightarrow> u64 \<Rightarrow> u64 \<Rightarrow> u64 \<Rightarrow> u64 \<Rightarrow> u64 \<Rightarrow> u64 \<Rightarrow> u64 \<Rightarrow> u64 \<Rightarrow> 'f ldr \<Rightarrow> 'f ldr" where
  "efi_gfx_blit fw data img_width width height dst_x dst_y src_x src_y s =
     s\<lparr>l_fw := blt fw (gop s)
         \<lparr>blt_buffer = data, blt_op = buffer_to_video, source_x = src_x, source_y = src_y,
          dest_x = dst_x, dest_y = dst_y, blt_width = width, blt_height = height,
          delta = img_width * 4\<rparr> (l_fw s)\<rparr>"

text \<open>
  \<^verbatim>\<open>char\<close> is signed: it is promoted to \<^verbatim>\<open>int\<close>, divided with truncation towards zero, and the
  quotient and remainder are converted to \<^verbatim>\<open>size_t\<close>.
\<close>

definition glyph_x :: "u8 \<Rightarrow> u64" where "glyph_x c = word_of_int (sint c smod 32)"
definition glyph_y :: "u8 \<Rightarrow> u64" where "glyph_y c = word_of_int (sint c sdiv 32)"

definition efi_gfx_char :: "'f efi \<Rightarrow> image \<Rightarrow> u64 \<Rightarrow> u64 \<Rightarrow> u8 \<Rightarrow> 'f ldr \<Rightarrow> 'f ldr" where
  "efi_gfx_char fw font x y character s =
     (if character = 0 then s
      else
        let char_width = image_width font div 32;
            char_height = image_height font div 8
        in efi_gfx_blit fw (image_data font) (image_width font) char_width char_height x y
             (glyph_x character * char_width) (glyph_y character * char_height) s)"

partial_function (option) gfx_string_loop ::
  "'f efi \<Rightarrow> image \<Rightarrow> u64 \<Rightarrow> u64 \<Rightarrow> u64 \<Rightarrow> u64 \<Rightarrow> 'f ldr \<Rightarrow> 'f ldr option" where
  "gfx_string_loop fw font start_x x y str s =
     (if l_mem s str = 0 then Some s
      else if l_mem s str = 10
        then gfx_string_loop fw font start_x start_x (y + image_height font div 8) (str + 1) s
        else gfx_string_loop fw font start_x (x + image_width font div 32) y (str + 1)
               (efi_gfx_char fw font x y (l_mem s str) s))"

text \<open>\<open>nullptr_text\<close> is the address of the literal \<^verbatim>\<open>"<nullptr>"\<close>.\<close>

definition efi_gfx_string ::
  "'f efi \<Rightarrow> image \<Rightarrow> u64 \<Rightarrow> u64 \<Rightarrow> u64 \<Rightarrow> u64 \<Rightarrow> 'f ldr \<Rightarrow> 'f ldr option" where
  "efi_gfx_string fw font nullptr_text x y str s =
     gfx_string_loop fw font x x y (if str = 0 then nullptr_text else str) s"

fun gfx_find_gop :: "'f efi \<Rightarrow> (nat \<Rightarrow> u64) \<Rightarrow> nat list \<Rightarrow> 'f ldr \<Rightarrow> 'f ldr" where
  "gfx_find_gop fw handles [] s = s"
| "gfx_find_gop fw handles (i # is) s =
     (let (status, g, f) = handle_protocol fw (handles i) gop_guid (gop s) (l_fw s);
          s = s\<lparr>gop := g, l_fw := f\<rparr>
      in if status = efi_success then s else gfx_find_gop fw handles is s)"

lemma index_measure_less: "i < unat (n :: u32) \<Longrightarrow> (2 ^ 32 :: nat) - Suc i < 2 ^ 32 - i"
  using unat_lt_power[of n] by (intro diff_less_mono2) simp_all

text \<open>The loop reads \<open>max_mode\<close> from the firmware's structure in every iteration.\<close>

function gfx_best_mode :: "'f efi \<Rightarrow> u64 \<Rightarrow> nat \<Rightarrow> u32 \<times> u32 \<times> 'f \<Rightarrow> u32 \<times> u32 \<times> 'f" where
  "gfx_best_mode fw g i (current_mode, current_width, f) =
     (if i < unat (max_mode (gop_mode_of fw g f)) then
        let (status, res, f) = query_mode fw g (of_nat i) f
        in if status = efi_success \<and> horizontal_resolution res \<ge> current_width
           then gfx_best_mode fw g (Suc i) (of_nat i, horizontal_resolution res, f)
           else gfx_best_mode fw g (Suc i) (current_mode, current_width, f)
      else (current_mode, current_width, f))"
  by pat_completeness auto

termination
  by (relation "measure (\<lambda>(fw, g, i, st). 2 ^ 32 - i)")
    (simp_all only: wf_measure in_measure case_prod_conv index_measure_less)

declare gfx_best_mode.simps [simp del]

definition efi_gfx_init :: "'f efi \<Rightarrow> image \<Rightarrow> 'f ldr \<Rightarrow> 'f ldr option" where
  "efi_gfx_init fw font s =
     (let (status, count, handles, f) = locate_handle_buffer fw gop_guid 0 (l_fw s);
          s = s\<lparr>l_fw := f\<rparr>
      in if status \<noteq> efi_success then Some (log (Log (''Failed to get handle buffer'' @ [CHR 0x0D] @ endl)) s)
         else
           let s = gfx_find_gop fw handles [0..<unat count] s
           in if gop s = 0 then None
              else
                let md = gop_mode_of fw (gop s) (l_fw s);
                    (best, width, f) = gfx_best_mode fw (gop s) 0
                      (mode md, horizontal_resolution (info md), l_fw s);
                    (status, f) =
                      (if best \<noteq> mode (gop_mode_of fw (gop s) f) then set_mode fw (gop s) best f
                       else (efi_success, f));
                    s = s\<lparr>l_fw := f\<rparr>
                in if status \<noteq> efi_success then Some s
                   else
                     let res = info (gop_mode_of fw (gop s) (l_fw s))
                     in Some (s\<lparr>l_fw := blt fw (gop s)
                          \<lparr>blt_buffer = image_data font, blt_op = video_fill, source_x = 0, source_y = 0,
                           dest_x = 0, dest_y = 0,
                           blt_width = ucast (horizontal_resolution res),
                           blt_height = ucast (vertical_resolution res), delta = 0\<rparr> (l_fw s)\<rparr>))"

definition efi_gfx_get_res :: "'f efi \<Rightarrow> 'f ldr \<Rightarrow> u64 \<times> u64" where
  "efi_gfx_get_res fw s =
     (let res = info (gop_mode_of fw (gop s) (l_fw s))
      in (ucast (horizontal_resolution res), ucast (vertical_resolution res)))"

definition efi_gfx_get_char_size :: "image \<Rightarrow> u64 \<times> u64" where
  "efi_gfx_get_char_size font = (image_width font div 32, image_height font div 8)"

section \<open>input.cc\<close>

text \<open>\<open>key\<close> is not initialised, so its first value is an argument.\<close>

partial_function (option) input_loop :: "'f efi \<Rightarrow> efi_stip_key \<Rightarrow> 'f \<Rightarrow> 'f option" where
  "input_loop fw key f =
     (let f = wait_for_event fw f;
          (key, f) = read_key_stroke fw key f;
          f = reset_stip fw f
      in if unicode_char key \<noteq> 0 \<or> scan_code key \<noteq> 0 then Some f else input_loop fw key f)"

definition efi_input_wait_for_key :: "'f efi \<Rightarrow> efi_stip_key \<Rightarrow> 'f ldr \<Rightarrow> 'f ldr option" where
  "efi_input_wait_for_key fw key s = map_option (\<lambda>f. s\<lparr>l_fw := f\<rparr>) (input_loop fw key (l_fw s))"

section \<open>Mode selection\<close>

text \<open>
  With a firmware whose mode queries have no side effect: the chosen mode has the largest width of
  the current mode and all modes that can be queried, and is the last one with that width.
\<close>

lemma gfx_best_mode_widest:
  assumes query: "\<And>i f. query_mode fw g (of_nat i) f = (st i, res i, f)"
    and n: "unat (max_mode (gop_mode_of fw g f)) = n"
    and run: "gfx_best_mode fw g k (m, w, f) = (m', w', f')"
  defines "ok \<equiv> \<lambda>i. k \<le> i \<and> i < n \<and> st i = efi_success"
  shows "f' = f" and "w \<le> w'" and "\<forall>i. ok i \<longrightarrow> horizontal_resolution (res i) \<le> w'"
    and "m' = m \<and> w' = w \<or> (\<exists>i. ok i \<and> m' = of_nat i \<and> horizontal_resolution (res i) = w')"
proof -
  have "f' = f \<and> w \<le> w' \<and> (\<forall>i. ok i \<longrightarrow> horizontal_resolution (res i) \<le> w') \<and>
     (m' = m \<and> w' = w \<or> (\<exists>i. ok i \<and> m' = of_nat i \<and> horizontal_resolution (res i) = w'))"
    using run unfolding ok_def
  proof (induction "n - k" arbitrary: k m w)
    case 0
    then show ?case using n by (auto simp: gfx_best_mode.simps[of fw g k])
  next
    case (Suc d)
    then have k: "k < n" "d = n - Suc k" by simp_all
    let ?take = "st k = efi_success \<and> horizontal_resolution (res k) \<ge> w"
    have step: "gfx_best_mode fw g (Suc k)
        (if ?take then (of_nat k, horizontal_resolution (res k), f) else (m, w, f)) = (m', w', f')"
      using Suc.prems k n query[of k f]
      by (auto simp: gfx_best_mode.simps[of fw g k] split: if_splits)
    have split: "k \<le> i \<longleftrightarrow> i = k \<or> Suc k \<le> i" for i by auto
    show ?case
    proof (cases ?take)
      case True
      with Suc.hyps(1)[OF k(2), of "of_nat k" "horizontal_resolution (res k)"] step k
      show ?thesis unfolding split by (auto intro: order_trans)
    next
      case False
      with Suc.hyps(1)[OF k(2), of m w] step k
      show ?thesis unfolding split by auto
    qed
  qed
  then show "f' = f" "w \<le> w'" "\<forall>i. ok i \<longrightarrow> horizontal_resolution (res i) \<le> w'"
    "m' = m \<and> w' = w \<or> (\<exists>i. ok i \<and> m' = of_nat i \<and> horizontal_resolution (res i) = w')"
    by blast+
qed

section \<open>Glyphs\<close>

lemma glyph_ascii:
  assumes "c < 128"
  shows "unat (glyph_x c) = unat c mod 32" and "unat (glyph_y c) = unat c div 32"
proof -
  have "uint c < 128" using assms by (simp add: word_less_def)
  then have "take_bit 7 (uint c) = uint c" by (intro take_bit_int_eq_self) simp_all
  then have s: "sint c = uint c"
    using \<open>uint c < 128\<close> by (simp add: sint_uint signed_take_bit_eq_if_positive bit_iff_odd)
  have d: "sint c smod 32 = uint c mod 32" "sint c sdiv 32 = uint c div 32"
    by (cases "c = 0"; simp add: s signed_modulo_int_def signed_divide_int_def)+
  have r: "take_bit LENGTH(64) (uint c mod 32) = uint c mod 32"
    "take_bit LENGTH(64) (uint c div 32) = uint c div 32"
    using \<open>uint c < 128\<close> by (auto intro!: take_bit_int_eq_self simp: pos_imp_zdiv_nonneg_iff
      intro: order.strict_trans[of _ 32])
  show "unat (glyph_x c) = unat c mod 32" "unat (glyph_y c) = unat c div 32"
    unfolding glyph_x_def glyph_y_def d unat_eq_nat_uint uint_word_of_int_eq
    by (simp_all only: r nat_mod_distrib nat_div_distrib uint_ge_0 zero_le_numeral nat_numeral)
qed

section \<open>Waiting for a key\<close>

definition input_once :: "'f efi \<Rightarrow> efi_stip_key \<times> 'f \<Rightarrow> efi_stip_key \<times> 'f" where
  "input_once fw kf = (let (key, f) = read_key_stroke fw (fst kf) (wait_for_event fw (snd kf))
     in (key, reset_stip fw f))"

definition pressed :: "efi_stip_key \<Rightarrow> bool" where
  "pressed key \<longleftrightarrow> unicode_char key \<noteq> 0 \<or> scan_code key \<noteq> 0"

lemma input_loop_once:
  "input_loop fw key f =
     (let (key', f') = input_once fw (key, f) in if pressed key' then Some f' else input_loop fw key' f')"
  by (subst input_loop.simps) (simp add: input_once_def pressed_def Let_def split: prod.splits)

text \<open>The \<open>n\<close>-th key that is read, counted from 0, and the firmware state after it.\<close>

definition poll :: "'f efi \<Rightarrow> nat \<Rightarrow> efi_stip_key \<times> 'f \<Rightarrow> efi_stip_key \<times> 'f" where
  "poll fw n kf = (input_once fw ^^ Suc n) kf"

lemma poll_0: "poll fw 0 kf = input_once fw kf"
  by (simp add: poll_def)

lemma poll_Suc: "poll fw (Suc n) kf = poll fw n (input_once fw kf)"
  by (simp add: poll_def funpow_swap1)

lemma input_loop_first:
  "pressed (fst (poll fw n (key, f))) \<Longrightarrow> \<forall>m < n. \<not> pressed (fst (poll fw m (key, f))) \<Longrightarrow>
   input_loop fw key f = Some (snd (poll fw n (key, f)))"
proof (induction n arbitrary: key f)
  case 0
  then show ?case
    by (cases "input_once fw (key, f)") (simp add: poll_0 input_loop_once[of fw key f])
next
  case (Suc n)
  obtain key' f' where o: "input_once fw (key, f) = (key', f')" by fastforce
  have "\<not> pressed key'" using Suc.prems(2) o by (auto simp: poll_0 dest: spec[of _ 0])
  moreover have "\<forall>m < n. \<not> pressed (fst (poll fw m (key', f')))"
  proof (intro allI impI)
    fix m
    assume "m < n"
    then show "\<not> pressed (fst (poll fw m (key', f')))"
      using Suc.prems(2)[rule_format, of "Suc m"] o by (simp add: poll_Suc)
  qed
  ultimately show ?case
    using Suc.IH[of key' f'] Suc.prems(1) o by (simp add: poll_Suc input_loop_once[of fw key f])
qed

lemma input_loop_pressed: "input_loop fw key f = Some f' \<Longrightarrow> \<exists>n. pressed (fst (poll fw n (key, f)))"
proof (erule input_loop.raw_induct[rotated, where P = "\<lambda>fw key f _. \<exists>n. pressed (fst (poll fw n (key, f)))"])
  fix loop and fw :: "'a efi" and key f y
  assume IH: "\<And>fw key f y. loop fw key f = Some y \<Longrightarrow> \<exists>n. pressed (fst (poll fw n (key, f)))"
    and step: "(let f = wait_for_event fw f; (key, f) = read_key_stroke fw key f; f = reset_stip fw f
      in if unicode_char key \<noteq> 0 \<or> scan_code key \<noteq> 0 then Some f else loop fw key f) = Some y"
  obtain key' f' where o: "input_once fw (key, f) = (key', f')" by fastforce
  show "\<exists>n. pressed (fst (poll fw n (key, f)))"
  proof (cases "pressed key'")
    case True
    then show ?thesis using o by (intro exI[of _ 0]) (simp add: poll_0)
  next
    case False
    then have "loop fw key' f' = Some y"
      using step o by (simp add: input_once_def pressed_def Let_def split: prod.splits if_splits)
    then obtain n where "pressed (fst (poll fw n (key', f')))" using IH by blast
    then show ?thesis using o by (intro exI[of _ "Suc n"]) (simp add: poll_Suc)
  qed
qed

section \<open>Properties\<close>


end
