(* ===== verification/Libc.thy ===== *)
theory Libc
  imports Memory
begin

text \<open>
  The string routines of \<^verbatim>\<open>freestanding/libc\<close>: \<open>strcmp\<close> and \<open>strlen\<close> (string.cc) on the
  flat memory, and \<open>itoa\<close> (itoa.cc), whose buffer is the list of bytes it stores. A loop that may
  run forever is a partial function, so \<open>None\<close> is "does not return" (for \<open>itoa\<close> also the divide
  error of radix 0). The locale \<open>string_compare\<close> is what the ELF mapper needs of \<open>strcmp\<close>.
\<close>

section \<open>C strings in memory\<close>

primrec cstr :: "mem \<Rightarrow> u64 \<Rightarrow> u8 list \<Rightarrow> bool" where
  "cstr m a [] \<longleftrightarrow> m a = 0"
| "cstr m a (x # xs) \<longleftrightarrow> x \<noteq> 0 \<and> m a = x \<and> cstr m (a + 1) xs"

lemma cstr_unique: "cstr m a xs \<Longrightarrow> cstr m a ys \<Longrightarrow> xs = ys"
proof (induction xs arbitrary: a ys)
  case Nil
  then show ?case by (cases ys) auto
next
  case (Cons x xs)
  then show ?case by (cases ys) auto
qed

partial_function (option) strcmp :: "mem \<Rightarrow> u64 \<Rightarrow> u64 \<Rightarrow> int option" where
  "strcmp m a b =
     (if m a \<noteq> 0 then
        (if m a \<noteq> m b then Some (uint (m a) - uint (m b)) else strcmp m (a + 1) (b + 1))
      else Some (uint (m a) - uint (m b)))"

partial_function (option) strlen_loop :: "mem \<Rightarrow> u64 \<Rightarrow> u64 option" where
  "strlen_loop m str = (if m str \<noteq> 0 then strlen_loop m (str + 1) else Some (str + 1))"

definition strlen :: "mem \<Rightarrow> u64 \<Rightarrow> u64 option" where
  "strlen m str = map_option (\<lambda>end. end - str) (strlen_loop m str)"

lemma strcmp_cstr:
  "cstr m a xs \<Longrightarrow> cstr m b ys \<Longrightarrow>
     \<exists>r. strcmp m a b = Some r \<and> (r = 0 \<longleftrightarrow> xs = ys) \<and> (r < 0 \<longleftrightarrow> ord_class.lexordp xs ys)"
proof (induction xs arbitrary: a b ys)
  case Nil
  then show ?case
    by (cases ys) (auto simp: strcmp.simps[of m a b] uint_0_iff word_neq_0_conv word_less_def)
next
  case (Cons x xs)
  show ?case
  proof (cases ys)
    case Nil
    then show ?thesis using Cons.prems
      by (auto simp: strcmp.simps[of m a b] uint_0_iff)
  next
    case (Cons y ys')
    show ?thesis
    proof (cases "x = y")
      case True
      then have "strcmp m a b = strcmp m (a + 1) (b + 1)"
        using Cons.prems Cons by (subst strcmp.simps) auto
      then show ?thesis
        using Cons.IH[of "a + 1" "b + 1" ys'] Cons.prems Cons True by auto
    next
      case False
      then show ?thesis
        using Cons.prems Cons
        by (auto simp: strcmp.simps[of m a b] word_less_def word_uint_eq_iff)
    qed
  qed
qed

lemma strlen_loop_cstr: "cstr m a xs \<Longrightarrow> strlen_loop m a = Some (a + of_nat (length xs) + 1)"
proof (induction xs arbitrary: a)
  case Nil
  then show ?case by (simp add: strlen_loop.simps[of m a])
next
  case (Cons x xs)
  then show ?case by (simp add: strlen_loop.simps[of m a])
qed

section \<open>What a user of strcmp relies on\<close>

locale string_compare =
  fixes cmp :: "'m \<Rightarrow> 'p \<Rightarrow> 'p \<Rightarrow> int option"
    and is_string :: "'m \<Rightarrow> 'p \<Rightarrow> 'c list \<Rightarrow> bool"
  assumes cmp_zero: "is_string m a xs \<Longrightarrow> is_string m b ys \<Longrightarrow> \<exists>r. cmp m a b = Some r \<and> (r = 0 \<longleftrightarrow> xs = ys)"
begin

lemma cmp_eq: "is_string m a xs \<Longrightarrow> is_string m b ys \<Longrightarrow> cmp m a b = Some 0 \<longleftrightarrow> xs = ys"
  using cmp_zero[of m a xs b ys] by auto

lemma cmp_returns: "is_string m a xs \<Longrightarrow> is_string m b ys \<Longrightarrow> cmp m a b \<noteq> None"
  using cmp_zero[of m a xs b ys] by auto

end

interpretation libc_cmp: string_compare strcmp cstr
  by unfold_locales (use strcmp_cstr in blast)

section \<open>itoa\<close>

definition digit_char :: "u64 \<Rightarrow> u8" where
  "digit_char digit = (if digit < 10 then 48 + ucast digit else 65 + ucast digit - 10)"

partial_function (option) itoa_digits :: "u64 \<Rightarrow> u32 \<Rightarrow> u8 list \<Rightarrow> u8 list option" where
  "itoa_digits v radix buff =
     (if radix = 0 then None
      else if v div ucast radix > 0
        then itoa_digits (v div ucast radix) radix (buff @ [digit_char (v mod ucast radix)])
        else Some (buff @ [digit_char (v mod ucast radix)]))"

definition itoa_reverse :: "u8 list \<Rightarrow> u8 list" where
  "itoa_reverse buff =
     (let len = length buff in
      for_range 0 (len div 2)
        (\<lambda>i b. let tmp = b ! i in (b[i := b ! (len - i - 1)])[len - i - 1 := tmp]) buff)"

definition itoa :: "u64 \<Rightarrow> u32 \<Rightarrow> u32 \<Rightarrow> u32 \<Rightarrow> (nat \<times> u8 list) option" where
  "itoa v radix sign pad =
     (if radix > 16 then Some (0, [0])
      else
        let neg = (sign \<noteq> 0 \<and> v < 0);
            v' = (if neg then - v else v)
        in case itoa_digits v' radix [] of
             None \<Rightarrow> None
           | Some b1 \<Rightarrow>
               let b2 = b1 @ replicate (unat pad - length b1) 0;
                   b3 = (if neg then b2 @ [45] else b2)
               in Some (length b3, itoa_reverse b3 @ [0]))"

text \<open>The reference: the digits of a number, most significant first, and their value.\<close>

fun digits_of :: "nat \<Rightarrow> nat \<Rightarrow> nat list" where
  "digits_of r v = (if r < 2 \<or> v < r then [v] else digits_of r (v div r) @ [v mod r])"

declare digits_of.simps [simp del]

definition digits_value :: "nat \<Rightarrow> nat list \<Rightarrow> nat" where
  "digits_value r ds = foldl (\<lambda>acc d. acc * r + d) 0 ds"

lemma digits_of_less: "2 \<le> r \<Longrightarrow> d \<in> set (digits_of r v) \<Longrightarrow> d < r"
proof (induction r v rule: digits_of.induct)
  case (1 r v)
  show ?case
  proof (cases "v < r")
    case True
    then show ?thesis using "1.prems" by (simp add: digits_of.simps[of r v])
  next
    case False
    then have "digits_of r v = digits_of r (v div r) @ [v mod r]"
      using "1.prems"(1) by (simp add: digits_of.simps[of r v])
    then show ?thesis using "1.prems" "1.IH" False by auto
  qed
qed

lemma digits_value_append: "digits_value r (ds @ [d]) = digits_value r ds * r + d"
  by (simp add: digits_value_def)

lemma digits_value_of: "2 \<le> r \<Longrightarrow> digits_value r (digits_of r v) = v"
proof (induction r v rule: digits_of.induct)
  case (1 r v)
  show ?case
  proof (cases "v < r")
    case True
    then show ?thesis by (simp add: digits_of.simps[of r v] digits_value_def)
  next
    case False
    then have "digits_of r v = digits_of r (v div r) @ [v mod r]"
      using "1.prems" by (simp add: digits_of.simps[of r v])
    then show ?thesis using "1.prems" "1.IH" False by (simp add: digits_value_append)
  qed
qed

lemma digits_of_no_leading_zero: "2 \<le> r \<Longrightarrow> 0 < v \<Longrightarrow> hd (digits_of r v) \<noteq> 0"
proof (induction r v rule: digits_of.induct)
  case (1 r v)
  show ?case
  proof (cases "v < r")
    case True
    then show ?thesis using "1.prems" by (simp add: digits_of.simps[of r v])
  next
    case False
    then have "digits_of r v = digits_of r (v div r) @ [v mod r]" and "0 < v div r"
      using "1.prems" by (simp_all add: digits_of.simps[of r v] div_greater_zero_iff)
    moreover have "digits_of r (v div r) \<noteq> []" by (subst digits_of.simps) simp
    ultimately show ?thesis using "1.prems" "1.IH" False by simp
  qed
qed

lemma digits_of_length:
  "2 \<le> r \<Longrightarrow> 0 < n \<Longrightarrow> v < r ^ n \<Longrightarrow> length (digits_of r v) \<le> n"
proof (induction n arbitrary: v)
  case 0
  then show ?case by simp
next
  case (Suc n)
  show ?case
  proof (cases "v < r")
    case True
    then show ?thesis by (simp add: digits_of.simps[of r v])
  next
    case False
    then have "0 < n" using Suc.prems(3) by (cases n) auto
    moreover have "v div r < r ^ n"
      using Suc.prems by (simp add: div_less_iff_less_mult mult.commute)
    ultimately have "length (digits_of r (v div r)) \<le> n" using Suc by simp
    then show ?thesis using False Suc.prems(1) by (simp add: digits_of.simps[of r v])
  qed
qed

definition digit_text :: "nat \<Rightarrow> nat \<Rightarrow> u8 list" where
  "digit_text r v = map (\<lambda>d. digit_char (of_nat d)) (digits_of r v)"

lemma itoa_digits_text:
  assumes "2 \<le> radix" and "radix \<le> 16"
  shows "itoa_digits v radix buff = Some (buff @ rev (digit_text (unat radix) (unat v)))"
proof (induction "unat v" arbitrary: v buff rule: less_induct)
  case less
  let ?r = "ucast radix :: u64"
  have r: "unat ?r = unat radix" and r2: "2 \<le> unat radix" and "radix \<noteq> 0"
    using assms by (auto simp: unsigned_ucast_eq word_le_nat_alt take_bit_nat_eq_self)
  have d: "unat (v div ?r) = unat v div unat radix" and m: "unat (v mod ?r) = unat v mod unat radix"
    using r by (simp_all add: unat_div unat_mod)
  have last: "digit_char (v mod ?r) = digit_char (of_nat (unat v mod unat radix))"
    by (simp only: m[symmetric] of_nat_unat ucast_id)
  show ?case
  proof (cases "unat v < unat radix")
    case True
    then have "v div ?r = 0" using d by (simp add: unat_eq_zero[symmetric])
    then show ?thesis
      using \<open>radix \<noteq> 0\<close> last True
      by (simp add: itoa_digits.simps[of v] digit_text_def digits_of.simps[of "unat radix" "unat v"])
  next
    case False
    then have "0 < unat v div unat radix" using r2 by (simp add: div_greater_zero_iff)
    then have "v div ?r > 0" using d by (simp add: word_less_nat_alt)
    moreover have "unat (v div ?r) < unat v" using d False r2 by simp
    ultimately show ?thesis
      using \<open>radix \<noteq> 0\<close> last less[of "v div ?r"] d r2 False
      by (simp add: itoa_digits.simps[of v] digit_text_def digits_of.simps[of "unat radix" "unat v"])
  qed
qed

lemma itoa_reverse_rev: "itoa_reverse b = rev b"
proof -
  define n where "n = length b"
  define f where "f = (\<lambda>i (b :: u8 list). let tmp = b ! i in (b[i := b ! (n - i - 1)])[n - i - 1 := tmp])"
  define I where "I = (\<lambda>k c. length c = n \<and>
    (\<forall>j < n. c ! j = (if j < k \<or> n - k \<le> j then b ! (n - j - 1) else b ! j)))"
  have "I (n div 2) (for_range 0 (n div 2) f b)"
  proof (rule for_range_inv)
    show "I 0 b" by (auto simp: I_def n_def)
    show "I (Suc i) (f i c)" if "i < n div 2" and "I i c" for i c
      using that by (auto simp: I_def f_def nth_list_update)
  qed simp
  moreover have "n - Suc i = i" if "\<not> i < n div 2" and "\<not> n - n div 2 \<le> i" for i
    using that by presburger
  ultimately have "for_range 0 (n div 2) f b = rev b"
    by (intro nth_equalityI) (auto simp: I_def n_def rev_nth)
  then show ?thesis by (simp add: itoa_reverse_def f_def n_def)
qed

lemma digit_char_nonzero: "d < 16 \<Longrightarrow> digit_char (of_nat d) \<noteq> 0"
proof -
  assume "d < 16"
  then have "d \<in> set [0..<16]" by simp
  then show ?thesis by (auto simp: digit_char_def upt_rec)
qed

lemma itoa_text:
  assumes "2 \<le> radix" and "radix \<le> 16"
  shows "itoa v radix sign pad =
    (let ds = digit_text (unat radix) (unat v); z = unat pad - length ds
     in Some (z + length ds, replicate z 0 @ ds @ [0]))"
proof -
  have "\<not> radix > 16" using assms(2) by simp
  then show ?thesis
    using itoa_digits_text[OF assms, of v "[]"]
    by (simp add: itoa_def itoa_reverse_rev Let_def)
qed

lemma digit_text_nonzero:
  "2 \<le> r \<Longrightarrow> r \<le> 16 \<Longrightarrow> c \<in> set (digit_text r v) \<Longrightarrow> c \<noteq> 0"
  unfolding digit_text_def using digit_char_nonzero digits_of_less[of r] by fastforce

section \<open>Properties\<close>

text \<open>
  C40. \<open>strcmp\<close> decides equality and order of C strings: on two NUL terminated strings it
  returns, with 0 exactly when the strings are the same and a negative value exactly when the
  first is smaller in the byte-wise lexicographic order.
\<close>

theorem strcmp_orders_strings:
  assumes "cstr m a xs" and "cstr m b ys"
  shows "\<exists>r. strcmp m a b = Some r \<and> (r = 0 \<longleftrightarrow> xs = ys) \<and> (r < 0 \<longleftrightarrow> ord_class.lexordp xs ys)"
  using assms by (rule strcmp_cstr)

theorem strcmp_orders_strings_witness:
  "\<exists>r. strcmp (\<lambda>p. if p = 0 then 65 else if p = 16 then 66 else 0) 0 16 = Some r \<and> r < 0 \<and> r \<noteq> 0"
proof -
  let ?m = "\<lambda>p :: u64. if p = 0 then (65 :: u8) else if p = 16 then 66 else 0"
  have "cstr ?m 0 [65]" and "cstr ?m 16 [66]" by simp_all
  then show ?thesis using strcmp_orders_strings[of ?m 0 "[65]" 16 "[66]"] by auto
qed

text \<open>
  \<open>strlen\<close> returns on every NUL terminated string, with one more than the number of
  characters: the pointer has already been moved past the terminator when the loop leaves.
\<close>

theorem strlen_counts_terminator:
  assumes "cstr m a xs"
  shows "strlen m a = Some (of_nat (length xs) + 1)"
  using strlen_loop_cstr[OF assms] by (simp add: strlen_def)

theorem strlen_counts_terminator_witness:
  "strlen (\<lambda>p. if p < 3 then 97 else 0) 0 = Some 4"
proof -
  have "cstr (\<lambda>p. if p < 3 then 97 else 0) 0 [97, 97, 97]" by simp
  from strlen_counts_terminator[OF this] show ?thesis by simp
qed

text \<open>
  C39. For a radix between 2 and 16 and no padding \<open>itoa\<close> returns, and the text it leaves in the
  buffer is the number: the characters are those of its digits, most significant first, the
  digits' value is the argument, there is no leading zero, and a NUL ends the text. The sign
  argument has no effect.
\<close>

theorem itoa_roundtrip:
  assumes "2 \<le> radix" and "radix \<le> 16"
  shows "\<exists>ds. itoa v radix sign 0 =
      Some (length ds, map (\<lambda>d. digit_char (of_nat d)) ds @ [0])
    \<and> digits_value (unat radix) ds = unat v
    \<and> (\<forall>d \<in> set ds. d < unat radix)
    \<and> (v \<noteq> 0 \<longrightarrow> hd ds \<noteq> 0)"
proof (intro exI conjI)
  have r: "2 \<le> unat radix" using assms(1) by (simp add: word_le_nat_alt)
  show "itoa v radix sign 0 =
      Some (length (digits_of (unat radix) (unat v)),
        map (\<lambda>d. digit_char (of_nat d)) (digits_of (unat radix) (unat v)) @ [0])"
    using itoa_text[OF assms] by (simp add: digit_text_def)
  show "digits_value (unat radix) (digits_of (unat radix) (unat v)) = unat v"
    using r by (rule digits_value_of)
  show "\<forall>d \<in> set (digits_of (unat radix) (unat v)). d < unat radix"
    using digits_of_less[OF r] by blast
  show "v \<noteq> 0 \<longrightarrow> hd (digits_of (unat radix) (unat v)) \<noteq> 0"
    using digits_of_no_leading_zero[OF r] by (simp add: unat_gt_0)
qed

theorem itoa_roundtrip_witness:
  "\<exists>ds. itoa 0x1AF 16 1 0 = Some (length ds, map (\<lambda>d. digit_char (of_nat d)) ds @ [0])
     \<and> digits_value 16 ds = 0x1AF"
  using itoa_roundtrip[of 16 "0x1AF" 1] by auto

text \<open>
  Padding stores NUL bytes and not zero digits, and the reversal moves them to the front: as
  soon as one byte of padding is needed the buffer reads as the empty string.
\<close>

theorem itoa_padding_hides_number:
  assumes "2 \<le> radix" and "radix \<le> 16" and "length (digits_of (unat radix) (unat v)) < unat pad"
  shows "\<exists>n bytes. itoa v radix sign pad = Some (n, 0 # bytes) \<and> n = unat pad"
  using assms(3) itoa_text[OF assms(1,2), of v sign pad]
  by (auto simp: Let_def digit_text_def Suc_diff_Suc[symmetric])

theorem itoa_padding_hides_number_witness:
  "\<exists>n bytes. itoa 5 10 0 4 = Some (n, 0 # bytes) \<and> n = 4"
  using itoa_padding_hides_number[of 10 5 4 0] by (simp add: digits_of.simps)

lemma itoa_digits_radix_1:
  assumes "v \<noteq> 0"
  shows "itoa_digits v 1 buff = None"
proof (rule ccontr)
  assume "itoa_digits v 1 buff \<noteq> None"
  then obtain r where "itoa_digits v 1 buff = Some r" by auto
  then have "1 = (1 :: u32) \<longrightarrow> v = 0"
    by (rule itoa_digits.raw_induct[where P = "\<lambda>v radix b r. radix = 1 \<longrightarrow> v = 0", rotated])
      (auto split: if_splits simp: word_neq_0_conv[symmetric])
  with assms show False by simp
qed

text \<open>
  A radix above 16 is refused with the empty string and length 0; radix 0 divides by zero
  and radix 1 never leaves the digit loop for a non-zero number, so neither returns.
\<close>

theorem itoa_bad_radix:
  "(16 < radix \<longrightarrow> itoa v radix sign pad = Some (0, [0]))
   \<and> itoa v 0 sign pad = None \<and> (v \<noteq> 0 \<longrightarrow> itoa v 1 sign pad = None)"
  by (auto simp: itoa_def Let_def itoa_digits_radix_1 itoa_digits.simps[of _ 0])

theorem itoa_bad_radix_witness:
  "itoa 7 36 0 0 = Some (0, [0]) \<and> itoa 7 1 0 0 = None"
  using itoa_bad_radix[of 36 7 0 0] by simp

end
