(* ===== verification/Console.thy ===== *)
theory Console
  imports Gfx Libc
begin

text \<open>
  The text console of the loader (\<^verbatim>\<open>loader/efi/console.cc\<close>) and the core number it asks for
  (\<^verbatim>\<open>loader/efi/mp.cc\<close>). The cells are bytes of a buffer the firmware allocates. A \<open>row\<close> of the code is
  a position in a line and a \<open>column\<close> is a line: \<open>rows\<close> is 120 and \<open>columns\<close> is 70. The console is
  shown to implement an abstract screen of 16800 cells and to write to no other memory.
\<close>

section \<open>mp.cc\<close>

definition efi_mp_init :: "'f efi \<Rightarrow> 'f ldr \<Rightarrow> 'f ldr" where
  "efi_mp_init fw s = (let (p, f) = locate_protocol fw mp_guid (mp s) (l_fw s) in s\<lparr>mp := p, l_fw := f\<rparr>)"

definition efi_mp_whoami :: "'f efi \<Rightarrow> 'f ldr \<Rightarrow> u64" where
  "efi_mp_whoami fw s = mp_whoami fw (mp s) (l_fw s)"

definition efi_mp_get_core_count :: "'f efi \<Rightarrow> 'f ldr \<Rightarrow> u64" where
  "efi_mp_get_core_count fw s = get_processor_count fw (mp s) (l_fw s)"

section \<open>console.cc\<close>

text \<open>What the console runs on: firmware, generated images, the uninitialised key of input.cc.\<close>

record 'f screen =
  scr_fw :: "'f efi"
  font :: image
  logo :: image
  stale_key :: efi_stip_key

definition efi_console_init :: "'f screen \<Rightarrow> 'f ldr \<Rightarrow> 'f ldr" where
  "efi_console_init e s =
     (let (screen_width, screen_height) = efi_gfx_get_res (scr_fw e) s;
          (cw, ch) = efi_gfx_get_char_size (font e);
          n = 120 * 70 * 1 * 2;
          (status, buf, f) = allocate_pages (scr_fw e) allocate_any_pages boot_services_data
            (NUM_PAGES n) (buffer (ctx s)) (l_fw s)
      in s\<lparr>l_mem := stosb (l_mem s) buf 0 n, l_fw := f,
           ctx := \<lparr>rows = 120, columns = 70, current_row = 0, current_column = 0,
                   buffer = buf, buffer_size = n, char_width = cw, char_height = ch\<rparr>\<rparr>)"

definition efi_console_setcell :: "u64 \<Rightarrow> u64 \<Rightarrow> u8 \<Rightarrow> u8 \<Rightarrow> 'f ldr \<Rightarrow> 'f ldr" where
  "efi_console_setcell x y character attribute s =
     (let idx = y * rows (ctx s) + x; b = buffer (ctx s)
      in s\<lparr>l_mem := (l_mem s)(b + idx := character, b + (idx + 1) := attribute)\<rparr>)"

definition efi_console_fill :: "u8 \<Rightarrow> u8 \<Rightarrow> 'f ldr \<Rightarrow> 'f ldr" where
  "efi_console_fill character attribute s =
     for_range 0 (unat (columns (ctx s))) (\<lambda>y s.
       for_range 0 (unat (rows (ctx s))) (\<lambda>x s.
         efi_console_setcell (of_nat x) (of_nat y) character attribute s) s) s"

definition efi_console_draw :: "'f screen \<Rightarrow> 'f ldr \<Rightarrow> 'f ldr" where
  "efi_console_draw e s =
     (let s = for_range 0 (unat (columns (ctx s))) (\<lambda>y s.
            for_range 0 (unat (rows (ctx s))) (\<lambda>x s.
              let idx = of_nat y * rows (ctx s) + of_nat x;
                  character = l_mem s (buffer (ctx s) + idx)
              in efi_gfx_char (scr_fw e) (font e) (of_nat x * char_width (ctx s))
                   (of_nat y * char_height (ctx s)) character s) s) s;
          s = (if \<not> logo_drawn s
               then efi_gfx_blit (scr_fw e) (image_data (logo e)) (image_width (logo e))
                      (image_width (logo e)) (image_height (logo e))
                      (1920 - image_width (logo e)) (1080 - image_height (logo e)) 0 0 s
               else s)
      in s\<lparr>logo_drawn := True\<rparr>)"

definition console_page :: "'f screen \<Rightarrow> 'f ldr \<Rightarrow> 'f ldr option" where
  "console_page e s =
     (if current_column (ctx s) \<ge> columns (ctx s)
      then
        let s = s\<lparr>ctx := (ctx s)\<lparr>current_column := 0, current_row := 0\<rparr>\<rparr>
        in map_option (efi_console_fill 0x20 0) (efi_input_wait_for_key (scr_fw e) (stale_key e) s)
      else Some s)"

definition console_put :: "u8 \<Rightarrow> 'f ldr \<Rightarrow> 'f ldr" where
  "console_put c s =
     (if c = 10
      then s\<lparr>ctx := (ctx s)\<lparr>current_row := 0, current_column := current_column (ctx s) + 1\<rparr>\<rparr>
      else if c = 9
      then s\<lparr>ctx := (ctx s)\<lparr>current_row := current_row (ctx s) + 4\<rparr>\<rparr>
      else
        let s = efi_console_setcell (current_row (ctx s)) (current_column (ctx s)) c 0 s
        in s\<lparr>ctx := (ctx s)\<lparr>current_row := current_row (ctx s) + 1\<rparr>\<rparr>)"

partial_function (option) console_write_loop :: "'f screen \<Rightarrow> u64 \<Rightarrow> 'f ldr \<Rightarrow> 'f ldr option" where
  "console_write_loop e curr_char s =
     (if l_mem s curr_char = 0 then Some s
      else Option.bind (console_page e s)
        (\<lambda>s. console_write_loop e (curr_char + 1) (console_put (l_mem s curr_char) s)))"

definition efi_console_write :: "'f screen \<Rightarrow> u64 \<Rightarrow> 'f ldr \<Rightarrow> 'f ldr option" where
  "efi_console_write e message s =
     map_option (\<lambda>s. if efi_mp_whoami (scr_fw e) s = 0 then efi_console_draw e s else s)
       (console_write_loop e message s)"

text \<open>\<open>buff\<close> is the address of the 17 byte array on the stack.\<close>

definition efi_console_hex :: "'f screen \<Rightarrow> u64 \<Rightarrow> u64 \<Rightarrow> 'f ldr \<Rightarrow> 'f ldr option" where
  "efi_console_hex e buff number s =
     Option.bind (itoa number 16 1 0)
       (\<lambda>(len, text). efi_console_write e buff (s\<lparr>l_mem := store_bytes (l_mem s) buff text\<rparr>))"

section \<open>The abstract screen\<close>

text \<open>
  Position in the line, line, and the cells, numbered through: a line feed starts a line, a tab
  skips four cells, anything else is written to its cell and clears the cell behind it. On the
  line after the last the screen is filled with blanks and the text goes on at the top.
\<close>

type_synonym text_screen = "nat \<times> nat \<times> (nat \<Rightarrow> u8)"

definition screen_page :: "text_screen \<Rightarrow> text_screen" where
  "screen_page t = (case t of (r, l, g) \<Rightarrow>
     if l \<ge> 70 then (0, 0, \<lambda>i. if i < 8400 then 0x20 else if i = 8400 then 0 else g i) else (r, l, g))"

definition screen_put :: "u8 \<Rightarrow> text_screen \<Rightarrow> text_screen" where
  "screen_put c t = (case screen_page t of (r, l, g) \<Rightarrow>
     if c = 10 then (0, Suc l, g)
     else if c = 9 then (r + 4, l, g)
     else (Suc r, l, g(l * 120 + r := c, Suc (l * 120 + r) := 0)))"

text \<open>The cells of a text lie in the buffer; no bound is put on a line but that.\<close>

fun text_fits :: "u8 list \<Rightarrow> text_screen \<Rightarrow> bool" where
  "text_fits [] t \<longleftrightarrow> True"
| "text_fits (c # cs) t \<longleftrightarrow>
     (case screen_page t of (r, l, g) \<Rightarrow> r < 2 ^ 32 \<and> (c = 10 \<or> c = 9 \<or> Suc (l * 120 + r) < 16800))
     \<and> text_fits cs (screen_put c t)"

definition cell :: "'f ldr \<Rightarrow> nat \<Rightarrow> u8" where
  "cell s i = (if i < 16800 then l_mem s (buffer (ctx s) + of_nat i) else 0)"

definition screen_of :: "'f ldr \<Rightarrow> text_screen" where
  "screen_of s = (unat (current_row (ctx s)), unat (current_column (ctx s)), cell s)"

definition con_ok :: "'f ldr \<Rightarrow> bool" where
  "con_ok s \<longleftrightarrow> rows (ctx s) = 120 \<and> columns (ctx s) = 70 \<and> unat (current_column (ctx s)) \<le> 70
     \<and> buffer_size (ctx s) = 16800 \<and> unat (buffer (ctx s)) + 16800 \<le> 2 ^ 64"

definition confined :: "'f ldr \<Rightarrow> 'f ldr \<Rightarrow> bool" where
  "confined s s' \<longleftrightarrow> buffer (ctx s') = buffer (ctx s)
     \<and> (\<forall>b. 16800 \<le> unat (b - buffer (ctx s)) \<longrightarrow> l_mem s' b = l_mem s b)"

lemma confined_refl [simp]: "confined s s"
  by (simp add: confined_def)

lemma confined_trans [trans]: "confined s s' \<Longrightarrow> confined s' s'' \<Longrightarrow> confined s s''"
  by (auto simp: confined_def)

section \<open>Operations on cells\<close>

lemma unat_cell: "i < 16800 \<Longrightarrow> unat (of_nat i :: u64) = i"
  by (rule unat_of_nat_small) simp

lemma cell_inj: "i < 16800 \<Longrightarrow> j < 16800 \<Longrightarrow> (b :: u64) + of_nat i = b + of_nat j \<longleftrightarrow> i = j"
  using unat_cell[of i] unat_cell[of j] by (metis add_left_cancel)

lemma setcell_spec:
  assumes "con_ok s" and "Suc (y * 120 + x) < 16800"
    and s': "s' = efi_console_setcell (of_nat x) (of_nat y) c a s"
  shows "cell s' = (cell s)(y * 120 + x := c, Suc (y * 120 + x) := a)"
    and "ctx s' = ctx s" and "confined s s'" and "l_fw s' = l_fw s"
proof -
  let ?b = "buffer (ctx s)" and ?i = "y * 120 + x"
  have m: "l_mem s' = (l_mem s)(?b + of_nat ?i := c, ?b + of_nat (Suc ?i) := a)"
    using assms(1) by (simp add: s' efi_console_setcell_def con_ok_def Let_def add.commute)
  show ctx': "ctx s' = ctx s" "l_fw s' = l_fw s" by (simp_all add: s' efi_console_setcell_def Let_def)
  show "cell s' = (cell s)(?i := c, Suc ?i := a)"
  proof
    fix i
    show "cell s' i = ((cell s)(?i := c, Suc ?i := a)) i"
      using assms(2) cell_inj[of i ?i ?b] cell_inj[of i "Suc ?i" ?b]
      by (cases "i < 16800") (auto simp: cell_def ctx' m simp del: of_nat_Suc of_nat_add of_nat_mult)
  qed
  have "b \<noteq> ?b + of_nat i" if "16800 \<le> unat (b - ?b)" and "i < 16800" for b i
    using that unat_cell[of i] by auto
  then show "confined s s'"
    using assms(2) by (simp add: confined_def ctx' m del: of_nat_Suc of_nat_add of_nat_mult)
qed

text \<open>Filling runs over the cells in order, so only the last attribute survives.\<close>

definition filled :: "u8 \<Rightarrow> u8 \<Rightarrow> nat \<Rightarrow> (nat \<Rightarrow> u8) \<Rightarrow> nat \<Rightarrow> u8" where
  "filled c a n g = (if n = 0 then g else (\<lambda>i. if i < n then c else if i = n then a else g i))"

lemma filled_Suc: "(filled c a n g)(n := c, Suc n := a) = filled c a (Suc n) g"
  by (rule ext) (auto simp: filled_def)

lemma fill_spec:
  assumes "con_ok s"
  shows "cell (efi_console_fill c a s) = filled c a 8400 (cell s)"
    and "ctx (efi_console_fill c a s) = ctx s" and "confined s (efi_console_fill c a s)"
    and "l_fw (efi_console_fill c a s) = l_fw s"
proof -
  define I where "I = (\<lambda>n s'. cell s' = filled c a n (cell s) \<and> ctx s' = ctx s \<and> confined s s' \<and> l_fw s' = l_fw s)"
  have cell_step: "I (Suc (y * 120 + x)) (efi_console_setcell (of_nat x) (of_nat y) c a s')"
    if "I (y * 120 + x) s'" and "y * 120 + x < 8400" for x y s'
  proof -
    have "con_ok s'" using assms that(1) by (simp add: con_ok_def I_def)
    from setcell_spec[OF this _ refl, of y x c a] that show ?thesis
      by (auto simp: I_def filled_Suc intro: confined_trans)
  qed
  have line: "I (Suc y * 120) (for_range 0 (unat (rows (ctx s')))
      (\<lambda>x s. efi_console_setcell (of_nat x) (of_nat y) c a s) s')"
    if "I (y * 120) s'" and "y < 70" for y s'
  proof -
    have "unat (rows (ctx s')) = 120" using that(1) assms by (simp add: I_def con_ok_def)
    moreover have "I (y * 120 + 120) (for_range 0 120
        (\<lambda>x s. efi_console_setcell (of_nat x) (of_nat y) c a s) s')"
      by (rule for_range_inv[where I = "\<lambda>x. I (y * 120 + x)"]) (use that cell_step in auto)
    ultimately show ?thesis by (simp only: mult_Suc add.commute)
  qed
  have "I (70 * 120) (efi_console_fill c a s)"
  proof -
    have "unat (columns (ctx s)) = 70" using assms by (simp add: con_ok_def)
    moreover have "I (70 * 120) (for_range 0 70 (\<lambda>y s. for_range 0 (unat (rows (ctx s)))
        (\<lambda>x s. efi_console_setcell (of_nat x) (of_nat y) c a s) s) s)"
      by (rule for_range_inv[where I = "\<lambda>y. I (y * 120)"]) (use line in \<open>auto simp: I_def filled_def\<close>)
    ultimately show ?thesis by (simp add: efi_console_fill_def)
  qed
  then show "cell (efi_console_fill c a s) = filled c a 8400 (cell s)"
    "ctx (efi_console_fill c a s) = ctx s" "confined s (efi_console_fill c a s)"
    "l_fw (efi_console_fill c a s) = l_fw s"
    by (simp_all add: I_def)
qed

section \<open>Drawing\<close>

text \<open>Drawing changes neither memory nor the console, only the framebuffer behind \<open>blt\<close>.\<close>

lemma gfx_char_sel [simp]:
  "l_mem (efi_gfx_char fw fnt x y c s) = l_mem s" "ctx (efi_gfx_char fw fnt x y c s) = ctx s"
  by (simp_all add: efi_gfx_char_def efi_gfx_blit_def Let_def)

lemma draw_sel [simp]:
  fixes s :: "'a ldr"
  shows "l_mem (efi_console_draw e s) = l_mem s" "ctx (efi_console_draw e s) = ctx s"
proof -
  let ?body = "\<lambda>y x s. efi_gfx_char (scr_fw e) (font e) (of_nat x * char_width (ctx s))
      (of_nat y * char_height (ctx s)) (l_mem s (buffer (ctx s) + (of_nat y * rows (ctx s) + of_nat x))) s"
  define I where "I = (\<lambda>s' :: 'a ldr. l_mem s' = l_mem s \<and> ctx s' = ctx s)"
  have "I (for_range 0 n (?body y) s')" if "I s'" for n y s'
    by (rule for_range_inv[where I = "\<lambda>_. I"]) (use that in \<open>auto simp: I_def\<close>)
  then have "I (for_range 0 k (\<lambda>y s. for_range 0 (unat (rows (ctx s))) (?body y) s) s)" for k
    by (intro for_range_inv[where I = "\<lambda>_. I"]) (auto simp: I_def)
  then show "l_mem (efi_console_draw e s) = l_mem s" "ctx (efi_console_draw e s) = ctx s"
    by (simp_all add: efi_console_draw_def efi_gfx_blit_def I_def Let_def)
qed

section \<open>Writing\<close>

lemma console_page_spec:
  assumes "con_ok s" and "\<And>f. input_loop (scr_fw e) (stale_key e) f \<noteq> None"
  shows "\<exists>s'. console_page e s = Some s' \<and> screen_of s' = screen_page (screen_of s) \<and> con_ok s'
    \<and> unat (current_column (ctx s')) < 70 \<and> confined s s'"
proof (cases "current_column (ctx s) \<ge> columns (ctx s)")
  case True
  let ?s = "s\<lparr>ctx := (ctx s)\<lparr>current_column := 0, current_row := 0\<rparr>\<rparr>"
  obtain f where f: "input_loop (scr_fw e) (stale_key e) (l_fw s) = Some f" using assms(2) by blast
  let ?t = "?s\<lparr>l_fw := f\<rparr>"
  have ok: "con_ok ?t" using assms(1) by (simp add: con_ok_def)
  have "cell ?t = cell s" "confined s ?t" by (rule ext, simp_all add: cell_def confined_def)
  have "console_page e s = Some (efi_console_fill 0x20 0 ?t)"
    using True f by (simp add: console_page_def efi_input_wait_for_key_def Let_def)
  moreover have "screen_of (efi_console_fill 0x20 0 ?t) = screen_page (screen_of s)"
    using fill_spec[OF ok, of "0x20" 0] True assms(1) \<open>cell ?t = cell s\<close>
    by (auto simp: screen_of_def screen_page_def filled_def con_ok_def word_le_nat_alt)
  moreover have "con_ok (efi_console_fill 0x20 0 ?t)"
    using fill_spec[OF ok, of "0x20" 0] ok by (simp add: con_ok_def)
  moreover have "confined s (efi_console_fill 0x20 0 ?t)"
    using fill_spec(3)[OF ok, of "0x20" 0] \<open>confined s ?t\<close> by (blast intro: confined_trans)
  ultimately show ?thesis using fill_spec(2)[OF ok, of "0x20" 0] by auto
next
  case False
  then show ?thesis
    using assms(1) by (auto simp: console_page_def screen_of_def screen_page_def con_ok_def word_le_nat_alt)
qed

lemma console_put_spec:
  assumes "con_ok s" and "unat (current_column (ctx s)) < 70" and "unat (current_row (ctx s)) < 2 ^ 32"
    and "c = 10 \<or> c = 9 \<or> Suc (unat (current_column (ctx s)) * 120 + unat (current_row (ctx s))) < 16800"
  shows "screen_of (console_put c s) = screen_put c (screen_of s)"
    and "con_ok (console_put c s)" and "confined s (console_put c s)"
proof -
  let ?r = "current_row (ctx s)" and ?l = "current_column (ctx s)"
  have u: "unat (?r + 4) = unat ?r + 4" "unat (?r + 1) = Suc (unat ?r)" "unat (?l + 1) = Suc (unat ?l)"
    using assms(2,3) unat_add_small[of ?r 4] unat_add_small[of ?r 1] unat_add_small[of ?l 1] by simp_all
  have page: "screen_page (screen_of s) = screen_of s"
    using assms(2) by (simp add: screen_of_def screen_page_def)
  have "screen_of (console_put c s) = screen_put c (screen_of s) \<and> con_ok (console_put c s)
    \<and> confined s (console_put c s)"
  proof (cases "c = 10 \<or> c = 9")
    case True
    have "cell (console_put c s) = cell s"
      using True by (intro ext) (auto simp: cell_def console_put_def)
    then show ?thesis
      using True u assms(1,2) unfolding screen_put_def page
      by (auto simp: screen_of_def console_put_def con_ok_def confined_def)
  next
    case False
    let ?s = "efi_console_setcell ?r ?l c 0 s"
    have set: "cell ?s = (cell s)(unat ?l * 120 + unat ?r := c, Suc (unat ?l * 120 + unat ?r) := 0)"
      "ctx ?s = ctx s" "confined s ?s"
      using setcell_spec[OF assms(1), of "unat ?l" "unat ?r" ?s c 0] assms(4) False by simp_all
    have "cell (console_put c s) = cell ?s"
      using False by (intro ext) (auto simp: cell_def console_put_def Let_def)
    then show ?thesis
      using False u assms(1) set unfolding screen_put_def page
      by (auto simp: screen_of_def console_put_def con_ok_def confined_def Let_def)
  qed
  then show "screen_of (console_put c s) = screen_put c (screen_of s)"
    "con_ok (console_put c s)" "confined s (console_put c s)" by simp_all
qed

text \<open>The message stays readable: a console that is confined does not overwrite it.\<close>

lemma cstr_confined:
  assumes "confined s s'" and "cstr (l_mem s) p cs"
    and "\<And>i. i \<le> length cs \<Longrightarrow> 16800 \<le> unat (p + of_nat i - buffer (ctx s))"
  shows "cstr (l_mem s') p cs"
  using assms(2,3)
proof (induction cs arbitrary: p)
  case Nil
  then show ?case using assms(1) Nil.prems(2)[of 0] by (simp add: confined_def)
next
  case (Cons c cs)
  have "l_mem s' p = l_mem s p"
    using assms(1) Cons.prems(2)[of 0] by (simp add: confined_def)
  moreover have "16800 \<le> unat (p + 1 + of_nat i - buffer (ctx s))" if "i \<le> length cs" for i
    using Cons.prems(2)[of "Suc i"] that by (simp add: add.assoc)
  ultimately show ?case using Cons by simp
qed

lemma console_write_loop_spec:
  assumes "con_ok s" and "\<And>f. input_loop (scr_fw e) (stale_key e) f \<noteq> None"
    and "cstr (l_mem s) p cs" and "text_fits cs (screen_of s)"
    and "\<And>i. i \<le> length cs \<Longrightarrow> 16800 \<le> unat (p + of_nat i - buffer (ctx s))"
  shows "\<exists>s'. console_write_loop e p s = Some s' \<and> con_ok s' \<and> confined s s'
    \<and> screen_of s' = fold screen_put cs (screen_of s)"
  using assms(1,3-5)
proof (induction cs arbitrary: s p)
  case Nil
  then show ?case by (intro exI[of _ s]) (simp add: console_write_loop.simps[of e p])
next
  case (Cons c cs)
  obtain s1 where s1: "console_page e s = Some s1" "screen_of s1 = screen_page (screen_of s)"
    "con_ok s1" "unat (current_column (ctx s1)) < 70" "confined s s1"
    using console_page_spec[OF Cons.prems(1) assms(2)] by blast
  have "l_mem s1 p = c"
    using cstr_confined[OF s1(5) Cons.prems(2,4)] by simp
  let ?s2 = "console_put c s1"
  have "unat (current_row (ctx s1)) < 2 ^ 32"
    "c = 10 \<or> c = 9 \<or> Suc (unat (current_column (ctx s1)) * 120 + unat (current_row (ctx s1))) < 16800"
    using Cons.prems(3) unfolding text_fits.simps s1(2)[symmetric] by (simp_all add: screen_of_def)
  note put = console_put_spec[OF s1(3,4) this]
  have "screen_put c (screen_of s1) = screen_put c (screen_of s)"
    unfolding s1(2) by (auto simp: screen_put_def screen_page_def split: prod.splits)
  then have t: "screen_of ?s2 = screen_put c (screen_of s)" using put(1) by simp
  have conf: "confined s ?s2" using s1(5) put(3) by (rule confined_trans)
  have "cstr (l_mem ?s2) (p + 1) cs"
    using cstr_confined[OF conf Cons.prems(2,4)] by simp
  moreover have "16800 \<le> unat (p + 1 + of_nat i - buffer (ctx ?s2))" if "i \<le> length cs" for i
    using Cons.prems(4)[of "Suc i"] that conf by (simp add: add.assoc confined_def)
  moreover have "text_fits cs (screen_of ?s2)" using Cons.prems(3) t by simp
  ultimately obtain s' where s': "console_write_loop e (p + 1) ?s2 = Some s'" "con_ok s'" "confined ?s2 s'"
    "screen_of s' = fold screen_put cs (screen_of ?s2)"
    using Cons.IH[OF put(2), of "p + 1"] by blast
  have "l_mem s p \<noteq> 0" using Cons.prems(2) by simp
  then have "console_write_loop e p s = Some s'"
    using s1(1) s'(1) \<open>l_mem s1 p = c\<close> by (simp add: console_write_loop.simps[of e p s])
  then show ?case
    using s'(2,4) t confined_trans[OF conf s'(3)] by auto
qed

text \<open>A line of plain characters.\<close>

lemma screen_plain_line:
  assumes "\<forall>c \<in> set cs. c \<noteq> 10 \<and> c \<noteq> 9" and "l < 70"
  shows "fold screen_put cs (r, l, g) =
    (r + length cs, l, if cs = [] then g else
       (\<lambda>i. if l * 120 + r \<le> i \<and> i < l * 120 + r + length cs then cs ! (i - (l * 120 + r))
            else if i = l * 120 + r + length cs then 0 else g i))"
  using assms(1)
proof (induction cs rule: rev_induct)
  case (snoc c cs)
  then show ?case
    using assms(2) by (auto simp: screen_put_def screen_page_def nth_append intro!: ext)
qed simp

section \<open>Properties\<close>

text \<open>
  C23. Writing a message keeps the console well formed and inside its buffer. For a well formed
  console, a NUL terminated message outside the buffer whose characters fall on cells of the buffer,
  and a keyboard on which a key always arrives in the end: \<open>efi_console_write\<close> returns, the console
  is well formed again (120 by 70 cells, the line at most 70, the buffer unmoved), no byte outside
  the 16800 of the buffer has changed, and the cursor and the cells are those of the abstract screen
  after the same characters; in particular a line of plain text is found in consecutive cells,
  followed by a cleared one.
\<close>

theorem console_write_confined:
  assumes "con_ok s" and "\<And>f. input_loop (scr_fw e) (stale_key e) f \<noteq> None"
    and "cstr (l_mem s) message cs" and "text_fits cs (screen_of s)"
    and "\<forall>i \<le> length cs. 16800 \<le> unat (message + of_nat i - buffer (ctx s))"
  shows "\<exists>s'. efi_console_write e message s = Some s' \<and> con_ok s'
    \<and> (\<forall>b. 16800 \<le> unat (b - buffer (ctx s)) \<longrightarrow> l_mem s' b = l_mem s b)
    \<and> screen_of s' = fold screen_put cs (screen_of s)
    \<and> ((\<forall>c \<in> set cs. c \<noteq> 10 \<and> c \<noteq> 9) \<and> unat (current_column (ctx s)) < 70 \<longrightarrow>
        (\<forall>i < length cs. cell s' (unat (current_column (ctx s)) * 120 + unat (current_row (ctx s)) + i) = cs ! i))"
proof -
  obtain s' where s': "console_write_loop e message s = Some s'" "con_ok s'" "confined s s'"
    "screen_of s' = fold screen_put cs (screen_of s)"
    using console_write_loop_spec[OF assms(1-4)] assms(5) by blast
  define t where "t = (if efi_mp_whoami (scr_fw e) s' = 0 then efi_console_draw e s' else s')"
  have sel: "l_mem t = l_mem s'" "ctx t = ctx s'" by (simp_all add: t_def)
  have cells: "cell t = cell s'" by (rule ext) (simp add: cell_def sel)
  then have scr: "screen_of t = fold screen_put cs (screen_of s)"
    using s'(4) sel by (simp add: screen_of_def)
  moreover have "efi_console_write e message s = Some t" by (simp add: efi_console_write_def s'(1) t_def)
  moreover have "con_ok t" using s'(2) sel by (simp add: con_ok_def)
  moreover have "\<forall>b. 16800 \<le> unat (b - buffer (ctx s)) \<longrightarrow> l_mem t b = l_mem s b"
    using s'(3) sel by (simp add: confined_def)
  moreover have "cell t (unat (current_column (ctx s)) * 120 + unat (current_row (ctx s)) + i) = cs ! i"
    if "\<forall>c \<in> set cs. c \<noteq> 10 \<and> c \<noteq> 9" "unat (current_column (ctx s)) < 70" "i < length cs" for i
  proof -
    have "cell t = snd (snd (fold screen_put cs (screen_of s)))"
      unfolding scr[symmetric] by (simp add: screen_of_def)
    then show ?thesis
      using screen_plain_line[OF that(1,2), of "unat (current_row (ctx s))" "cell s"] that(3)
      by (auto simp: screen_of_def)
  qed
  ultimately show ?thesis by blast
qed

text \<open>A console of 120 by 70 at 0x1000, the text at 0x10000, and a keyboard with a key pressed.\<close>

theorem console_write_confined_witness:
  "\<exists>e (s :: unit ldr). con_ok s \<and> (\<exists>s'. efi_console_write e 0x10000 s = Some s' \<and> con_ok s'
     \<and> cell s' 0 = 104 \<and> cell s' 1 = 105)"
proof -
  let ?fw = "quiet_efi\<lparr>read_key_stroke := \<lambda>k f. (\<lparr>scan_code = 0, unicode_char = 32\<rparr>, f)\<rparr> :: unit efi"
  let ?img = "\<lparr>image_data = 0, image_width = 256, image_height = 128\<rparr>"
  let ?e = "\<lparr>scr_fw = ?fw, font = ?img, logo = ?img, stale_key = \<lparr>scan_code = 0, unicode_char = 0\<rparr>\<rparr>"
  let ?m = "(\<lambda>_ :: u64. 0 :: u8)(0x10000 := 104, 0x10001 := 105)"
  let ?s = "(ldr_start ?m () \<lparr>dtr_limit = 0, dtr_base = 0\<rparr> \<lparr>dtr_limit = 0, dtr_base = 0\<rparr> 0)
    \<lparr>ctx := \<lparr>rows = 120, columns = 70, current_row = 0, current_column = 0, buffer = 0x1000,
            buffer_size = 16800, char_width = 8, char_height = 16\<rparr>\<rparr>"
  have ok: "con_ok ?s" by (simp add: con_ok_def)
  have key: "input_loop (scr_fw ?e) (stale_key ?e) f \<noteq> None" for f
    by (subst input_loop.simps) simp
  have msg: "cstr (l_mem ?s) 0x10000 [104, 105]" by (simp add: ldr_start_def Let_def)
  have fits: "text_fits [104, 105] (screen_of ?s)"
    by (simp add: screen_of_def screen_put_def screen_page_def)
  have far: "\<forall>i \<le> length [104, 105 :: u8]. 16800 \<le> unat (0x10000 + of_nat i - buffer (ctx ?s))"
    by (auto simp: le_Suc_eq)
  from console_write_confined[OF ok key msg fits far]
  obtain s' where s': "efi_console_write ?e 0x10000 ?s = Some s'" "con_ok s'"
    "\<forall>i < 2. cell s' i = [104, 105] ! i"
    by auto
  from s'(3)[rule_format, of 0] s'(3)[rule_format, of 1] have "cell s' 0 = 104" "cell s' 1 = 105" by simp_all
  then show ?thesis using ok s'(1,2) by blast
qed

section \<open>Numbers\<close>

text \<open>The array of \<open>efi_console_hex\<close> is long enough for every number, and gets a NUL terminated text.\<close>

lemma console_hex_fits:
  "\<exists>n text. itoa number 16 1 0 = Some (n, text @ [0]) \<and> length (text @ [0]) \<le> 17 \<and> 0 \<notin> set text"
proof -
  let ?t = "digit_text 16 (unat number)"
  have "unat number < 16 ^ 16" using unat_lt64[of number] by simp
  then have "length ?t \<le> 16" using digits_of_length[of 16 16 "unat number"] by (simp add: digit_text_def)
  moreover have "0 \<notin> set ?t" using digit_text_nonzero[of 16 0 "unat number"] by auto
  moreover have "itoa number 16 1 0 = Some (length ?t, ?t @ [0])" by (simp add: itoa_text Let_def)
  ultimately show ?thesis by (intro exI[of _ "length ?t"] exI[of _ ?t]) simp
qed

end
