(* ===== verification/Elf.thy ===== *)
theory Elf
  imports Libc Firmware
begin

text \<open>
  The ELF mapper (\<^verbatim>\<open>freestanding/elf.h\<close>, \<^verbatim>\<open>elf_mapper.h\<close>, \<^verbatim>\<open>elf_mapper.cc\<close>), which puts the
  hypervisor binary in place: program headers, symbols and relocations read from a file image in
  the flat memory, the mapping of the segments, the relocation of the result and the lookups by name. The
  string literals the code compares with are in memory too; their addresses are a parameter. A
  fault is a value: a string without end in \<open>strcmp\<close>, or the use of a null pointer when the file has no
  \<^verbatim>\<open>.dynstr\<close> or no dynamic symbols.
\<close>

section \<open>elf.h\<close>

datatype elf_section_type =
    sht_null | sht_progbits | sht_symtab | sht_strtab | sht_rela | sht_hash | sht_dynamic | sht_note
  | sht_nobits | sht_rel | sht_shlib | sht_dynsym | sht_other u32

text \<open>The enumerators are numbered from 0; a file may hold any other number.\<close>

definition section_type :: "u32 \<Rightarrow> elf_section_type" where
  "section_type w =
     (let names = [sht_null, sht_progbits, sht_symtab, sht_strtab, sht_rela, sht_hash, sht_dynamic,
                   sht_note, sht_nobits, sht_rel, sht_shlib, sht_dynsym]
      in if unat w < length names then names ! unat w else sht_other w)"

definition x86_64_glob_dat :: u32 where "x86_64_glob_dat = 6"
definition x86_64_junp_slot :: u32 where "x86_64_junp_slot = 7"
definition x86_64_relative :: u32 where "x86_64_relative = 8"

definition PT_LOAD :: u32 where "PT_LOAD = 1"

definition elf64_r_get_type :: "u64 \<Rightarrow> u32" where "elf64_r_get_type x = ucast x"
definition elf64_r_get_sym :: "u64 \<Rightarrow> u32" where "elf64_r_get_sym x = ucast (drop_bit 32 x)"

record elf64_rela =
  r_offset :: u64
  r_info :: u64
  r_addend :: u64

record elf64_sym =
  st_name :: u32
  st_value :: u64

record elf64_ehdr =
  e_entry :: u64
  e_phoff :: u64
  e_shoff :: u64
  e_phnum :: u16
  e_shnum :: u16
  e_shstrndx :: u16

record elf64_phdr =
  p_type :: u32
  p_offset :: u64
  p_vaddr :: u64
  p_filesz :: u64
  p_memsz :: u64

record elf64_shdr =
  sh_name :: u32
  sh_type :: elf_section_type
  sh_addr :: u64
  sh_offset :: u64
  sh_size :: u64

text \<open>Reading the structs from memory, at the offsets of their members; members never read are left out.\<close>

definition rd_ehdr :: "mem \<Rightarrow> u64 \<Rightarrow> elf64_ehdr" where
  "rd_ehdr m a = \<lparr>e_entry = load64 m (a + 24), e_phoff = load64 m (a + 32), e_shoff = load64 m (a + 40),
     e_phnum = load16 m (a + 56), e_shnum = load16 m (a + 60), e_shstrndx = load16 m (a + 62)\<rparr>"

definition rd_phdr :: "mem \<Rightarrow> u64 \<Rightarrow> nat \<Rightarrow> elf64_phdr" where
  "rd_phdr m phdrs i = (let a = phdrs + 56 * of_nat i in
     \<lparr>p_type = load32 m a, p_offset = load64 m (a + 8), p_vaddr = load64 m (a + 16),
      p_filesz = load64 m (a + 32), p_memsz = load64 m (a + 40)\<rparr>)"

definition rd_shdr :: "mem \<Rightarrow> u64 \<Rightarrow> nat \<Rightarrow> elf64_shdr" where
  "rd_shdr m shdrs i = (let a = shdrs + 64 * of_nat i in
     \<lparr>sh_name = load32 m a, sh_type = section_type (load32 m (a + 4)), sh_addr = load64 m (a + 16),
      sh_offset = load64 m (a + 24), sh_size = load64 m (a + 32)\<rparr>)"

definition rd_sym :: "mem \<Rightarrow> u64 \<Rightarrow> u32 \<Rightarrow> elf64_sym" where
  "rd_sym m syms i = (let a = syms + 24 * ucast i in \<lparr>st_name = load32 m a, st_value = load64 m (a + 8)\<rparr>)"

definition rd_rela :: "mem \<Rightarrow> u64 \<Rightarrow> nat \<Rightarrow> elf64_rela" where
  "rd_rela m relocs i = (let a = relocs + 24 * of_nat i in
     \<lparr>r_offset = load64 m a, r_info = load64 m (a + 8), r_addend = load64 m (a + 16)\<rparr>)"

section \<open>Loops over a 16 bit count\<close>

text \<open>
  \<^verbatim>\<open>for (size_t i = 0; i < n; i++)\<close> where \<open>n\<close> is a 16 bit member of the header in memory, read again in
  every iteration; the body may fail.
\<close>

lemma index_measure_16: "i < unat (n :: u16) \<Longrightarrow> (2 ^ 16 :: nat) - Suc i < 2 ^ 16 - i"
  using unat_lt_power[of n] by (intro diff_less_mono2) simp_all

function for_u16 :: "('s \<Rightarrow> u16) \<Rightarrow> (nat \<Rightarrow> 's \<Rightarrow> 'e + 's) \<Rightarrow> nat \<Rightarrow> 's \<Rightarrow> 'e + 's" where
  "for_u16 bound body i s =
     (if i < unat (bound s)
      then (case body i s of Inl e \<Rightarrow> Inl e | Inr s' \<Rightarrow> for_u16 bound body (Suc i) s')
      else Inr s)"
  by pat_completeness auto

termination
  by (relation "measure (\<lambda>(bound, body, i, s). 2 ^ 16 - i)")
    (simp_all only: wf_measure in_measure case_prod_conv index_measure_16)

declare for_u16.simps [simp del]

text \<open>A loop whose body keeps the bound runs through all indices.\<close>

lemma for_u16_inv:
  assumes "I k s" and "k \<le> n"
    and "\<And>i s. I i s \<Longrightarrow> unat (bound s) = n"
    and "\<And>i s. i < n \<Longrightarrow> I i s \<Longrightarrow> \<exists>s'. body i s = Inr s' \<and> I (Suc i) s'"
  shows "\<exists>s'. for_u16 bound body k s = Inr s' \<and> I n s'"
  using assms(1,2)
proof (induction "n - k" arbitrary: k s)
  case 0
  then have "k = n" by simp
  then show ?case using 0(2) assms(3)[of n s] by (auto simp: for_u16.simps[of bound body n s])
next
  case (Suc d)
  then have k: "k < n" "d = n - Suc k" by simp_all
  obtain s1 where s1: "body k s = Inr s1" "I (Suc k) s1" using assms(4)[OF k(1) Suc.prems(1)] by blast
  then obtain s' where "for_u16 bound body (Suc k) s1 = Inr s'" "I n s'"
    using Suc.hyps(1)[OF k(2), of s1] k by auto
  then show ?case
    using k assms(3)[OF Suc.prems(1)] s1 by (auto simp: for_u16.simps[of bound body k s])
qed

section \<open>The class elf_mapper\<close>

record elf_mapper =
  m_file :: u64
  m_imports :: u64
  m_import_count :: u64
  m_ehdr :: u64
  m_phdrs :: u64
  m_shdrs :: u64
  m_mapped :: u64

record elf_literals =
  lit_dynstr :: u64
  lit_got :: u64

datatype elf_fault = Endless_string | No_dynstr | No_dynsyms

text \<open>The constructor leaves \<open>m_mapped\<close> uninitialised; \<open>map_to\<close> sets it before it is read.\<close>

definition elf_mapper_new :: "mem \<Rightarrow> u64 \<Rightarrow> u64 \<Rightarrow> u64 \<Rightarrow> elf_mapper" where
  "elf_mapper_new m elf_file import_count imports =
     \<lparr>m_file = elf_file, m_imports = imports, m_import_count = import_count, m_ehdr = elf_file,
      m_phdrs = elf_file + e_phoff (rd_ehdr m elf_file),
      m_shdrs = elf_file + e_shoff (rd_ehdr m elf_file), m_mapped = 0\<rparr>"

definition get_mapped_size :: "elf_mapper \<Rightarrow> mem \<Rightarrow> u64" where
  "get_mapped_size M m =
     for_range 0 (unat (e_phnum (rd_ehdr m (m_ehdr M))))
       (\<lambda>i result. let ph = rd_phdr m (m_phdrs M) i; off = p_vaddr ph + p_memsz ph
                   in if off > result then off else result) 0"

definition get_entrypoint :: "elf_mapper \<Rightarrow> mem \<Rightarrow> u64" where
  "get_entrypoint M m = m_mapped M + e_entry (rd_ehdr m (m_ehdr M))"

definition cmp_is_zero :: "mem \<Rightarrow> u64 \<Rightarrow> u64 \<Rightarrow> elf_fault + bool" where
  "cmp_is_zero m a b = (case strcmp m a b of None \<Rightarrow> Inl Endless_string | Some r \<Rightarrow> Inr (r = 0))"

fun resolve_import_from :: "elf_mapper \<Rightarrow> mem \<Rightarrow> u64 \<Rightarrow> nat list \<Rightarrow> elf_fault + u64" where
  "resolve_import_from M m name [] = Inr 0"
| "resolve_import_from M m name (i # is) =
     (let a = m_imports M + 16 * of_nat i
      in case cmp_is_zero m (load64 m a) name of
           Inl e \<Rightarrow> Inl e
         | Inr eq \<Rightarrow> if eq then Inr (load64 m (a + 8)) else resolve_import_from M m name is)"

definition resolve_import :: "elf_mapper \<Rightarrow> mem \<Rightarrow> u64 \<Rightarrow> elf_fault + u64" where
  "resolve_import M m name = resolve_import_from M m name [0..<unat (m_import_count M)]"

section \<open>map_to\<close>

text \<open>One program header. Any odd type is copied like \<^verbatim>\<open>PT_LOAD\<close>, any even type clears its range.\<close>

definition map_segment :: "elf_mapper \<Rightarrow> elf64_phdr \<Rightarrow> mem \<Rightarrow> mem" where
  "map_segment M ph m =
     (let target = m_mapped M + p_vaddr ph
      in if p_type ph AND PT_LOAD \<noteq> 0 then movsb m target (m_file M + p_offset ph) (p_filesz ph)
         else if p_memsz ph > 0 then stosb m target 0 (p_memsz ph)
         else m)"

definition map_segments :: "elf_mapper \<Rightarrow> mem \<Rightarrow> elf_fault + mem" where
  "map_segments M m =
     for_u16 (\<lambda>m. e_phnum (rd_ehdr m (m_ehdr M)))
       (\<lambda>i m. Inr (map_segment M (rd_phdr m (m_phdrs M) i) m)) 0
       (movsb m (m_mapped M) (m_ehdr M) 64)"

definition section_name :: "elf_mapper \<Rightarrow> elf64_shdr \<Rightarrow> elf64_shdr \<Rightarrow> u64" where
  "section_name M strings section = m_file M + sh_offset strings + ucast (sh_name section)"

fun find_dynstr :: "elf_mapper \<Rightarrow> elf_literals \<Rightarrow> mem \<Rightarrow> elf64_shdr \<Rightarrow> nat list \<Rightarrow> elf_fault + elf64_shdr option" where
  "find_dynstr M L m strings [] = Inr None"
| "find_dynstr M L m strings (i # is) =
     (let section = rd_shdr m (m_shdrs M) i
      in if sh_type section \<noteq> sht_strtab then find_dynstr M L m strings is
         else case cmp_is_zero m (section_name M strings section) (lit_dynstr L) of
                Inl e \<Rightarrow> Inl e
              | Inr eq \<Rightarrow> if eq then Inr (Some section) else find_dynstr M L m strings is)"

text \<open>The first section of a type: number of symbols and address of the first, or (0, null).\<close>

definition find_symbols :: "elf_mapper \<Rightarrow> mem \<Rightarrow> elf_section_type \<Rightarrow> u64 \<times> u64" where
  "find_symbols M m ty =
     (case find (\<lambda>i. sh_type (rd_shdr m (m_shdrs M) i) = ty) [0..<unat (e_shnum (rd_ehdr m (m_ehdr M)))] of
        None \<Rightarrow> (0, 0)
      | Some i \<Rightarrow> let section = rd_shdr m (m_shdrs M) i
                  in (sh_size section div 24, m_file M + sh_offset section))"

definition rebase_got :: "elf_mapper \<Rightarrow> elf64_shdr \<Rightarrow> mem \<times> log_event list \<Rightarrow> mem \<times> log_event list" where
  "rebase_got M section ml =
     for_range 0 (unat (sh_size section div 8))
       (\<lambda>i (m, l). let got = m_mapped M + sh_addr section + 8 * of_nat i; v = m_mapped M + load64 m got
                   in (store64 m got v, l @ [Log_hex ''got entry: '' v])) ml"

text \<open>
  One relocation. \<open>i\<close> is the number of the section: the code indexes \<open>relocs\<close> with it for the addend
  of an internal symbol, and not with \<open>reli\<close>.
\<close>

definition apply_rela ::
  "elf_mapper \<Rightarrow> elf64_shdr option \<Rightarrow> u64 \<Rightarrow> nat \<Rightarrow> u64 \<Rightarrow> nat \<Rightarrow> mem \<times> log_event list
     \<Rightarrow> elf_fault + mem \<times> log_event list" where
  "apply_rela M dynstr dynsyms i relocs reli ml =
     (case ml of (m, l) \<Rightarrow>
        let rel = rd_rela m relocs reli;
            type = elf64_r_get_type (r_info rel);
            sym = elf64_r_get_sym (r_info rel)
        in case dynstr of
             None \<Rightarrow> Inl No_dynstr
           | Some dynstr_section \<Rightarrow>
               if dynsyms = 0 then Inl No_dynsyms
               else
                 let reloc_name = m_file M + sh_offset dynstr_section + ucast (st_name (rd_sym m dynsyms sym));
                     reloc_ptr = m_mapped M + r_offset rel
                 in if type = x86_64_relative
                    then Inr (store64 m reloc_ptr (load64 m reloc_ptr + m_mapped M), l)
                    else if type = x86_64_junp_slot \<or> type = x86_64_glob_dat
                    then
                      if st_value (rd_sym m dynsyms sym) = 0
                      then map_sum id (\<lambda>a. (store64 m reloc_ptr a, l)) (resolve_import M m reloc_name)
                      else Inr (store64 m reloc_ptr
                             (st_value (rd_sym m dynsyms sym) + r_addend (rd_rela m relocs i)), l)
                    else Inr (m, l @ [Log (''invalid reloc'' @ replicate 43 CHR ''!'' @ endl)]))"

definition relocate_section ::
  "elf_mapper \<Rightarrow> elf_literals \<Rightarrow> elf64_shdr \<Rightarrow> elf64_shdr option \<Rightarrow> u64 \<Rightarrow> nat
     \<Rightarrow> mem \<times> log_event list \<Rightarrow> elf_fault + mem \<times> log_event list" where
  "relocate_section M L strings dynstr dynsyms i ml =
     (let section = rd_shdr (fst ml) (m_shdrs M) i
      in case cmp_is_zero (fst ml) (section_name M strings section) (lit_got L) of
           Inl e \<Rightarrow> Inl e
         | Inr is_got \<Rightarrow>
             let ml = (if is_got then rebase_got M section ml else ml)
             in if sh_type section = sht_rela
                then for_each_ok [0..<unat (sh_size section div 24)]
                       (apply_rela M dynstr dynsyms i (m_file M + sh_offset section)) ml
                else Inr ml)"

definition map_to :: "elf_mapper \<Rightarrow> elf_literals \<Rightarrow> u64 \<Rightarrow> mem \<times> log_event list
     \<Rightarrow> elf_fault + elf_mapper \<times> mem \<times> log_event list" where
  "map_to M L target_mem ml =
     (let M = M\<lparr>m_mapped := target_mem\<rparr>;
          l = snd ml @ [Log_hex ''elf base @'' target_mem]
      in case map_segments M (fst ml) of
           Inl e \<Rightarrow> Inl e
         | Inr m \<Rightarrow>
             let ehdr = rd_ehdr m (m_ehdr M);
                 strings = rd_shdr m (m_shdrs M) (unat (e_shstrndx ehdr))
             in case find_dynstr M L m strings [0..<unat (e_shnum ehdr)] of
                  Inl e \<Rightarrow> Inl e
                | Inr dynstr \<Rightarrow>
                    let (symbol_count, symbols) = find_symbols M m sht_symtab;
                        (dynsym_count, dynsyms) = find_symbols M m sht_dynsym
                    in map_sum id (\<lambda>ml. (M, ml))
                         (for_u16 (\<lambda>ml. e_shnum (rd_ehdr (fst ml) (m_ehdr M)))
                           (relocate_section M L strings dynstr dynsyms) 0 (m, l)))"

section \<open>Lookups by name\<close>

definition get_string :: "elf_mapper \<Rightarrow> mem \<Rightarrow> u64 \<Rightarrow> u64" where
  "get_string M m offset =
     m_file M + sh_offset (rd_shdr m (m_shdrs M) (unat (e_shstrndx (rd_ehdr m (m_ehdr M))))) + offset"

fun section_by_name :: "elf_mapper \<Rightarrow> mem \<Rightarrow> u64 \<Rightarrow> nat list \<Rightarrow> elf_fault + u64" where
  "section_by_name M m target_name [] = Inr 0"
| "section_by_name M m target_name (i # is) =
     (let section = rd_shdr m (m_shdrs M) i
      in case cmp_is_zero m (get_string M m (ucast (sh_name section))) target_name of
           Inl e \<Rightarrow> Inl e
         | Inr eq \<Rightarrow> if eq then Inr (m_file M + sh_offset section) else section_by_name M m target_name is)"

definition get_section_by_name :: "elf_mapper \<Rightarrow> mem \<Rightarrow> u64 \<Rightarrow> elf_fault + u64" where
  "get_section_by_name M m target_name =
     section_by_name M m target_name [0..<unat (e_shnum (rd_ehdr m (m_ehdr M)))]"

section \<open>Memory that two states agree on\<close>

definition agree :: "u64 \<Rightarrow> nat \<Rightarrow> mem \<Rightarrow> mem \<Rightarrow> bool" where
  "agree f n m m' \<longleftrightarrow> (\<forall>i < n. m' (f + of_nat i) = m (f + of_nat i))"

lemma agree_load_bytes:
  assumes "agree f n m m'" and "k + j \<le> n"
  shows "load_bytes m' (f + of_nat k) j = load_bytes m (f + of_nat k) j"
proof (rule load_bytes_cong)
  fix i
  assume "i < j"
  then have "m' (f + of_nat (k + i)) = m (f + of_nat (k + i))"
    using assms by (simp add: agree_def del: of_nat_add)
  then show "m' (f + of_nat k + of_nat i) = m (f + of_nat k + of_nat i)" by (simp add: add.assoc)
qed

lemma agree_loads:
  assumes "agree f n m m'"
  shows "k + 2 \<le> n \<Longrightarrow> load16 m' (f + of_nat k) = load16 m (f + of_nat k)"
    and "k + 4 \<le> n \<Longrightarrow> load32 m' (f + of_nat k) = load32 m (f + of_nat k)"
    and "k + 8 \<le> n \<Longrightarrow> load64 m' (f + of_nat k) = load64 m (f + of_nat k)"
  using agree_load_bytes[OF assms] by (simp_all add: load16_def load32_def load64_def)

lemma agree_ehdr:
  assumes "agree f n m m'" and "64 \<le> n"
  shows "rd_ehdr m' f = rd_ehdr m f"
  using agree_loads(3)[OF assms(1), of 24] agree_loads(3)[OF assms(1), of 32]
    agree_loads(3)[OF assms(1), of 40] agree_loads(1)[OF assms(1), of 56]
    agree_loads(1)[OF assms(1), of 60] agree_loads(1)[OF assms(1), of 62] assms(2)
  by (simp add: rd_ehdr_def)

lemma agree_phdr:
  assumes "agree f n m m'" and "off + 56 * i + 56 \<le> n"
  shows "rd_phdr m' (f + of_nat off) i = rd_phdr m (f + of_nat off) i"
proof -
  have a: "f + of_nat off + 56 * of_nat i = f + of_nat (off + 56 * i)" by (simp add: add.assoc)
  have b: "f + of_nat k + 8 = f + of_nat (k + 8)" "f + of_nat k + 16 = f + of_nat (k + 16)"
    "f + of_nat k + 32 = f + of_nat (k + 32)" "f + of_nat k + 40 = f + of_nat (k + 40)" for k
    by (simp_all add: add.assoc)
  show ?thesis
    unfolding rd_phdr_def Let_def a b using assms(2)
    by (simp add: agree_loads[OF assms(1)] del: of_nat_add)
qed

section \<open>The image of the segments\<close>

definition is_load :: "elf64_phdr \<Rightarrow> bool" where
  "is_load ph \<longleftrightarrow> p_type ph AND PT_LOAD \<noteq> 0"

definition seg_len :: "elf64_phdr \<Rightarrow> nat" where
  "seg_len ph = unat (if is_load ph then p_filesz ph else p_memsz ph)"

definition seg_covers :: "elf_mapper \<Rightarrow> u64 \<Rightarrow> elf64_phdr \<Rightarrow> bool" where
  "seg_covers M b ph \<longleftrightarrow> unat (b - (m_mapped M + p_vaddr ph)) < seg_len ph"

definition seg_value :: "elf_mapper \<Rightarrow> mem \<Rightarrow> elf64_phdr \<Rightarrow> u64 \<Rightarrow> u8" where
  "seg_value M m ph b =
     (if is_load ph then m (m_file M + p_offset ph + (b - (m_mapped M + p_vaddr ph))) else 0)"

text \<open>
  The byte at an address: from the last program header that covers it, else from the copy of the
  file header, else what was there.
\<close>

definition image_byte :: "elf_mapper \<Rightarrow> mem \<Rightarrow> elf64_phdr list \<Rightarrow> u64 \<Rightarrow> u8" where
  "image_byte M m phs b =
     (case find (seg_covers M b) (rev phs) of
        Some ph \<Rightarrow> seg_value M m ph b
      | None \<Rightarrow> if unat (b - m_mapped M) < 64 then m (m_ehdr M + (b - m_mapped M)) else m b)"

definition phdr_list :: "elf_mapper \<Rightarrow> mem \<Rightarrow> elf64_phdr list" where
  "phdr_list M m = map (rd_phdr m (m_phdrs M)) [0..<unat (e_phnum (rd_ehdr m (m_ehdr M)))]"

text \<open>
  The \<open>n\<close> bytes of the file hold the header, the program headers and what is copied from it, and no
  target of the mapping overlaps them.
\<close>

definition file_ok :: "elf_mapper \<Rightarrow> mem \<Rightarrow> nat \<Rightarrow> bool" where
  "file_ok M m n \<longleftrightarrow> 64 \<le> n \<and> n < 2 ^ 64 \<and> m_ehdr M = m_file M
     \<and> m_phdrs M = m_file M + e_phoff (rd_ehdr m (m_file M))
     \<and> unat (e_phoff (rd_ehdr m (m_file M))) + 56 * length (phdr_list M m) \<le> n
     \<and> (\<forall>ph \<in> set (phdr_list M m). is_load ph \<longrightarrow> unat (p_offset ph) + unat (p_filesz ph) \<le> n)
     \<and> separate (m_mapped M) 64 (m_file M) n
     \<and> (\<forall>ph \<in> set (phdr_list M m). separate (m_mapped M + p_vaddr ph) (seg_len ph) (m_file M) n)"

lemma map_segment_apply:
  assumes "is_load ph \<Longrightarrow> unat (p_offset ph) + unat (p_filesz ph) \<le> n" and "n < 2 ^ 64"
    and "separate (m_mapped M + p_vaddr ph) (seg_len ph) (m_file M) n"
    and "agree (m_file M) n m m'"
  shows "map_segment M ph m' b = (if seg_covers M b ph then seg_value M m ph b else m' b)"
proof (cases "is_load ph")
  case True
  let ?t = "m_mapped M + p_vaddr ph" and ?src = "m_file M + p_offset ph" and ?k = "unat (p_filesz ph)"
  have off: "?src = m_file M + of_nat (unat (p_offset ph))" by simp
  show ?thesis
  proof (cases "?k = 0")
    case True
    then show ?thesis using \<open>is_load ph\<close>
      by (simp add: map_segment_def is_load_def seg_covers_def seg_len_def movsb_def Let_def)
  next
    case k: False
    have "separate ?t (seg_len ph) (m_file M + of_nat (unat (p_offset ph))) ?k"
      using assms(1)[OF True] assms(2,3) k by (intro separate_part[where n = n]) auto
    then have sep: "separate ?t ?k ?src ?k"
      unfolding off[symmetric] using True by (simp only: seg_len_def if_True)
    have "m' (?src + (b - ?t)) = m (?src + (b - ?t))" if "unat (b - ?t) < ?k"
    proof -
      have "?src + (b - ?t) = m_file M + of_nat (unat (p_offset ph) + unat (b - ?t))" by simp
      moreover have "unat (p_offset ph) + unat (b - ?t) < n" using that assms(1)[OF True] by linarith
      ultimately show ?thesis
        using assms(4)[unfolded agree_def, rule_format, of "unat (p_offset ph) + unat (b - ?t)"]
        by (simp only:)
    qed
    then show ?thesis
      using True movsb_loop_apply[OF _ sep, of m' b] unat_lt64[of "p_filesz ph"]
      by (auto simp: map_segment_def is_load_def seg_covers_def seg_len_def seg_value_def movsb_def Let_def)
  qed
next
  case False
  have "p_memsz ph > 0 \<longleftrightarrow> unat (p_memsz ph) \<noteq> 0" by (simp add: word_less_nat_alt)
  with False show ?thesis
    by (auto simp: map_segment_def is_load_def seg_covers_def seg_len_def seg_value_def stosb_apply Let_def)
qed

lemma image_byte_snoc:
  "image_byte M m (phs @ [ph]) b = (if seg_covers M b ph then seg_value M m ph b else image_byte M m phs b)"
  by (simp add: image_byte_def)

lemma image_byte_file:
  assumes "file_ok M m n" and "i < n" and "set phs \<subseteq> set (phdr_list M m)"
  shows "image_byte M m phs (m_file M + of_nat i) = m (m_file M + of_nat i)"
proof -
  let ?b = "m_file M + of_nat i"
  have "\<not> seg_covers M ?b ph" if "ph \<in> set phs" for ph
    using assms that separate_offset[of "m_mapped M + p_vaddr ph" "seg_len ph" "m_file M" n i]
    by (auto simp: file_ok_def seg_covers_def)
  then have "find (seg_covers M ?b) (rev phs) = None" by (auto simp: find_None_iff)
  moreover have "\<not> unat (?b - m_mapped M) < 64"
    using assms(1,2) separate_offset[of "m_mapped M" 64 "m_file M" n i] by (auto simp: file_ok_def)
  ultimately show ?thesis by (simp add: image_byte_def)
qed

lemma map_segments_image:
  assumes ok: "file_ok M m n"
  shows "\<exists>m'. map_segments M m = Inr m' \<and> (\<forall>b. m' b = image_byte M m (phdr_list M m) b)"
proof -
  let ?phs = "phdr_list M m" and ?off = "unat (e_phoff (rd_ehdr m (m_file M)))"
  let ?N = "length ?phs"
  have n: "64 \<le> n" "n < 2 ^ 64" "m_ehdr M = m_file M" "m_phdrs M = m_file M + of_nat ?off"
    "?off + 56 * ?N \<le> n" "separate (m_mapped M) 64 (m_file M) n"
    using ok by (simp_all add: file_ok_def)
  define I where "I = (\<lambda>i m'. \<forall>b. m' b = image_byte M m (take i ?phs) b)"
  have ag: "agree (m_file M) n m m'" if "I i m'" for i m'
    using that image_byte_file[OF ok _ set_take_subset] by (simp add: I_def agree_def)
  have cnt: "unat (e_phnum (rd_ehdr m' (m_ehdr M))) = ?N" if "I i m'" for i m'
    using agree_ehdr[OF ag[OF that] n(1)] n(3) by (simp add: phdr_list_def)
  have start: "I 0 (movsb m (m_mapped M) (m_ehdr M) 64)"
  proof -
    have "separate (m_mapped M) 64 (m_ehdr M) 64"
      using separate_part[OF n(6), of 0 64] n by simp
    then show ?thesis
      using movsb_loop_apply[of 64 "m_mapped M" "m_ehdr M" m]
      by (simp add: I_def image_byte_def movsb_def)
  qed
  have step: "\<exists>s'. Inr (map_segment M (rd_phdr m' (m_phdrs M) i) m') = Inr s' \<and> I (Suc i) s'"
    if i: "i < ?N" and I: "I i m'" for i m'
  proof -
    have "rd_phdr m' (m_phdrs M) i = ?phs ! i"
      using agree_phdr[OF ag[OF I], of ?off i] i n(3-5) by (simp add: phdr_list_def)
    moreover have "?phs ! i \<in> set ?phs" using i by simp
    then have "map_segment M (?phs ! i) m' b =
        (if seg_covers M b (?phs ! i) then seg_value M m (?phs ! i) b else m' b)" for b
      using ok n(2) ag[OF I] by (intro map_segment_apply[where n = n]) (auto simp: file_ok_def)
    ultimately show ?thesis
      using I i by (simp add: I_def take_Suc_conv_app_nth image_byte_snoc)
  qed
  have "\<exists>m'. for_u16 (\<lambda>m. e_phnum (rd_ehdr m (m_ehdr M)))
      (\<lambda>i m. (Inr (map_segment M (rd_phdr m (m_phdrs M) i) m) :: elf_fault + mem)) 0
      (movsb m (m_mapped M) (m_ehdr M) 64) = Inr m' \<and> I ?N m'"
    by (rule for_u16_inv[of I]) (use start cnt step in auto)
  then show ?thesis by (auto simp: map_segments_def I_def)
qed

section \<open>The size of the image\<close>

lemma get_mapped_size_max:
  "ph \<in> set (phdr_list M m) \<Longrightarrow> p_vaddr ph + p_memsz ph \<le> get_mapped_size M m"
  "get_mapped_size M m = 0 \<or> (\<exists>ph \<in> set (phdr_list M m). p_vaddr ph + p_memsz ph = get_mapped_size M m)"
proof -
  let ?phs = "phdr_list M m"
  define I where "I = (\<lambda>i (r :: u64). (\<forall>j < i. p_vaddr (?phs ! j) + p_memsz (?phs ! j) \<le> r)
    \<and> (r = 0 \<or> (\<exists>j < i. p_vaddr (?phs ! j) + p_memsz (?phs ! j) = r)))"
  have "I (length ?phs) (get_mapped_size M m)"
    unfolding get_mapped_size_def phdr_list_def length_map length_upt diff_zero
  proof (rule for_range_inv)
    show "I 0 0" by (simp add: I_def)
    fix i r
    assume i: "i < unat (e_phnum (rd_ehdr m (m_ehdr M)))" and "I i r"
    then show "I (Suc i) (let ph = rd_phdr m (m_phdrs M) i; off = p_vaddr ph + p_memsz ph
        in if off > r then off else r)"
      by (auto simp: I_def phdr_list_def less_Suc_eq Let_def not_less intro: order_trans less_imp_le)
  qed simp
  then show "ph \<in> set ?phs \<Longrightarrow> p_vaddr ph + p_memsz ph \<le> get_mapped_size M m"
    "get_mapped_size M m = 0 \<or> (\<exists>ph \<in> set ?phs. p_vaddr ph + p_memsz ph = get_mapped_size M m)"
    by (auto simp: I_def in_set_conv_nth intro: bexI[OF _ nth_mem])
qed


lemma seg_covers_inside:
  assumes "seg_covers M b ph" and "ph \<in> set (phdr_list M m)" and "is_load ph \<longrightarrow> p_filesz ph \<le> p_memsz ph"
    and "unat (p_vaddr ph) + unat (p_memsz ph) < 2 ^ 64"
  shows "unat (b - m_mapped M) < unat (get_mapped_size M m)"
proof -
  let ?d = "b - (m_mapped M + p_vaddr ph)"
  have d: "unat ?d < unat (p_memsz ph)"
    using assms(1,3) by (auto simp: seg_covers_def seg_len_def word_le_nat_alt split: if_splits)
  have "b - m_mapped M = p_vaddr ph + ?d" by simp
  then have "unat (b - m_mapped M) = unat (p_vaddr ph) + unat ?d"
    using d assms(4) unat_add_lem[of "p_vaddr ph" ?d] by simp
  moreover have "unat (p_vaddr ph) + unat (p_memsz ph) \<le> unat (get_mapped_size M m)"
    using get_mapped_size_max(1)[OF assms(2)] assms(4) unat_add_lem[of "p_vaddr ph" "p_memsz ph"]
    by (simp add: word_le_nat_alt)
  ultimately show ?thesis using d by linarith
qed

lemma image_byte_outside:
  assumes "image_byte M m phs b \<noteq> m b"
  shows "unat (b - m_mapped M) < 64 \<or> (\<exists>ph \<in> set phs. seg_covers M b ph)"
proof (cases "find (seg_covers M b) (rev phs)")
  case None
  then show ?thesis using assms by (auto simp: image_byte_def split: if_splits)
next
  case (Some ph)
  then obtain i where "i < length (rev phs)" "seg_covers M b (rev phs ! i)" "ph = rev phs ! i"
    by (auto simp: find_Some_iff)
  then show ?thesis using nth_mem[of i "rev phs"] by auto
qed


section \<open>Properties of the mapping\<close>

text \<open>
  C10. Mapping the segments of a file whose headers and contents lie inside the file and whose targets
  do not touch it: it does not fail, and every byte of the memory afterwards comes from the last
  program header that covers it (its file bytes when the type is odd, zero when it is even), else
  from the copy of the file header, else it is unchanged. In particular a header of even type (a
  dynamic section, a relro range) clears what an earlier load put there, and the bytes of a load
  segment past its file size are left as they were found.
\<close>

theorem elf_segments_mapped:
  assumes "file_ok M m n"
  shows "\<exists>m'. map_segments M m = Inr m' \<and>
    (\<forall>b. m' b = (case find (seg_covers M b) (rev (phdr_list M m)) of
        Some ph \<Rightarrow> if is_load ph then m (m_file M + p_offset ph + (b - (m_mapped M + p_vaddr ph))) else 0
      | None \<Rightarrow> if unat (b - m_mapped M) < 64 then m (m_ehdr M + (b - m_mapped M)) else m b))"
  using map_segments_image[OF assms] by (simp only: image_byte_def seg_value_def)

text \<open>
  C11. The pages the loader asks for hold the image: when no segment wraps around and no load
  segment has more bytes in the file than in memory, the mapping changes no byte outside of
  \<^verbatim>\<open>NUM_PAGES(get_mapped_size())\<close> pages from the target on.
\<close>

theorem elf_image_fits:
  assumes "file_ok M m n"
    and "\<forall>ph \<in> set (phdr_list M m). unat (p_vaddr ph) + unat (p_memsz ph) < 2 ^ 64
           \<and> (is_load ph \<longrightarrow> p_filesz ph \<le> p_memsz ph)"
    and "64 \<le> unat (get_mapped_size M m)" and "unat (get_mapped_size M m) + 4095 < 2 ^ 64"
  shows "\<exists>m'. map_segments M m = Inr m' \<and>
    (\<forall>b. m' b \<noteq> m b \<longrightarrow> unat (b - m_mapped M) < unat (NUM_PAGES (get_mapped_size M m)) * 4096)"
proof -
  have "unat (b - m_mapped M) < unat (get_mapped_size M m)"
    if "image_byte M m (phdr_list M m) b \<noteq> m b" for b
    using image_byte_outside[OF that] seg_covers_inside[of M b _ m] assms(2,3) by fastforce
  then have "unat (b - m_mapped M) < unat (NUM_PAGES (get_mapped_size M m)) * 4096"
    if "image_byte M m (phdr_list M m) b \<noteq> m b" for b
    using that NUM_PAGES_covers(1)[OF assms(4)] order_less_le_trans by blast
  then show ?thesis using map_segments_image[OF assms(1)] by auto
qed


text \<open>
  A small file: header, two program headers and four bytes of contents. The second header has the
  type of a dynamic section (2) and covers two of the four bytes the first one loads.
\<close>

definition demo_elf :: mem where
  "demo_elf a =
     (if a = 0x1020 then 64 else if a = 0x1038 then 2
      else if a = 0x1040 then 1 else if a = 0x1048 then 176 else if a = 0x1051 then 1
      else if a = 0x1060 then 4 else if a = 0x1068 then 8
      else if a = 0x1078 then 2 else if a = 0x1080 then 178 else if a = 0x1088 then 2
      else if a = 0x1089 then 1 else if a = 0x1098 then 2 else if a = 0x10A0 then 2
      else if a = 0x10B0 then 0xAA else if a = 0x10B1 then 0xBB else if a = 0x10B2 then 0xCC
      else if a = 0x10B3 then 0xDD else if a = 0x100106 then 0x77 else 0)"

definition demo_mapper :: elf_mapper where
  "demo_mapper = (elf_mapper_new demo_elf 0x1000 0 0)\<lparr>m_mapped := 0x100000\<rparr>"

lemmas demo_eval = demo_elf_def load64_def load32_def load16_def load_bytes_def upt_rec

lemma demo_mapper: "demo_mapper = \<lparr>m_file = 0x1000, m_imports = 0, m_import_count = 0, m_ehdr = 0x1000,
    m_phdrs = 0x1040, m_shdrs = 0x1000, m_mapped = 0x100000\<rparr>"
  by (simp add: demo_mapper_def elf_mapper_new_def rd_ehdr_def demo_eval)

lemma demo_phdrs: "phdr_list demo_mapper demo_elf =
   [\<lparr>p_type = 1, p_offset = 176, p_vaddr = 0x100, p_filesz = 4, p_memsz = 8\<rparr>,
    \<lparr>p_type = 2, p_offset = 178, p_vaddr = 0x102, p_filesz = 2, p_memsz = 2\<rparr>]"
  by (simp add: phdr_list_def demo_mapper rd_phdr_def rd_ehdr_def demo_eval)

lemma demo_size: "get_mapped_size demo_mapper demo_elf = 0x108"
  by (simp add: get_mapped_size_def for_range_def demo_mapper rd_phdr_def rd_ehdr_def demo_eval)

lemma demo_ehdr: "e_phoff (rd_ehdr demo_elf 0x1000) = 64"
  by (simp add: rd_ehdr_def demo_eval)

lemma demo_ok: "file_ok demo_mapper demo_elf 180"
  unfolding file_ok_def demo_phdrs
  by (simp add: demo_mapper demo_ehdr is_load_def PT_LOAD_def seg_len_def separate_def)

theorem elf_segments_mapped_witness:
  "\<exists>m'. map_segments demo_mapper demo_elf = Inr m' \<and> m' 0x100100 = 0xAA \<and> m' 0x100102 = 0
     \<and> m' 0x100106 = 0x77 \<and> m' 0x100038 = 2"
  using elf_segments_mapped[OF demo_ok] unfolding demo_phdrs
  by (auto simp: demo_mapper seg_covers_def seg_len_def is_load_def PT_LOAD_def demo_elf_def)

theorem elf_image_fits_witness:
  "\<exists>m'. map_segments demo_mapper demo_elf = Inr m'
     \<and> (\<forall>b. m' b \<noteq> demo_elf b \<longrightarrow> unat (b - 0x100000) < 4096)"
  using elf_image_fits[OF demo_ok] unfolding demo_phdrs demo_size
  by (simp add: demo_mapper is_load_def PT_LOAD_def NUM_PAGES_def PAGE_SIZE_def)


section \<open>Imports and relocations\<close>

text \<open>The imports as a list of names and addresses.\<close>

definition import_table :: "elf_mapper \<Rightarrow> mem \<Rightarrow> (u8 list \<times> u64) list \<Rightarrow> bool" where
  "import_table M m ims \<longleftrightarrow> length ims = unat (m_import_count M) \<and>
     (\<forall>i < length ims. cstr m (load64 m (m_imports M + 16 * of_nat i)) (fst (ims ! i)) \<and>
        load64 m (m_imports M + 16 * of_nat i + 8) = snd (ims ! i))"

definition lookup_import :: "(u8 list \<times> u64) list \<Rightarrow> u8 list \<Rightarrow> u64" where
  "lookup_import ims name = (case map_of ims name of Some a \<Rightarrow> a | None \<Rightarrow> 0)"

lemma cmp_is_zero_cstr: "cstr m a xs \<Longrightarrow> cstr m b ys \<Longrightarrow> cmp_is_zero m a b = Inr (xs = ys)"
  using libc_cmp.cmp_zero[of m a xs b ys] by (auto simp: cmp_is_zero_def)

lemma resolve_import_from_drop:
  assumes "import_table M m ims" and "cstr m name xs" and "k \<le> length ims"
  shows "resolve_import_from M m name [k..<length ims] = Inr (lookup_import (drop k ims) xs)"
  using assms(3)
proof (induction "length ims - k" arbitrary: k)
  case 0
  then show ?case by (simp add: lookup_import_def)
next
  case (Suc d)
  then have k: "k < length ims" "d = length ims - Suc k" by simp_all
  have "cmp_is_zero m (load64 m (m_imports M + 16 * of_nat k)) name = Inr (fst (ims ! k) = xs)"
    "load64 m (m_imports M + 16 * of_nat k + 8) = snd (ims ! k)"
    using assms(1,2) k(1) by (auto simp: import_table_def intro: cmp_is_zero_cstr)
  then show ?case
    using k Suc.hyps(1)[OF k(2)] Cons_nth_drop_Suc[OF k(1)]
    by (cases "ims ! k") (auto simp: upt_conv_Cons lookup_import_def Let_def map_of_Cons_code
        simp flip: Cons_nth_drop_Suc)
qed

lemma resolve_import_lookup:
  "import_table M m ims \<Longrightarrow> cstr m name xs \<Longrightarrow> resolve_import M m name = Inr (lookup_import ims xs)"
  using resolve_import_from_drop[of M m ims name xs 0] by (simp add: resolve_import_def import_table_def)

text \<open>
  What the System V ABI for x86-64 asks of the three relocation types: B + A for a relative
  one, S for the other two. S is the address of the symbol in the image, or of the import of that
  name when the symbol is undefined.
\<close>

definition abi_value :: "elf_mapper \<Rightarrow> (u8 list \<times> u64) list \<Rightarrow> u8 list \<Rightarrow> elf64_sym \<Rightarrow> elf64_rela \<Rightarrow> u64" where
  "abi_value M ims name s rel =
     (if elf64_r_get_type (r_info rel) = x86_64_relative then m_mapped M + r_addend rel
      else if st_value s = 0 then lookup_import ims name
      else m_mapped M + st_value s)"

definition known_reloc :: "elf64_rela \<Rightarrow> bool" where
  "known_reloc rel \<longleftrightarrow> elf64_r_get_type (r_info rel) \<in> {x86_64_relative, x86_64_junp_slot, x86_64_glob_dat}"

text \<open>
  C14. A relocation of one of the three types stores one word at its target and changes nothing
  else. The word is the one the ABI defines exactly when: for a relative one, the target holds
  the addend already; for a symbol defined in the file, the load address equals the addend of
  entry number \<open>i\<close> of the table, \<open>i\<close> being the number of the section. For an undefined symbol
  it is always right: the address of the first import of that name, null when there is none.
\<close>

theorem elf_relocation_matches_abi:
  assumes "import_table M m ims" and "dynsyms \<noteq> 0" and "rd_rela m relocs reli = rel"
    and "rd_sym m dynsyms (elf64_r_get_sym (r_info rel)) = s"
    and "cstr m (m_file M + sh_offset dynstr + ucast (st_name s)) name" and "known_reloc rel"
  shows "\<exists>w. apply_rela M (Some dynstr) dynsyms i relocs reli (m, l) = Inr (store64 m (m_mapped M + r_offset rel) w, l)
     \<and> (w = abi_value M ims name s rel \<longleftrightarrow>
         (if elf64_r_get_type (r_info rel) = x86_64_relative
          then load64 m (m_mapped M + r_offset rel) = r_addend rel
          else st_value s = 0 \<or> m_mapped M = r_addend (rd_rela m relocs i)))"
  using assms resolve_import_lookup[OF assms(1,5)]
  by (auto simp: apply_rela_def abi_value_def known_reloc_def Let_def x86_64_relative_def
      x86_64_junp_slot_def x86_64_glob_dat_def add.commute)


text \<open>An import table with one entry, a symbol of the same name and a relocation that refers to it.\<close>

definition demo_import :: mem where
  "demo_import a =
     (if a = 0x2001 then 0x30 else if a = 0x2008 then 0x55 else if a = 0x3000 \<or> a = 0x1001 then 0x66
      else if a = 0x1118 then 1 else if a = 0x1200 then 0x10 else if a = 0x1208 then 6
      else if a = 0x120C then 1 else 0)"

definition demo_importer :: elf_mapper where
  "demo_importer = \<lparr>m_file = 0x1000, m_imports = 0x2000, m_import_count = 1, m_ehdr = 0x1000,
     m_phdrs = 0x1000, m_shdrs = 0x1000, m_mapped = 0x100000\<rparr>"

lemma demo_rela: "rd_rela demo_import 0x1200 0 = \<lparr>r_offset = 0x10, r_info = 0x100000006, r_addend = 0\<rparr>"
  by (simp add: rd_rela_def demo_import_def load64_def load_bytes_def upt_rec)

lemma demo_sym: "rd_sym demo_import 0x1100 1 = \<lparr>st_name = 1, st_value = 0\<rparr>"
  by (simp add: rd_sym_def demo_import_def load64_def load32_def load_bytes_def upt_rec)

theorem elf_relocation_matches_abi_witness:
  "apply_rela demo_importer (Some \<lparr>sh_name = 0, sh_type = sht_strtab, sh_addr = 0, sh_offset = 0, sh_size = 8\<rparr>)
     0x1100 3 0x1200 0 (demo_import, []) = Inr (store64 demo_import 0x100010 0x55, [])"
proof -
  have "import_table demo_importer demo_import [([0x66], 0x55)]"
    by (simp add: import_table_def demo_importer_def demo_import_def load64_def load_bytes_def upt_rec)
  moreover have "elf64_r_get_sym 0x100000006 = 1" by (simp add: elf64_r_get_sym_def)
  moreover have "known_reloc \<lparr>r_offset = 0x10, r_info = 0x100000006, r_addend = 0\<rparr>"
    by (simp add: known_reloc_def elf64_r_get_type_def x86_64_glob_dat_def)
  moreover have "cstr demo_import 0x1001 [0x66]" by (simp add: demo_import_def)
  ultimately show ?thesis
    using elf_relocation_matches_abi[OF _ _ demo_rela, where M = demo_importer
        and ims = "[([0x66], 0x55)]" and dynsyms = "0x1100" and name = "[0x66]" and s = "\<lparr>st_name = 1, st_value = 0\<rparr>" and i = 3 and l = "[]"
        and dynstr = "\<lparr>sh_name = 0, sh_type = sht_strtab, sh_addr = 0, sh_offset = 0, sh_size = 8\<rparr>"] demo_sym
    by (simp add: demo_importer_def abi_value_def lookup_import_def elf64_r_get_type_def x86_64_relative_def)
qed

lemma agree_rela:
  assumes "agree f n m m'" and "off + 24 * i + 24 \<le> n"
  shows "rd_rela m' (f + of_nat off) i = rd_rela m (f + of_nat off) i"
proof -
  have a: "f + of_nat off + 24 * of_nat i = f + of_nat (off + 24 * i)" by (simp add: add.assoc)
  have b: "f + of_nat k + 8 = f + of_nat (k + 8)" "f + of_nat k + 16 = f + of_nat (k + 16)" for k
    by (simp_all add: add.assoc)
  show ?thesis
    unfolding rd_rela_def Let_def a b using assms(2)
    by (simp add: agree_loads[OF assms(1)] del: of_nat_add)
qed

lemma store64_other: "8 \<le> unat (b - a) \<Longrightarrow> store64 m a v b = m b"
  by (simp add: store64_def store_bytes_def)

lemma agree_store64:
  assumes "agree f n m m'" and "separate a 8 f n"
  shows "agree f n m (store64 m' a v)"
  using assms separate_offset[OF assms(2)] by (simp add: agree_def store64_other)

text \<open>Adding a word to each of a list of cells that do not overlap.\<close>

definition rebased :: "u64 \<Rightarrow> u64 list \<Rightarrow> mem \<Rightarrow> mem \<Rightarrow> bool" where
  "rebased base cells m m' \<longleftrightarrow> (\<forall>a \<in> set cells. load64 m' a = load64 m a + base)
     \<and> (\<forall>b. (\<forall>a \<in> set cells. 8 \<le> unat (b - a)) \<longrightarrow> m' b = m b)"

lemma rebased_step:
  assumes "rebased base cells m m'" and "\<forall>c \<in> set cells. separate a 8 c 8"
  shows "rebased base (cells @ [a]) m (store64 m' a (load64 m' a + base))"
proof -
  have "load64 m' a = load64 m a"
  proof (rule load64_cong)
    fix i :: nat
    assume "i < 8"
    then have "\<forall>c \<in> set cells. 8 \<le> unat (a + of_nat i - c)"
      using assms(2) separate_offset separate_sym by blast
    then show "m' (a + of_nat i) = m (a + of_nat i)" using assms(1) by (simp add: rebased_def)
  qed
  then show ?thesis
    using assms by (auto simp: rebased_def load64_store64_separate load_store_same store64_other)
qed


definition reloc_cell :: "elf_mapper \<Rightarrow> mem \<Rightarrow> nat \<Rightarrow> nat \<Rightarrow> u64" where
  "reloc_cell M m off j = m_mapped M + r_offset (rd_rela m (m_file M + of_nat off) j)"

text \<open>
  The \<open>cnt\<close> entries of a table at \<open>off\<close> in the file are relative relocations of cells that overlap
  neither the \<open>n\<close> bytes of the file nor each other.
\<close>

definition relative_table :: "elf_mapper \<Rightarrow> mem \<Rightarrow> nat \<Rightarrow> nat \<Rightarrow> nat \<Rightarrow> bool" where
  "relative_table M m off cnt n \<longleftrightarrow> off + 24 * cnt \<le> n \<and>
     (\<forall>j < cnt. elf64_r_get_type (r_info (rd_rela m (m_file M + of_nat off) j)) = x86_64_relative
        \<and> separate (reloc_cell M m off j) 8 (m_file M) n
        \<and> (\<forall>k < j. separate (reloc_cell M m off j) 8 (reloc_cell M m off k) 8))"

lemma relative_table_applied:
  assumes tab: "relative_table M m off cnt n" and "dynsyms \<noteq> 0" and "k \<le> cnt"
  shows "\<exists>m'. for_each_ok [0..<k] (apply_rela M (Some dynstr) dynsyms i (m_file M + of_nat off)) (m, l) = Inr (m', l)
     \<and> rebased (m_mapped M) (map (reloc_cell M m off) [0..<k]) m m' \<and> agree (m_file M) n m m'"
  using assms(3)
proof (induction k)
  case 0
  then show ?case by (simp add: rebased_def agree_def)
next
  case (Suc k)
  let ?f = "apply_rela M (Some dynstr) dynsyms i (m_file M + of_nat off)" and ?c = "reloc_cell M m off"
  obtain m' where m': "for_each_ok [0..<k] ?f (m, l) = Inr (m', l)"
    "rebased (m_mapped M) (map ?c [0..<k]) m m'" "agree (m_file M) n m m'" using Suc by auto
  have k: "k < cnt" using Suc.prems by simp
  have "rd_rela m' (m_file M + of_nat off) k = rd_rela m (m_file M + of_nat off) k"
    using agree_rela[OF m'(3), of off k] k tab by (simp add: relative_table_def)
  then have "?f k (m', l) = Inr (store64 m' (?c k) (load64 m' (?c k) + m_mapped M), l)"
    using \<open>dynsyms \<noteq> 0\<close> tab k by (simp add: apply_rela_def relative_table_def reloc_cell_def Let_def)
  moreover have "rebased (m_mapped M) (map ?c [0..<k] @ [?c k]) m
      (store64 m' (?c k) (load64 m' (?c k) + m_mapped M))"
    using tab k by (intro rebased_step[OF m'(2)]) (auto simp: relative_table_def)
  ultimately show ?case
    using m'(1) agree_store64[OF m'(3), of "?c k"] tab k by (simp add: loop_simps relative_table_def)
qed

text \<open>
  The relocation of a section (not \<^verbatim>\<open>.got\<close>) whose entries are all relative, with targets that
  overlap neither the file nor each other: it does not fail and logs nothing, the load address is
  added exactly once to every target, and no other byte changes.
\<close>

theorem elf_relative_section:
  assumes "rd_shdr m (m_shdrs M) i = section" and "sh_type section = sht_rela"
    and "cstr m (section_name M strings section) xs" and "cstr m (lit_got L) ys" and "xs \<noteq> ys"
    and "dynsyms \<noteq> 0" and "relative_table M m (unat (sh_offset section)) (unat (sh_size section div 24)) n"
    and "cells = reloc_cell M m (unat (sh_offset section)) ` {..<unat (sh_size section div 24)}"
  shows "\<exists>m'. relocate_section M L strings (Some dynstr) dynsyms i (m, l) = Inr (m', l)
    \<and> (\<forall>a \<in> cells. load64 m' a = load64 m a + m_mapped M)
    \<and> (\<forall>b. (\<forall>a \<in> cells. 8 \<le> unat (b - a)) \<longrightarrow> m' b = m b)"
proof -
  have "cmp_is_zero m (section_name M strings section) (lit_got L) = Inr False"
    using cmp_is_zero_cstr[OF assms(3,4)] assms(5) by simp
  then show ?thesis
    using relative_table_applied[OF assms(7,6) order_refl, of dynstr i l] assms(1,2)
    by (auto simp: relocate_section_def rebased_def assms(8) lessThan_atLeast0)
qed

definition demo_relative :: mem where
  "demo_relative a =
     (if a = 0x1004 then 4 else if a = 0x1019 then 2 else if a = 0x1020 then 24
      else if a = 0x1200 then 0x10 else if a = 0x1208 then 8 else if a = 0x4000 then 0x2E
      else if a = 0x4001 then 0x67 else if a = 0x4002 then 0x6F else if a = 0x4003 then 0x74
      else if a = 0x100010 then 0x34 else 0)"

theorem elf_relative_section_witness:
  "\<exists>m'. relocate_section demo_importer \<lparr>lit_dynstr = 0, lit_got = 0x4000\<rparr>
       \<lparr>sh_name = 0, sh_type = sht_strtab, sh_addr = 0, sh_offset = 0x40, sh_size = 8\<rparr>
       (Some \<lparr>sh_name = 0, sh_type = sht_strtab, sh_addr = 0, sh_offset = 0x40, sh_size = 8\<rparr>)
       0x1100 0 (demo_relative, []) = Inr (m', [])
     \<and> load64 m' 0x100010 = 0x100034 \<and> m' 0x100018 = 0"
proof -
  let ?sec = "\<lparr>sh_name = 0, sh_type = sht_rela, sh_addr = 0, sh_offset = 0x200, sh_size = 24\<rparr>"
  have "rd_shdr demo_relative (m_shdrs demo_importer) 0 = ?sec"
    by (simp add: rd_shdr_def demo_importer_def demo_relative_def load64_def load32_def load_bytes_def
        upt_rec section_type_def)
  moreover have c: "reloc_cell demo_importer demo_relative 0x200 0 = 0x100010"
    and "elf64_r_get_type (r_info (rd_rela demo_relative 0x1200 0)) = 8"
    by (simp_all add: reloc_cell_def rd_rela_def demo_importer_def demo_relative_def load64_def load_bytes_def
        upt_rec elf64_r_get_type_def)
  then have "relative_table demo_importer demo_relative (unat (sh_offset ?sec)) (unat (sh_size ?sec div 24)) 0x218"
    by (simp add: relative_table_def demo_importer_def separate_def x86_64_relative_def)
  moreover have "load64 demo_relative 0x100010 = 0x34" "demo_relative 0x100018 = 0"
    by (simp_all add: demo_relative_def load64_def load_bytes_def upt_rec)
  moreover have "cstr demo_relative 0x1040 []" "cstr demo_relative 0x4000 [0x2E, 0x67, 0x6F, 0x74]"
    by (simp_all add: demo_relative_def)
  ultimately show ?thesis
    using elf_relative_section[of demo_relative demo_importer 0 ?sec
        "\<lparr>sh_name = 0, sh_type = sht_strtab, sh_addr = 0, sh_offset = 0x40, sh_size = 8\<rparr>" "[]"
        "\<lparr>lit_dynstr = 0, lit_got = 0x4000\<rparr>" "[0x2E, 0x67, 0x6F, 0x74]" "0x1100" "0x218" "{0x100010}"
        "\<lparr>sh_name = 0, sh_type = sht_strtab, sh_addr = 0, sh_offset = 0x40, sh_size = 8\<rparr>" "[]"] c
    by (auto simp: section_name_def demo_importer_def lessThan_Suc)
qed

end
