(* ===== verification/Mtrr.thy ===== *)
theory Mtrr
  imports X86utils
begin

text \<open>
  The memory type range registers as \<^verbatim>\<open>hypervisor/ept.cc\<close> reads them (lines 7 to 173): the table
  \<open>g_mtrrs\<close> with its 343 entries, the fixed and the variable ranges, and the memory type of a
  physical range. A store past the end of the table is an error value. The reference notions are
  the SDM's: which byte of which fixed range register covers an address, the match of an address
  against a base and a mask, and the precedence of overlapping types.
\<close>

section \<open>State\<close>

record mtrr_data =
  enabled :: bool
  fixed :: bool
  mtrr_type :: u8
  range_begin :: u64
  range_end :: u64

definition max_fixed_range_mtrrs :: nat where "max_fixed_range_mtrrs = (1 + 2 + 8) * 8"
definition max_variable_range_mtrrs :: nat where "max_variable_range_mtrrs = 255"
definition max_mtrrs :: nat where "max_mtrrs = max_fixed_range_mtrrs + max_variable_range_mtrrs"

lemmas max_mtrrs_defs = max_fixed_range_mtrrs_def max_variable_range_mtrrs_def max_mtrrs_def

record mtrr_state =
  g_mtrrs :: "mtrr_data list"
  g_default_memory_type :: u8

datatype mtrr_error = Out_of_bounds nat

type_synonym msr_file = "u32 \<Rightarrow> u64"

definition cleared_mtrr :: mtrr_data where
  "cleared_mtrr = \<lparr>enabled = False, fixed = False, mtrr_type = 0, range_begin = 0, range_end = 0\<rparr>"

definition set_mtrr :: "nat \<Rightarrow> (mtrr_data \<Rightarrow> mtrr_data) \<Rightarrow> mtrr_data list \<Rightarrow> mtrr_error + mtrr_data list" where
  "set_mtrr i f g = (if i < length g then Inr (g[i := f (g ! i)]) else Inl (Out_of_bounds i))"

section \<open>Reading the registers\<close>

text \<open>Byte \<open>i\<close> of a fixed range register (the union \<^verbatim>\<open>ia32_mtrr_fixed\<close>).\<close>

definition fixed_types :: "u64 \<Rightarrow> nat \<Rightarrow> u8" where
  "fixed_types flags i = ucast (drop_bit (8 * i) flags)"

text \<open>The loop carries the table, the caller's offset and the caller's index.\<close>

definition ept_read_fixed_mtrrs ::
    "msr_file \<Rightarrow> u32 \<Rightarrow> u64 \<Rightarrow> u64 \<Rightarrow> mtrr_data list \<times> u64 \<times> nat \<Rightarrow>
     mtrr_error + mtrr_data list \<times> u64 \<times> nat" where
  "ept_read_fixed_mtrrs msrs msr base len st =
     (let fixed_range = msrs msr in
      for_each_ok [0..<8]
        (\<lambda>i (g, offset, index).
           let mem_type = fixed_types fixed_range i;
               curr_base = base + len * of_nat i;
               offset = offset + len
           in case set_mtrr index
                     (\<lambda>e. e\<lparr>enabled := True, fixed := True, mtrr_type := mem_type,
                            range_begin := curr_base, range_end := curr_base + len\<rparr>) g of
                Inl e \<Rightarrow> Inl e
              | Inr g' \<Rightarrow> Inr (g', offset, index + 1))
        st)"

definition fixed_blocks :: "(fixed_mtrr_name \<times> u64 \<times> u64) list" where
  "fixed_blocks =
     [(FIX64K_00000, 0, 0x10000), (FIX16K_80000, 0x80000, 0x4000), (FIX16K_A0000, 0xA0000, 0x4000),
      (FIX4K_C0000, 0xC0000, 0x1000), (FIX4K_C8000, 0xC8000, 0x1000), (FIX4K_D0000, 0xD0000, 0x1000),
      (FIX4K_D8000, 0xD8000, 0x1000), (FIX4K_E0000, 0xE0000, 0x1000), (FIX4K_E8000, 0xE8000, 0x1000),
      (FIX4K_F0000, 0xF0000, 0x1000), (FIX4K_F8000, 0xF8000, 0x1000)]"

definition ept_read_variable_mtrr ::
    "ia32 \<Rightarrow> x86 \<Rightarrow> msr_file \<Rightarrow> nat \<Rightarrow> mtrr_data list \<times> nat \<Rightarrow> mtrr_error + mtrr_data list \<times> nat" where
  "ept_read_variable_mtrr d x msrs i st =
     (case st of (g, index) \<Rightarrow>
      let phy_mask = msrs (msr_id d IA32_MTRR_PHYSMASK0 + of_nat (i * 2));
          phy_base = msrs (msr_id d IA32_MTRR_PHYSBASE0 + of_nat (i * 2))
      in if get_m d (Mtrr Physmask_valid) phy_mask = 0 then Inr (g, index)
         else
           let base = get_m d (Mtrr Physbase_page_frame_number) phy_base * 0x1000;
               len = push_bit (unat (call_bsf x (get_m d (Mtrr Physmask_page_frame_number) phy_mask))) 1;
               len = push_bit 12 len
           in case set_mtrr index
                     (\<lambda>e. e\<lparr>enabled := True, mtrr_type := ucast (get_m d (Mtrr Physbase_type) phy_base),
                            fixed := False, range_begin := base, range_end := base + len\<rparr>) g of
                Inl e \<Rightarrow> Inl e
              | Inr g' \<Rightarrow> Inr (g', index + 1))"

definition ept_init_mtrr :: "ia32 \<Rightarrow> x86 \<Rightarrow> msr_file \<Rightarrow> mtrr_error + mtrr_state" where
  "ept_init_mtrr d x msrs =
     (let g = replicate max_mtrrs cleared_mtrr;
          default_type = msrs (msr_id d IA32_MTRR_DEF_TYPE);
          gdef = ucast (get_m d (Mtrr Def_default_memory_type) default_type);
          caps = msrs (msr_id d IA32_MTRR_CAPABILITIES);
          after_fixed =
            (if get_m d (Mtrr Mtrrcap_fixed_range_supported) caps \<noteq> 0 \<and>
                get_m d (Mtrr Def_fixed_range_mtrr_enable) default_type \<noteq> 0
             then for_each_ok fixed_blocks
                    (\<lambda>(r, base, len). ept_read_fixed_mtrrs msrs (msr_id d (IA32_MTRR_FIXED r)) base len)
                    (g, 0, 0)
             else Inr (g, 0, 0))
      in case after_fixed of
           Inl e \<Rightarrow> Inl e
         | Inr (g, offset, index) \<Rightarrow>
             (case for_each_ok [0..<unat (get_m d (Mtrr Mtrrcap_variable_range_count) caps)]
                     (ept_read_variable_mtrr d x msrs) (g, index) of
                Inl e \<Rightarrow> Inl e
              | Inr (g, index) \<Rightarrow>
                  (case set_mtrr index (\<lambda>e. e\<lparr>enabled := False\<rparr>) g of
                     Inl e \<Rightarrow> Inl e
                   | Inr g \<Rightarrow> Inr \<lparr>g_mtrrs = g, g_default_memory_type = gdef\<rparr>)))"

section \<open>The memory type of a physical range\<close>

text \<open>The loop over the table: \<open>Inl\<close> is a \<^verbatim>\<open>return\<close> inside the loop, \<open>Inr\<close> the result so far.\<close>

primrec mtrr_scan :: "ia32 \<Rightarrow> u64 \<Rightarrow> u64 \<Rightarrow> mtrr_data list \<Rightarrow> u64 \<Rightarrow> u64 + u64" where
  "mtrr_scan d start len [] result = Inr result"
| "mtrr_scan d start len (mtrr # rest) result =
     (if \<not> enabled mtrr then Inr result
      else if start < range_begin mtrr \<or> start \<ge> range_end mtrr then mtrr_scan d start len rest result
      else if start + len - 1 \<ge> range_end mtrr then Inl (cst d MEMORY_TYPE_INVALID)
      else if fixed mtrr then Inl (ucast (mtrr_type mtrr))
      else if ucast (mtrr_type mtrr) = cst d MEMORY_TYPE_UNCACHEABLE
        then Inl (cst d MEMORY_TYPE_UNCACHEABLE)
      else if ucast (mtrr_type mtrr) = cst d MEMORY_TYPE_WRITE_THROUGH
              \<and> result = cst d MEMORY_TYPE_WRITE_BACK
        then mtrr_scan d start len rest (cst d MEMORY_TYPE_WRITE_THROUGH)
      else if ucast (mtrr_type mtrr) = cst d MEMORY_TYPE_WRITE_BACK
              \<and> result = cst d MEMORY_TYPE_WRITE_THROUGH
        then mtrr_scan d start len rest (cst d MEMORY_TYPE_WRITE_THROUGH)
      else mtrr_scan d start len rest (ucast (mtrr_type mtrr)))"

definition ept_get_memory_type :: "ia32 \<Rightarrow> mtrr_state \<Rightarrow> u64 \<Rightarrow> u64 \<Rightarrow> u64" where
  "ept_get_memory_type d st start len =
     (case mtrr_scan d start len (take max_mtrrs (g_mtrrs st)) (cst d MEMORY_TYPE_INVALID) of
        Inl r \<Rightarrow> r
      | Inr result \<Rightarrow>
          if result = cst d MEMORY_TYPE_INVALID then ucast (g_default_memory_type st) else result)"


text \<open>The dump prints every entry up to the first disabled one; nothing bounds its index.\<close>

primrec dump_loop :: "nat \<Rightarrow> mtrr_data list \<Rightarrow> mtrr_error + (u64 \<times> u64) list" where
  "dump_loop index [] = Inl (Out_of_bounds index)"
| "dump_loop index (mtrr # rest) =
     (if \<not> enabled mtrr then Inr []
      else case dump_loop (Suc index) rest of
             Inl e \<Rightarrow> Inl e
           | Inr out \<Rightarrow> Inr ((range_begin mtrr, range_end mtrr) # out))"

definition ept_dump_mtrrs :: "mtrr_state \<Rightarrow> mtrr_error + (u64 \<times> u64) list" where
  "ept_dump_mtrrs st = dump_loop 0 (g_mtrrs st)"

section \<open>Reference: the table the registers describe\<close>

definition fixed_entry :: "u64 \<Rightarrow> u64 \<Rightarrow> u64 \<Rightarrow> nat \<Rightarrow> mtrr_data" where
  "fixed_entry flags base len i =
     \<lparr>enabled = True, fixed = True, mtrr_type = fixed_types flags i,
      range_begin = base + len * of_nat i, range_end = base + len * of_nat i + len\<rparr>"

definition fixed_table :: "ia32 \<Rightarrow> msr_file \<Rightarrow> (fixed_mtrr_name \<times> u64 \<times> u64) list \<Rightarrow> mtrr_data list" where
  "fixed_table d msrs bs =
     concat (map (\<lambda>(r, base, len).
       map (fixed_entry (msrs (msr_id d (IA32_MTRR_FIXED r))) base len) [0..<8]) bs)"

definition physmask :: "ia32 \<Rightarrow> msr_file \<Rightarrow> nat \<Rightarrow> u64" where
  "physmask d msrs i = msrs (msr_id d IA32_MTRR_PHYSMASK0 + of_nat (i * 2))"

definition physbase :: "ia32 \<Rightarrow> msr_file \<Rightarrow> nat \<Rightarrow> u64" where
  "physbase d msrs i = msrs (msr_id d IA32_MTRR_PHYSBASE0 + of_nat (i * 2))"

definition variable_entry :: "ia32 \<Rightarrow> x86 \<Rightarrow> msr_file \<Rightarrow> nat \<Rightarrow> mtrr_data" where
  "variable_entry d x msrs i =
     (let base = get_m d (Mtrr Physbase_page_frame_number) (physbase d msrs i) * 0x1000 in
      \<lparr>enabled = True, fixed = False,
       mtrr_type = ucast (get_m d (Mtrr Physbase_type) (physbase d msrs i)),
       range_begin = base,
       range_end = base + push_bit 12 (push_bit
         (unat (call_bsf x (get_m d (Mtrr Physmask_page_frame_number) (physmask d msrs i)))) 1)\<rparr>)"

definition fixed_active :: "ia32 \<Rightarrow> msr_file \<Rightarrow> bool" where
  "fixed_active d msrs \<longleftrightarrow>
     get_m d (Mtrr Mtrrcap_fixed_range_supported) (msrs (msr_id d IA32_MTRR_CAPABILITIES)) \<noteq> 0 \<and>
     get_m d (Mtrr Def_fixed_range_mtrr_enable) (msrs (msr_id d IA32_MTRR_DEF_TYPE)) \<noteq> 0"

definition valid_variable :: "ia32 \<Rightarrow> msr_file \<Rightarrow> nat list" where
  "valid_variable d msrs =
     filter (\<lambda>i. get_m d (Mtrr Physmask_valid) (physmask d msrs i) \<noteq> 0)
       [0..<unat (get_m d (Mtrr Mtrrcap_variable_range_count) (msrs (msr_id d IA32_MTRR_CAPABILITIES)))]"

definition mtrr_table :: "ia32 \<Rightarrow> x86 \<Rightarrow> msr_file \<Rightarrow> mtrr_data list" where
  "mtrr_table d x msrs =
     (if fixed_active d msrs then fixed_table d msrs fixed_blocks else []) @
     map (variable_entry d x msrs) (valid_variable d msrs)"

section \<open>Initialisation builds that table\<close>

lemma set_mtrr_append [simp]:
  "set_mtrr (length p) f (p @ c # q) = Inr (p @ f c # q)"
  by (simp add: set_mtrr_def nth_append)

lemma read_fixed_prefix:
  assumes "n \<le> m"
  shows "for_each_ok [0..<n]
          (\<lambda>i (g, offset, index).
           let mem_type = fixed_types flags i;
               curr_base = base + len * of_nat i;
               offset = offset + len
           in case set_mtrr index
                     (\<lambda>e. e\<lparr>enabled := True, fixed := True, mtrr_type := mem_type,
                            range_begin := curr_base, range_end := curr_base + len\<rparr>) g of
                Inl e \<Rightarrow> Inl e
              | Inr g' \<Rightarrow> Inr (g', offset, index + 1))
          (p @ replicate m cleared_mtrr, off, length p) =
         Inr (p @ map (fixed_entry flags base len) [0..<n] @ replicate (m - n) cleared_mtrr,
              off + of_nat n * len, length p + n)"
  using assms
proof (induction n)
  case (Suc n)
  have r: "replicate (m - n) cleared_mtrr = cleared_mtrr # replicate (m - Suc n) cleared_mtrr"
    using Suc.prems by (simp flip: replicate_Suc add: Suc_diff_Suc)
  have s: "set_mtrr (length p + n) f
             (p @ map (fixed_entry flags base len) [0..<n] @ cleared_mtrr # q)
           = Inr ((p @ map (fixed_entry flags base len) [0..<n]) @ f cleared_mtrr # q)" for f q
    using set_mtrr_append[of "p @ map (fixed_entry flags base len) [0..<n]" f cleared_mtrr q]
    by simp
  show ?case
    using Suc by (simp add: for_each_ok_append r s) (simp add: fixed_entry_def cleared_mtrr_def algebra_simps)
qed simp

lemma ept_read_fixed_mtrrs_table:
  "8 \<le> n \<Longrightarrow> ept_read_fixed_mtrrs msrs msr base len (p @ replicate n cleared_mtrr, off, length p) =
     Inr (p @ map (fixed_entry (msrs msr) base len) [0..<8] @ replicate (n - 8) cleared_mtrr,
          off + 8 * len, length (p @ map (fixed_entry (msrs msr) base len) [0..<8]))"
  using read_fixed_prefix[of 8 n "msrs msr" base len p off]
  by (simp add: ept_read_fixed_mtrrs_def)

lemma length_fixed_table [simp]: "length (fixed_table d msrs bs) = 8 * length bs"
  by (induction bs) (auto simp: fixed_table_def)

lemma fixed_table_Cons:
  "fixed_table d msrs ((r, base, len) # bs) =
     map (fixed_entry (msrs (msr_id d (IA32_MTRR_FIXED r))) base len) [0..<8] @ fixed_table d msrs bs"
  by (simp add: fixed_table_def)

lemma fixed_table_Nil [simp]: "fixed_table d msrs [] = []"
  by (simp add: fixed_table_def)

lemma read_fixed_blocks:
  "8 * length bs \<le> n \<Longrightarrow>
   \<exists>off'. for_each_ok bs
      (\<lambda>(r, base, len). ept_read_fixed_mtrrs msrs (msr_id d (IA32_MTRR_FIXED r)) base len)
      (p @ replicate n cleared_mtrr, off, length p) =
    Inr (p @ fixed_table d msrs bs @ replicate (n - 8 * length bs) cleared_mtrr, off',
         length p + 8 * length bs)"
proof (induction bs arbitrary: p n off)
  case (Cons b bs)
  obtain r base len where b: "b = (r, base, len)" by (cases b)
  let ?e = "map (fixed_entry (msrs (msr_id d (IA32_MTRR_FIXED r))) base len) [0..<8]"
  from Cons.IH[of "n - 8" "p @ ?e" "off + 8 * len"] Cons.prems
  obtain off' where IH: "for_each_ok bs
      (\<lambda>(r, base, len). ept_read_fixed_mtrrs msrs (msr_id d (IA32_MTRR_FIXED r)) base len)
      ((p @ ?e) @ replicate (n - 8) cleared_mtrr, off + 8 * len, length (p @ ?e)) =
    Inr ((p @ ?e) @ fixed_table d msrs bs @ replicate (n - 8 - 8 * length bs) cleared_mtrr, off',
         length (p @ ?e) + 8 * length bs)"
    by fastforce
  show ?case
    using Cons.prems IH
    by (simp add: b ept_read_fixed_mtrrs_table fixed_table_Cons del: upt_Suc)
qed simp

lemma read_variable:
  "ept_read_variable_mtrr d x msrs i (p @ replicate n cleared_mtrr, length p) =
     (if get_m d (Mtrr Physmask_valid) (physmask d msrs i) = 0
      then Inr (p @ replicate n cleared_mtrr, length p)
      else if n = 0 then Inl (Out_of_bounds (length p))
      else Inr ((p @ [variable_entry d x msrs i]) @ replicate (n - 1) cleared_mtrr,
                length (p @ [variable_entry d x msrs i])))"
  by (cases n) (simp_all add: ept_read_variable_mtrr_def physmask_def physbase_def variable_entry_def
      Let_def cleared_mtrr_def set_mtrr_def nth_append)

lemma read_variables:
  "for_each_ok is (ept_read_variable_mtrr d x msrs) (p @ replicate n cleared_mtrr, length p) =
     (let es = map (variable_entry d x msrs)
                 (filter (\<lambda>i. get_m d (Mtrr Physmask_valid) (physmask d msrs i) \<noteq> 0) is)
      in if length es \<le> n
         then Inr ((p @ es) @ replicate (n - length es) cleared_mtrr, length (p @ es))
         else Inl (Out_of_bounds (length p + n)))"
proof (induction "is" arbitrary: p n)
  case (Cons i "is")
  show ?case
    using Cons.IH[of "p @ [variable_entry d x msrs i]" "n - 1"] Cons.IH[of p n]
    unfolding for_each_ok.simps read_variable
    by (cases n) (simp_all add: Let_def)
qed simp

lemma init_table:
  "ept_init_mtrr d x msrs =
     (let t = mtrr_table d x msrs in
      if length t < max_mtrrs
      then Inr \<lparr>g_mtrrs = t @ replicate (max_mtrrs - length t) cleared_mtrr,
                g_default_memory_type = ucast (get_m d (Mtrr Def_default_memory_type)
                                                 (msrs (msr_id d IA32_MTRR_DEF_TYPE)))\<rparr>
      else Inl (Out_of_bounds max_mtrrs))"
proof -
  let ?ft = "if fixed_active d msrs then fixed_table d msrs fixed_blocks else []"
  let ?n = "max_mtrrs - length ?ft"
  have len: "length ?ft \<le> max_mtrrs"
    by (simp add: fixed_blocks_def max_mtrrs_defs)
  have "\<exists>off. (if fixed_active d msrs
         then for_each_ok fixed_blocks
                (\<lambda>(r, base, len). ept_read_fixed_mtrrs msrs (msr_id d (IA32_MTRR_FIXED r)) base len)
                (replicate max_mtrrs cleared_mtrr, 0, 0)
         else Inr (replicate max_mtrrs cleared_mtrr, 0, 0)) =
        Inr (?ft @ replicate ?n cleared_mtrr, off, length ?ft)"
    using read_fixed_blocks[of fixed_blocks max_mtrrs msrs d "[]" 0] len
    by (auto simp: fixed_blocks_def max_mtrrs_defs)
  then obtain off where fx: "(if fixed_active d msrs
         then for_each_ok fixed_blocks
                (\<lambda>(r, base, len). ept_read_fixed_mtrrs msrs (msr_id d (IA32_MTRR_FIXED r)) base len)
                (replicate max_mtrrs cleared_mtrr, 0, 0)
         else Inr (replicate max_mtrrs cleared_mtrr, 0, 0)) =
        Inr (?ft @ replicate ?n cleared_mtrr, off, length ?ft)" ..
  define ft where "ft = ?ft"
  have v: "for_each_ok [0..<unat (get_m d (Mtrr Mtrrcap_variable_range_count)
             (msrs (msr_id d IA32_MTRR_CAPABILITIES)))] (ept_read_variable_mtrr d x msrs)
             (ft @ replicate (max_mtrrs - length ft) cleared_mtrr, length ft) =
           (let es = map (variable_entry d x msrs) (valid_variable d msrs) in
            if length es \<le> max_mtrrs - length ft
            then Inr ((ft @ es) @ replicate (max_mtrrs - length ft - length es) cleared_mtrr,
                      length (ft @ es))
            else Inl (Out_of_bounds (length ft + (max_mtrrs - length ft))))"
    unfolding valid_variable_def by (rule read_variables)
  have t: "mtrr_table d x msrs = ft @ map (variable_entry d x msrs) (valid_variable d msrs)"
    by (simp add: mtrr_table_def ft_def)
  have e: "set_mtrr (length t) (\<lambda>e. e\<lparr>enabled := False\<rparr>) (t @ replicate k cleared_mtrr) =
           (if k = 0 then Inl (Out_of_bounds (length t)) else Inr (t @ replicate k cleared_mtrr))" for t k
    by (cases k) (simp_all add: set_mtrr_def cleared_mtrr_def)
  show ?thesis
    using len
    unfolding ept_init_mtrr_def Let_def fixed_active_def[symmetric] fx ft_def[symmetric]
    by (simp add: v t e Let_def del: append_assoc length_append) auto
qed


section \<open>Fixed ranges: the type of a page below 1 MB\<close>

text \<open>The SDM's fixed range map: eight 64 KB, sixteen 16 KB and sixty-four 4 KB ranges.\<close>

definition sdm_fixed_type :: "ia32 \<Rightarrow> msr_file \<Rightarrow> nat \<Rightarrow> u8" where
  "sdm_fixed_type d msrs a =
     (let byte = \<lambda>r i. fixed_types (msrs (msr_id d (IA32_MTRR_FIXED r))) i in
      if a < 0x80000 then byte FIX64K_00000 (a div 0x10000)
      else if a < 0xC0000
      then byte ([FIX16K_80000, FIX16K_A0000] ! ((a - 0x80000) div 0x20000)) ((a - 0x80000) div 0x4000 mod 8)
      else byte ([FIX4K_C0000, FIX4K_C8000, FIX4K_D0000, FIX4K_D8000, FIX4K_E0000, FIX4K_E8000,
                  FIX4K_F0000, FIX4K_F8000] ! ((a - 0xC0000) div 0x8000)) ((a - 0xC0000) div 0x1000 mod 8))"

lemma scan_all_cleared: "mtrr_scan d start len (t @ replicate k cleared_mtrr) r = mtrr_scan d start len t r"
proof (induction t arbitrary: r)
  case Nil
  show ?case by (cases k) (simp_all add: cleared_mtrr_def)
qed simp

lemma unat_add64: "unat x + i < 2 ^ 64 \<Longrightarrow> unat (x + of_nat i) = unat x + i" for x :: u64
  by (rule unat_add_small) simp

lemma unat_mult_small: "c * unat x < 2 ^ 64 \<Longrightarrow> unat (x * of_nat c) = c * unat x" for x :: u64
  by (simp add: unat_word_ariths unat_of_nat take_bit_eq_mod mult.commute mod_mult_right_eq)

lemma unat_fixed_range:
  fixes base len :: u64
  assumes "unat base + 8 * unat len < 2 ^ 64" "i \<le> 8"
  shows "unat (base + len * of_nat i) = unat base + unat len * i"
proof -
  have "unat len * i \<le> 8 * unat len"
    using mult_le_mono2[OF assms(2), of "unat len"] by (simp add: mult.commute)
  then have "unat (base + of_nat (unat len * i)) = unat base + unat len * i"
    using assms(1) by (intro unat_add64) linarith
  then show ?thesis by simp
qed

lemma page_inside:
  fixes a e :: u64
  assumes "4096 dvd unat a" "4096 dvd unat e" "a < e"
  shows "a + 0x1000 - 1 < e"
proof -
  obtain p q where pq: "unat a = 4096 * p" "unat e = 4096 * q"
    using assms(1,2) by (meson dvdE)
  then have lt: "unat a + 4095 < unat e"
    using assms(3) by (simp add: word_less_nat_alt)
  then have "unat (a + of_nat 4095) = unat a + 4095"
    using unat_lt64[of e] by (intro unat_add64) linarith
  moreover have "a + 0x1000 - 1 = a + of_nat 4095" by simp
  ultimately show ?thesis using lt by (simp only: word_less_nat_alt)
qed

lemma scan_fixed_range:
  assumes "unat base + 8 * unat len < 2 ^ 64" "4096 dvd unat base" "4096 dvd unat len" "4096 dvd unat start"
    and "0 < unat len" "k \<le> 8" "unat base + unat len * k \<le> unat start \<or> unat start < unat base"
  shows "mtrr_scan d start 0x1000 (map (fixed_entry flags base len) [k..<8] @ rest) r =
     (if unat base \<le> unat start \<and> unat start < unat base + 8 * unat len
      then Inl (ucast (fixed_types flags ((unat start - unat base) div unat len)))
      else mtrr_scan d start 0x1000 rest r)"
  using assms(6,7)
proof (induction "8 - k" arbitrary: k)
  case 0
  then show ?case using assms(1-5) by auto
next
  case (Suc n)
  then have k: "k < 8" by simp
  have e: "unat (base + len * of_nat k) = unat base + unat len * k"
          "unat (base + len * of_nat k + len) = unat base + unat len * Suc k"
    using unat_fixed_range[OF assms(1), of k] unat_fixed_range[OF assms(1), of "Suc k"] k
    by (simp_all add: algebra_simps)
  have split: "map (fixed_entry flags base len) [k..<8] @ rest =
    fixed_entry flags base len k # map (fixed_entry flags base len) [Suc k..<8] @ rest"
    using k by (simp add: upt_conv_Cons)
  show ?case
  proof (cases "unat base \<le> unat start \<and> unat start < unat base + unat len * Suc k")
    case False
    then have skip: "start < base + len * of_nat k \<or> base + len * of_nat k + len \<le> start"
      unfolding word_less_nat_alt word_le_nat_alt e by auto
    have "mtrr_scan d start 0x1000 (map (fixed_entry flags base len) [k..<8] @ rest) r =
          mtrr_scan d start 0x1000 (map (fixed_entry flags base len) [Suc k..<8] @ rest) r"
      unfolding split using skip by (auto simp: fixed_entry_def)
    then show ?thesis
      using Suc.hyps(1)[of "Suc k"] Suc.hyps(2) False k by auto
  next
    case True
    then have lo: "unat base + unat len * k \<le> unat start" using Suc.prems by auto
    have "unat len * Suc k \<le> 8 * unat len"
      using mult_le_mono2[of "Suc k" 8 "unat len"] k by (simp add: mult.commute)
    then have b: "unat start < unat base + 8 * unat len" using True by linarith
    have idx: "(unat start - unat base) div unat len = k"
      using True lo by (intro div_nat_eqI) (auto simp: mult.commute)
    have "4096 dvd unat (base + len * of_nat k + len)" "start < base + len * of_nat k + len"
      using True assms(2,3) by (auto simp: e word_less_nat_alt)
    then have "\<not> start + 0x1000 - 1 \<ge> base + len * of_nat k + len"
      using page_inside[OF assms(4)] by (simp only: not_le)
    moreover have "\<not> (start < base + len * of_nat k \<or> start \<ge> base + len * of_nat k + len)"
      unfolding word_less_nat_alt word_le_nat_alt e using lo True by auto
    ultimately show ?thesis
      unfolding split using True b by (simp add: fixed_entry_def idx)
  qed
qed


lemma scan_fixed_block:
  assumes "4096 dvd unat start" "unat base = b" "unat len = l"
    and "b + 8 * l < 2 ^ 64" "4096 dvd b" "4096 dvd l" "0 < l"
  shows "mtrr_scan d start 0x1000 (fixed_table d msrs ((rg, base, len) # bs) @ rest) r =
     (if b \<le> unat start \<and> unat start < b + 8 * l
      then Inl (ucast (fixed_types (msrs (msr_id d (IA32_MTRR_FIXED rg))) ((unat start - b) div l)))
      else mtrr_scan d start 0x1000 (fixed_table d msrs bs @ rest) r)"
  using scan_fixed_range[of base len start 0 d _ "fixed_table d msrs bs @ rest" r] assms
  by (simp add: fixed_table_Cons not_less le_less_linear del: upt_Suc)

lemma fixed_slot:
  assumes "B + 8 * L * j \<le> a" "a < B + 8 * L * Suc j" "0 < L"
  shows "(a - B) div (8 * L) = j \<and> (a - B) div L mod 8 = (a - (B + 8 * L * j)) div (L :: nat)"
proof -
  define c where "c = a - (B + 8 * L * j)"
  have c: "a - B = c + j * (8 * L)" "c < 8 * L"
    using assms by (auto simp: c_def)
  have "(a - B) div L = c div L + 8 * j"
    using assms(3) c(1) by (simp add: mult.assoc[symmetric] mult.commute[of j 8])
  moreover have "c div L < 8"
    using c(2) by (simp add: less_mult_imp_div_less)
  ultimately show ?thesis
    using c assms(3) by (simp add: c_def[symmetric])
qed

lemma scan_fixed_table:
  assumes "4096 dvd unat start"
  shows "mtrr_scan d start 0x1000 (fixed_table d msrs fixed_blocks @ rest) r =
     (if unat start < 0x100000 then Inl (ucast (sdm_fixed_type d msrs (unat start)))
      else mtrr_scan d start 0x1000 rest r)"
proof -
  have a16: "sdm_fixed_type d msrs (unat start) =
      fixed_types (msrs (msr_id d (IA32_MTRR_FIXED ([FIX16K_80000, FIX16K_A0000] ! j))))
        ((unat start - (0x80000 + 0x20000 * j)) div 0x4000)"
    if "0x80000 + 0x20000 * j \<le> unat start" "unat start < 0x80000 + 0x20000 * Suc j" "j < 2" for j
    using fixed_slot[of "0x80000" "0x4000" j "unat start"] that
    by (simp add: sdm_fixed_type_def)
  have a4: "sdm_fixed_type d msrs (unat start) =
      fixed_types (msrs (msr_id d (IA32_MTRR_FIXED ([FIX4K_C0000, FIX4K_C8000, FIX4K_D0000, FIX4K_D8000,
        FIX4K_E0000, FIX4K_E8000, FIX4K_F0000, FIX4K_F8000] ! j))))
        ((unat start - (0xC0000 + 0x8000 * j)) div 0x1000)"
    if "0xC0000 + 0x8000 * j \<le> unat start" "unat start < 0xC0000 + 0x8000 * Suc j" for j
    using fixed_slot[of "0xC0000" "0x1000" j "unat start"] that
    by (simp add: sdm_fixed_type_def)
  show ?thesis
    unfolding fixed_blocks_def
    apply (simp add: scan_fixed_block assms)
    using a16[of 0] a16[of 1] a4[of 0] a4[of 1] a4[of 2] a4[of 3] a4[of 4] a4[of 5] a4[of 6] a4[of 7]
    by (simp add: sdm_fixed_type_def)
qed


section \<open>Variable ranges: base, mask and precedence\<close>

text \<open>
  The SDM's match of an address against a variable range, and the masks it calls contiguous: ones
  from bit \<open>k\<close> up to the physical address width \<open>w\<close> (both counted in pages), with a base
  aligned to \<open>2 ^ k\<close> pages.
\<close>

definition sdm_match :: "ia32 \<Rightarrow> msr_file \<Rightarrow> u64 \<Rightarrow> nat \<Rightarrow> bool" where
  "sdm_match d msrs a i \<longleftrightarrow>
     (let m = get_m d (Mtrr Physmask_page_frame_number) (physmask d msrs i);
          b = get_m d (Mtrr Physbase_page_frame_number) (physbase d msrs i)
      in drop_bit 12 a AND m = b AND m)"

definition contiguous :: "nat \<Rightarrow> nat \<Rightarrow> u64 \<Rightarrow> u64 \<Rightarrow> bool" where
  "contiguous w k m b \<longleftrightarrow>
     k < w \<and> w \<le> 40 \<and> m = push_bit k (mask (w - k)) \<and> take_bit k b = 0 \<and> take_bit w b = b"

definition sdm_types :: "ia32 \<Rightarrow> msr_file \<Rightarrow> u64 \<Rightarrow> u8 list" where
  "sdm_types d msrs a =
     map (\<lambda>i. ucast (get_m d (Mtrr Physbase_type) (physbase d msrs i)))
       (filter (sdm_match d msrs a) (valid_variable d msrs))"

text \<open>
  The SDM's rule for overlapping ranges: uncacheable wins, equal types stay, write-through wins
  over write-back, every other mixture is undefined; with no range the default type applies.
\<close>

definition sdm_combine :: "u8 \<Rightarrow> u8 list \<Rightarrow> u8 option" where
  "sdm_combine dflt ts =
     (if ts = [] then Some dflt
      else if 0 \<in> set ts then Some 0
      else if list_all (\<lambda>t. t = hd ts) ts then Some (hd ts)
      else if list_all (\<lambda>t. t = 4 \<or> t = 6) ts then Some 4
      else None)"

lemma bit_contiguous:
  "contiguous w k m b \<Longrightarrow> bit m n \<longleftrightarrow> k \<le> n \<and> n < w"
  by (auto simp: contiguous_def bit_simps)

lemma bsf_contiguous:
  assumes "contiguous w k m b"
  shows "call_bsf x m = of_nat k"
proof -
  have kw: "k < w" "w \<le> 40" using assms by (auto simp: contiguous_def)
  have "bit m k" using bit_contiguous[OF assms] kw by simp
  then have nz: "m \<noteq> 0" by auto
  have "[0..<64] = [0..<k] @ k # [Suc k..<64]"
    using kw upt_add_eq_append[of 0 k "64 - k"] by (simp add: upt_conv_Cons)
  moreover have "filter (bit m) [0..<k] = []"
    using bit_contiguous[OF assms] by (auto simp: filter_empty_conv)
  ultimately have "hd (filter (bit m) [0..<64]) = k"
    using \<open>bit m k\<close> by simp
  then show ?thesis using nz by (simp add: call_bsf_def)
qed

lemma contiguous_match:
  assumes "contiguous w k m b" "take_bit w p = p"
  shows "p AND m = b AND m \<longleftrightarrow> drop_bit k p = drop_bit k b"
proof -
  have hi: "bit p n \<Longrightarrow> n < w" "bit b n \<Longrightarrow> n < w" for n
    using assms by (metis bit_take_bit_iff contiguous_def)+
  have "possible_bit TYPE(64 word) n" if "bit p n \<or> bit b n" for n
    using that by (auto dest: bit_imp_possible_bit)
  then have "p AND m = b AND m \<longleftrightarrow> (\<forall>n. k \<le> n \<longrightarrow> bit p n = bit b n)"
    unfolding bit_eq_iff bit_and_iff bit_contiguous[OF assms(1)] using hi by blast
  also have "\<dots> \<longleftrightarrow> (\<forall>n. bit p (k + n) = bit b (k + n))"
    by (metis le_add1 le_add_diff_inverse)
  also have "\<dots> \<longleftrightarrow> drop_bit k p = drop_bit k b"
  proof
    assume "\<forall>n. bit p (k + n) = bit b (k + n)"
    then show "drop_bit k p = drop_bit k b" by (intro bit_eqI) (simp add: bit_drop_bit_eq)
  next
    assume "drop_bit k p = drop_bit k b"
    then have "bit (drop_bit k p) n = bit (drop_bit k b) n" for n by simp
    then show "\<forall>n. bit p (k + n) = bit b (k + n)" by (simp add: bit_drop_bit_eq)
  qed
  finally show ?thesis .
qed

lemma aligned_range_div:
  fixes b p :: nat
  assumes "b mod 2 ^ k = 0"
  shows "b \<le> p \<and> p < b + 2 ^ k \<longleftrightarrow> p div 2 ^ k = b div 2 ^ k"
proof -
  obtain q where b: "b = 2 ^ k * q" using assms by auto
  have "p div 2 ^ k = q \<longleftrightarrow> 2 ^ k * q \<le> p \<and> p < 2 ^ k * q + 2 ^ k"
    by (metis add.commute div_nat_eqI dividend_less_times_div mult.commute mult_Suc_right
        times_div_less_eq_dividend zero_less_numeral zero_less_power)
  then show ?thesis by (simp add: b)
qed

text \<open>The interval the program stores is the set of addresses that match base and mask.\<close>

lemma variable_entry_covers:
  assumes "contiguous w k (get_m d (Mtrr Physmask_page_frame_number) (physmask d msrs i))
             (get_m d (Mtrr Physbase_page_frame_number) (physbase d msrs i))"
    and "unat a < 2 ^ (12 + w)"
  shows "range_begin (variable_entry d x msrs i) \<le> a \<and> a < range_end (variable_entry d x msrs i)
           \<longleftrightarrow> sdm_match d msrs a i"
    and "4096 dvd unat (range_end (variable_entry d x msrs i))"
proof -
  define m where "m = get_m d (Mtrr Physmask_page_frame_number) (physmask d msrs i)"
  define b where "b = get_m d (Mtrr Physbase_page_frame_number) (physbase d msrs i)"
  have c: "contiguous w k m b" using assms(1) by (simp add: m_def b_def)
  then have kw: "k < w" "w \<le> 40" and bw: "take_bit w b = b" "take_bit k b = 0"
    by (auto simp: contiguous_def)
  have "unat b < 2 ^ w" using unat_take_bit_less[of w b] bw by simp
  moreover have "(2 :: nat) ^ w \<le> 2 ^ 40" "(2 :: nat) ^ k \<le> 2 ^ 40"
    using kw by (simp_all only: power_increasing one_le_numeral order.strict_implies_order order.strict_trans2)
  ultimately have bl: "unat b + 2 ^ k \<le> 2 ^ 41" by simp
  have ub: "unat (b * 0x1000) = 4096 * unat b"
    using bl unat_mult_small[of 4096 b] by simp
  have ue: "unat (b * 0x1000 + push_bit 12 (push_bit k 1)) = 4096 * (unat b + 2 ^ k)"
  proof -
    have "push_bit 12 (push_bit k 1) = (of_nat (4096 * 2 ^ k) :: u64)"
      by (simp add: push_bit_eq_mult)
    then show ?thesis
      using bl unat_add64[of "b * 0x1000" "4096 * 2 ^ k"] ub by simp
  qed
  have aw: "take_bit w (drop_bit 12 a) = drop_bit 12 a"
    using assms(2) by (intro take_bit_self_unat)
      (simp add: unat_drop_bit_eq drop_bit_eq_div[where 'a = nat] power_add less_mult_imp_div_less mult.commute)
  have e: "range_begin (variable_entry d x msrs i) = b * 0x1000"
          "range_end (variable_entry d x msrs i) = b * 0x1000 + push_bit 12 (push_bit k 1)"
    using kw by (simp_all add: variable_entry_def Let_def b_def bsf_contiguous[OF c, unfolded m_def] unat_of_nat)
  show "4096 dvd unat (range_end (variable_entry d x msrs i))"
    unfolding e ue by simp
  have "range_begin (variable_entry d x msrs i) \<le> a \<and> a < range_end (variable_entry d x msrs i)
        \<longleftrightarrow> unat b \<le> unat a div 4096 \<and> unat a div 4096 < unat b + 2 ^ k"
    unfolding e word_le_nat_alt word_less_nat_alt ub ue by auto
  also have "\<dots> \<longleftrightarrow> unat a div 4096 div 2 ^ k = unat b div 2 ^ k"
    using bw(2) by (intro aligned_range_div) (simp add: take_bit_0_dvd)
  also have "\<dots> \<longleftrightarrow> drop_bit k (drop_bit 12 a) = drop_bit k b"
    by (simp only: word_eq_iff_unsigned[where ?'a = nat] unat_drop_bit_eq drop_bit_eq_div[where 'a = nat])
      simp
  also have "\<dots> \<longleftrightarrow> sdm_match d msrs a i"
    using contiguous_match[OF c, of "drop_bit 12 a"] aw by (simp add: sdm_match_def m_def b_def)
  finally show "range_begin (variable_entry d x msrs i) \<le> a \<and> a < range_end (variable_entry d x msrs i)
           \<longleftrightarrow> sdm_match d msrs a i" .
qed


text \<open>The scan over variable ranges sees the types of the ranges that hold the whole request.\<close>

primrec scan_types :: "ia32 \<Rightarrow> u8 list \<Rightarrow> u64 \<Rightarrow> u64 + u64" where
  "scan_types d [] r = Inr r"
| "scan_types d (t # ts) r =
     (if ucast t = cst d MEMORY_TYPE_UNCACHEABLE then Inl (cst d MEMORY_TYPE_UNCACHEABLE)
      else scan_types d ts
        (if ucast t = cst d MEMORY_TYPE_WRITE_BACK \<and> r = cst d MEMORY_TYPE_WRITE_THROUGH
         then cst d MEMORY_TYPE_WRITE_THROUGH else ucast t))"

definition covers :: "u64 \<Rightarrow> mtrr_data \<Rightarrow> bool" where
  "covers a e \<longleftrightarrow> range_begin e \<le> a \<and> a < range_end e"

lemma scan_choice:
  "(p \<Longrightarrow> t = wt) \<Longrightarrow>
   (if u then A else if p \<and> q then f wt else if b \<and> c then f wt else f t) =
   (if u then A else f (if b \<and> c then wt else t))"
  by auto

lemma scan_variable_entries:
  assumes "\<And>e. e \<in> set es \<Longrightarrow> enabled e \<and> \<not> fixed e"
    and "\<And>e. e \<in> set es \<Longrightarrow> covers start e \<Longrightarrow> start + len - 1 < range_end e"
  shows "mtrr_scan d start len es r = scan_types d (map mtrr_type (filter (covers start) es)) r"
  using assms
proof (induction es arbitrary: r)
  case (Cons e es)
  have IH: "mtrr_scan d start len es r = scan_types d (map mtrr_type (filter (covers start) es)) r" for r
    by (rule Cons.IH) (rule Cons.prems, erule list.set_intros(2))+
  show ?case
  proof (cases "covers start e")
    case True
    then have c: "(start < range_begin e \<or> range_end e \<le> start) = False"
        "(range_end e \<le> start + len - 1) = False"
      using Cons.prems(2)[OF list.set_intros(1) True] unfolding covers_def
      by (simp_all only: not_le not_less de_Morgan_disj simp_thms)
    have f: "(\<not> enabled e) = False" "fixed e = False"
      using Cons.prems(1)[OF list.set_intros(1)] by simp_all
    show ?thesis
      by (simp only: c f True IH mtrr_scan.simps scan_types.simps filter.simps list.map if_True if_False)
        (rule scan_choice)
  next
    case False
    then have "start < range_begin e \<or> range_end e \<le> start"
      by (simp only: covers_def de_Morgan_conj not_le not_less)
    then show ?thesis using False Cons.prems(1)[of e] IH by simp
  qed
qed simp

lemma scan_types_uc:
  assumes "memory_types d" "0 \<in> set ts"
  shows "scan_types d ts r = Inl 0"
  using assms(2)
proof (induction ts arbitrary: r)
  case (Cons t ts)
  then show ?case using assms(1) by (cases "t = 0") (auto simp: memory_types_def)
qed simp

lemma ucast_u8_u64 [simp]:
  "(ucast (t :: u8) :: u64) = ucast (u :: u8) \<longleftrightarrow> t = u"
proof
  assume "(ucast t :: u64) = ucast u"
  then have "unat (ucast t :: u64) = unat (ucast u :: u64)" by (simp only:)
  then have "unat t = unat u"
    using unat_lt_power[of t] unat_lt_power[of u] by (simp add: unsigned_ucast_eq take_bit_nat_eq_self)
  then show "t = u" by (simp only: word_unat_eq_iff)
qed simp

lemma scan_types_same:
  assumes "memory_types d" "t \<noteq> 0" "list_all (\<lambda>u. u = t) ts" "r = ucast t"
  shows "scan_types d ts r = Inr (ucast t)"
  using assms(3,4)
proof (induction ts arbitrary: r)
  case (Cons u ts)
  then show ?case
    using assms(1,2) ucast_u8_u64[of t 0] by (auto simp: memory_types_def)
qed simp

lemma scan_types_wt_wb:
  assumes "memory_types d" "list_all (\<lambda>u. u = 4 \<or> u = 6) ts"
  shows "scan_types d ts 4 = Inr 4"
    and "scan_types d ts 6 = Inr (if 4 \<in> set ts then 4 else 6)"
  using assms(2)
  by (induction ts) (use assms(1) in \<open>auto simp: memory_types_def\<close>)

lemma scan_types_combine:
  assumes "memory_types d" "sdm_combine dflt ts = Some t" "0xFF \<notin> set ts"
  shows "(case scan_types d ts (cst d MEMORY_TYPE_INVALID) of Inl r \<Rightarrow> r
          | Inr r \<Rightarrow> if r = cst d MEMORY_TYPE_INVALID then ucast dflt else r) = ucast t"
proof (cases ts)
  case Nil
  then show ?thesis using assms(2) by (simp add: sdm_combine_def)
next
  case (Cons h hs)
  consider (uc) "0 \<in> set ts" "t = 0"
    | (same) "h \<noteq> 0" "list_all (\<lambda>u. u = h) hs" "t = h"
    | (mix) "list_all (\<lambda>u. u = 4 \<or> u = 6) ts" "\<not> list_all (\<lambda>u. u = h) hs" "t = 4"
    using assms(2) Cons by (auto simp: sdm_combine_def split: if_splits)
  then show ?thesis
  proof cases
    case uc
    then show ?thesis using scan_types_uc[OF assms(1), of ts] by simp
  next
    case same
    have "scan_types d ts 0xFF = Inr (ucast h)"
      using Cons same assms(1) scan_types_same[OF assms(1), of h hs] ucast_u8_u64[of h 0]
      by (simp add: memory_types_def)
    then show ?thesis
      using assms(1,3) Cons same ucast_u8_u64[of h "0xFF"] by (simp add: memory_types_def)
  next
    case mix
    then have "h = 4 \<or> h = 6 \<and> 4 \<in> set hs"
      using Cons by (auto simp: list_all_iff)
    then have "scan_types d ts 0xFF = Inr 4"
      using Cons mix scan_types_wt_wb[OF assms(1), of hs] assms(1)
      by (auto simp: memory_types_def)
    then show ?thesis using assms(1) mix by (simp add: memory_types_def)
  qed
qed


section \<open>Properties\<close>

text \<open>
  C33. Reading the registers stores, in front of cleared entries, exactly the entries the registers
  describe: the 88 fixed ranges when they are supported and enabled, then one entry per valid
  variable range, in order. When these fill the 343 entries of the table, the store of the end
  marker lies outside it.
\<close>

theorem ept_init_mtrr_table:
  "ept_init_mtrr d x msrs =
     (let t = mtrr_table d x msrs in
      if length t < max_mtrrs
      then Inr \<lparr>g_mtrrs = t @ replicate (max_mtrrs - length t) cleared_mtrr,
                g_default_memory_type = ucast (get_m d (Mtrr Def_default_memory_type)
                                                 (msrs (msr_id d IA32_MTRR_DEF_TYPE)))\<rparr>
      else Inl (Out_of_bounds max_mtrrs))"
  by (rule init_table)

lemma init_ok:
  assumes "ept_init_mtrr d x msrs = Inr st"
  shows "take max_mtrrs (g_mtrrs st) =
           mtrr_table d x msrs @ replicate (max_mtrrs - length (mtrr_table d x msrs)) cleared_mtrr"
    and "g_default_memory_type st =
           ucast (get_m d (Mtrr Def_default_memory_type) (msrs (msr_id d IA32_MTRR_DEF_TYPE)))"
    and "length (mtrr_table d x msrs) < max_mtrrs"
  using assms by (auto simp: init_table Let_def split: if_splits)

lemma get_type_scan:
  assumes "ept_init_mtrr d x msrs = Inr st"
  shows "ept_get_memory_type d st a len =
     (case mtrr_scan d a len (mtrr_table d x msrs) (cst d MEMORY_TYPE_INVALID) of
        Inl r \<Rightarrow> r
      | Inr r \<Rightarrow> if r = cst d MEMORY_TYPE_INVALID then ucast (g_default_memory_type st) else r)"
  unfolding ept_get_memory_type_def init_ok(1)[OF assms] scan_all_cleared ..

lemma page_aligned_dvd: "page_aligned a \<longleftrightarrow> 4096 dvd unat a"
  using take_bit_0_dvd[of 12 a] by (simp add: page_aligned_def)

lemma fixed_range_type:
  assumes "ept_init_mtrr d x msrs = Inr st" "fixed_active d msrs"
    and "page_aligned a" "unat a < 0x100000"
  shows "ept_get_memory_type d st a 0x1000 = ucast (sdm_fixed_type d msrs (unat a))"
  using assms(2-4)
  by (simp add: get_type_scan[OF assms(1)] mtrr_table_def scan_fixed_table page_aligned_dvd)

text \<open>
  C29. With the fixed ranges on, a page below 1 MB gets the type of the byte the SDM assigns to it
  in the eleven fixed range registers, whatever the variable ranges say.
\<close>

theorem fixed_range_memory_type:
  assumes "ept_init_mtrr d x msrs = Inr st" "fixed_active d msrs"
    and "page_aligned a" "unat a < 0x100000"
  shows "ept_get_memory_type d st a 0x1000 = ucast (sdm_fixed_type d msrs (unat a))"
  by (rule fixed_range_type[OF assms])

text \<open>
  C28. For a page that no fixed range decides, the type is the SDM's combination of the types of
  the variable ranges whose base and mask match the page, whenever the SDM defines one: the
  interval the program derives from the lowest mask bit is the set of matching addresses.
\<close>

theorem variable_range_memory_type:
  assumes "memory_types d" "ept_init_mtrr d x msrs = Inr st"
    and "page_aligned a" "unat a < 2 ^ (12 + w)" "fixed_active d msrs \<longrightarrow> 0x100000 \<le> unat a"
    and "\<forall>i \<in> set (valid_variable d msrs). \<exists>k.
           contiguous w k (get_m d (Mtrr Physmask_page_frame_number) (physmask d msrs i))
             (get_m d (Mtrr Physbase_page_frame_number) (physbase d msrs i))"
    and "0xFF \<notin> set (sdm_types d msrs a)"
    and "sdm_combine (g_default_memory_type st) (sdm_types d msrs a) = Some t"
  shows "ept_get_memory_type d st a 0x1000 = ucast t"
proof -
  let ?vs = "map (variable_entry d x msrs) (valid_variable d msrs)"
  let ?r = "cst d MEMORY_TYPE_INVALID"
  have cov: "covers a (variable_entry d x msrs i) \<longleftrightarrow> sdm_match d msrs a i"
       and al: "4096 dvd unat (range_end (variable_entry d x msrs i))"
    if "i \<in> set (valid_variable d msrs)" for i
    using assms(6) that variable_entry_covers[OF _ assms(4)] unfolding covers_def by blast+
  have "mtrr_scan d a 0x1000 (mtrr_table d x msrs) ?r = mtrr_scan d a 0x1000 ?vs ?r"
    using assms(3,5) by (auto simp: mtrr_table_def scan_fixed_table page_aligned_dvd)
  also have "\<dots> = scan_types d (map mtrr_type (filter (covers a) ?vs)) ?r"
  proof (rule scan_variable_entries)
    fix e assume e: "e \<in> set ?vs"
    then show "enabled e \<and> \<not> fixed e" by (auto simp: variable_entry_def Let_def)
    assume "covers a e"
    moreover have "4096 dvd unat (range_end e)" using al e by auto
    ultimately show "a + 0x1000 - 1 < range_end e"
      using assms(3) by (intro page_inside) (simp_all add: covers_def page_aligned_dvd)
  qed
  also have "map mtrr_type (filter (covers a) ?vs) = sdm_types d msrs a"
    unfolding sdm_types_def filter_map comp_def map_map
    by (simp add: cov cong: filter_cong) (simp add: variable_entry_def Let_def)
  finally show ?thesis
    using scan_types_combine[OF assms(1,8,7)] by (simp add: get_type_scan[OF assms(2)])
qed


lemma scan_uncovered:
  "\<forall>e \<in> set es. \<not> covers a e \<Longrightarrow> mtrr_scan d a len es r = Inr r"
proof (induction es)
  case (Cons e es)
  then have c: "(a < range_begin e \<or> range_end e \<le> a) = True"
    by (simp only: covers_def list.set ball_simps de_Morgan_conj not_le not_less simp_thms)
  have "mtrr_scan d a len es r = Inr r" using Cons by simp
  then show ?case by (simp only: mtrr_scan.simps c if_True if_cancel)
qed simp

text \<open>
  Only the first address of a request selects a range. A request that begins outside every
  range gets the default type even when a range with another type lies inside it.
\<close>

theorem interior_range_ignored:
  assumes "ept_init_mtrr d x msrs = Inr st"
    and "\<forall>e \<in> set (mtrr_table d x msrs). \<not> covers a e"
  shows "ept_get_memory_type d st a len = ucast (g_default_memory_type st)"
  using scan_uncovered[OF assms(2)] by (simp add: get_type_scan[OF assms(1)])

section \<open>Witnesses\<close>

text \<open>
  A machine with the fixed registers on, an uncacheable gigabyte, an uncacheable page in the middle
  of a 2 MB page, and write-through memory inside write-back memory.
\<close>

definition sample_msrs :: msr_file where
  "sample_msrs m =
     (if m = 0xFE then 0x504 else if m = 0x2FF then 0xC06
      else if m = 0x250 then 0x0606060606060606 else if m = 0x258 then 0x0605040302010006
      else if m = 0x200 then 0xC0000000 else if m = 0x201 then 0xFFFFC0000800
      else if m = 0x202 then 0x201000 else if m = 0x203 then 0xFFFFFFFFF800
      else if m = 0x204 then 0x80000006 else if m = 0x205 then 0xFFFFC0000800
      else if m = 0x206 then 0x80000004 else if m = 0x207 then 0xFFFFFFE00800
      else 0)"

definition sample_x86 :: x86 where
  "sample_x86 = \<lparr>i_lsl = (\<lambda>_. None), i_lar = (\<lambda>_. None), i_cpuid = (\<lambda>_ _. (0, 0, 0, 0)), i_stale = 0\<rparr>"

lemma sample_active: "fixed_active sdm sample_msrs"
  by (simp add: fixed_active_def sample_msrs_def sdm_simps bf_get_def)

lemma sample_valid: "valid_variable sdm sample_msrs = [0, 1, 2, 3]"
  by (simp add: valid_variable_def sample_msrs_def physmask_def sdm_simps bf_get_def upt_rec)


definition sample_state :: mtrr_state where
  "sample_state =
     \<lparr>g_mtrrs = mtrr_table sdm sample_x86 sample_msrs @
        replicate (max_mtrrs - length (mtrr_table sdm sample_x86 sample_msrs)) cleared_mtrr,
      g_default_memory_type = 6\<rparr>"

lemma length_sample_table: "length (mtrr_table sdm sample_x86 sample_msrs) = 92"
  by (simp add: mtrr_table_def sample_active sample_valid fixed_blocks_def)

lemma sample_init: "ept_init_mtrr sdm sample_x86 sample_msrs = Inr sample_state"
  by (simp add: init_table Let_def length_sample_table sample_state_def max_mtrrs_defs)
    (simp add: sample_msrs_def bf_get_def)

lemma fixed_range_memory_type_witness:
  "ept_get_memory_type sdm sample_state 0x85000 0x1000 = 0
   \<and> ept_get_memory_type sdm sample_state 0x9D000 0x1000 = 6"
  using fixed_range_memory_type[OF sample_init sample_active, of "0x85000"]
    fixed_range_memory_type[OF sample_init sample_active, of "0x9D000"]
  by (simp add: page_aligned_def sdm_fixed_type_def sample_msrs_def fixed_types_def)

lemma sample_contiguous:
  "\<forall>i \<in> set (valid_variable sdm sample_msrs). \<exists>k.
     contiguous 36 k (get_m sdm (Mtrr Physmask_page_frame_number) (physmask sdm sample_msrs i))
       (get_m sdm (Mtrr Physbase_page_frame_number) (physbase sdm sample_msrs i))"
proof -
  have "contiguous 36 ([18, 0, 18, 9] ! i)
      (get_m sdm (Mtrr Physmask_page_frame_number) (physmask sdm sample_msrs i))
      (get_m sdm (Mtrr Physbase_page_frame_number) (physbase sdm sample_msrs i))"
    if "i = 0 \<or> i = 1 \<or> i = 2 \<or> i = 3" for i
    using that
    by (elim disjE) (simp_all add: contiguous_def physmask_def physbase_def sample_msrs_def bf_get_def
        mask_eq_exp_minus_1 push_bit_eq_mult)
  then show ?thesis unfolding sample_valid by auto
qed

lemma sample_types: "sdm_types sdm sample_msrs 0x80001000 = [6, 4]"
  by (simp add: sdm_types_def sample_valid sdm_match_def physmask_def physbase_def sample_msrs_def bf_get_def)

lemma variable_range_memory_type_witness:
  "ept_get_memory_type sdm sample_state 0x80001000 0x1000 = 4"
  using variable_range_memory_type[OF _ sample_init, of "0x80001000" 36 4] sample_contiguous
  by (simp add: page_aligned_def sample_types sdm_combine_def)

lemma sample_uncovered: "\<forall>e \<in> set (mtrr_table sdm sample_x86 sample_msrs). \<not> covers 0x200000 e"
proof
  fix e assume "e \<in> set (mtrr_table sdm sample_x86 sample_msrs)"
  then consider (f) "e \<in> set (fixed_table sdm sample_msrs fixed_blocks)"
    | (v) i where "i \<in> {0, 1, 2, 3}" "e = variable_entry sdm sample_x86 sample_msrs i"
    by (auto simp: mtrr_table_def sample_active sample_valid)
  then show "\<not> covers 0x200000 e"
  proof cases
    case f
    then show ?thesis
      by (auto simp: fixed_table_def fixed_blocks_def upt_rec fixed_entry_def covers_def)
  next
    case v
    have "\<not> sdm_match sdm sample_msrs 0x200000 i"
      using v(1) by (auto simp: sdm_match_def physmask_def physbase_def sample_msrs_def bf_get_def)
    moreover obtain k where "contiguous 36 k
        (get_m sdm (Mtrr Physmask_page_frame_number) (physmask sdm sample_msrs i))
        (get_m sdm (Mtrr Physbase_page_frame_number) (physbase sdm sample_msrs i))"
      using sample_contiguous v(1) unfolding sample_valid by auto
    ultimately show ?thesis
      using variable_entry_covers(1)[of 36 k sdm sample_msrs i "0x200000" sample_x86]
      by (simp add: v(2) covers_def)
  qed
qed

lemma interior_range_ignored_witness:
  "ept_get_memory_type sdm sample_state 0x200000 0x200000 = 6
   \<and> covers 0x201000 (variable_entry sdm sample_x86 sample_msrs 1)
   \<and> mtrr_type (variable_entry sdm sample_x86 sample_msrs 1) = 0"
proof -
  have "ept_get_memory_type sdm sample_state 0x200000 0x200000 = 6"
    using interior_range_ignored[OF sample_init sample_uncovered] by (simp add: sample_state_def)
  moreover have "covers 0x201000 (variable_entry sdm sample_x86 sample_msrs 1)"
    using variable_entry_covers(1)[of 36 0 sdm sample_msrs 1 "0x201000" sample_x86]
    by (simp add: covers_def sdm_match_def contiguous_def physmask_def physbase_def sample_msrs_def bf_get_def
        mask_eq_exp_minus_1)
  ultimately show ?thesis
    by (simp add: variable_entry_def Let_def physbase_def sample_msrs_def bf_get_def)
qed

text \<open>
  On a machine whose 88 fixed and 255 variable ranges are all in use the end marker is written
  one entry past the table.
\<close>

theorem mtrr_table_overflow:
  assumes "fixed_active d msrs" "length (valid_variable d msrs) = max_variable_range_mtrrs"
  shows "ept_init_mtrr d x msrs = Inl (Out_of_bounds 343)"
  using assms by (simp add: init_table mtrr_table_def fixed_blocks_def max_mtrrs_defs)

definition full_msrs :: msr_file where
  "full_msrs m = (if m = 0xFE then 0x5FF else if m = 0x2FF then 0xC06 else 0x800)"

lemma mtrr_table_overflow_witness:
  "ept_init_mtrr sdm sample_x86 full_msrs = Inl (Out_of_bounds 343)"
proof (rule mtrr_table_overflow)
  show "fixed_active sdm full_msrs"
    by (simp add: fixed_active_def full_msrs_def bf_get_def)
  have "get_m sdm (Mtrr Physmask_valid) (physmask sdm full_msrs i) \<noteq> 0" if "i < 255" for i
  proof -
    have "unat ((0x201 :: u32) + of_nat (i * 2)) = 0x201 + i * 2"
      using unat_add_small[of "0x201 :: u32" "i * 2"] that by simp
    then have "unat ((0x201 :: u32) + of_nat (i * 2)) \<noteq> unat (0xFE :: u32)" by simp
    then have "(0x201 :: u32) + of_nat (i * 2) \<noteq> 0xFE" by (intro notI) (simp only:)
    then show ?thesis by (simp add: physmask_def full_msrs_def bf_get_def)
  qed
  then have "valid_variable sdm full_msrs = [0..<255]"
    by (simp add: valid_variable_def full_msrs_def bf_get_def filter_id_conv)
  then show "length (valid_variable sdm full_msrs) = max_variable_range_mtrrs"
    by (simp add: max_mtrrs_defs)
qed

end
