(* ===== verification/Ept.thy ===== *)
theory Ept
  imports Mtrr
begin

text \<open>
  The extended page tables of \<^verbatim>\<open>hypervisor/ept.cc\<close> (lines 175 to 334): the construction of the
  four level identity map over the first 512 GB of guest physical memory, the lookup of the
  entries of an address and the cache invalidations. The tables live in the flat memory; every
  page of theirs comes from \<^verbatim>\<open>ldr_malloc\<close>, whose \<open>k\<close>-th answer is \<open>pg k\<close>. The reference notion
  is the page walk of the processor (SDM, chapter on EPT).
\<close>

section \<open>Construction\<close>

datatype ept_event = Splitting_pde | Bad_pt_entries

record ept_env =
  emem :: mem
  allocs :: nat
  core_ept_ptr :: u64
  elog :: "ept_event list"

type_synonym page_oracle = "nat \<Rightarrow> u64"
type_synonym mem_type_fn = "u64 \<Rightarrow> u64 \<Rightarrow> u64"

text \<open>\<^verbatim>\<open>ldr_malloc(0x1000)\<close> followed by \<^verbatim>\<open>memset(page, 0, 0x1000)\<close>, as every table page is obtained.\<close>

definition new_table :: "page_oracle \<Rightarrow> ept_env \<Rightarrow> u64 \<times> ept_env" where
  "new_table pg s =
     (let p = pg (allocs s)
      in (p, s\<lparr>emem := snd (memset (emem s) p 0 0x1000), allocs := Suc (allocs s)\<rparr>))"

definition put64 :: "u64 \<Rightarrow> u64 \<Rightarrow> ept_env \<Rightarrow> ept_env" where
  "put64 a v s = s\<lparr>emem := store64 (emem s) a v\<rparr>"

text \<open>The value of an entry after the member assignments of the source, in their order.\<close>

definition table_entry :: "ia32 \<Rightarrow> ept_struct \<Rightarrow> u64 \<Rightarrow> u64" where
  "table_entry d t table =
     (let e = 0;
          e = set_m d (Ept t Read_access) 1 e;
          e = set_m d (Ept t Write_access) 1 e;
          e = set_m d (Ept t Execute_access) 1 e
      in set_m d (Ept t Page_frame_number) (drop_bit 12 table) e)"

definition split_entry :: "ia32 \<Rightarrow> u64 \<Rightarrow> u64" where
  "split_entry d pts =
     (let e = 0;
          e = set_m d (Ept Epde Page_frame_number) (drop_bit 12 pts) e;
          e = set_m d (Ept Epde Read_access) 1 e;
          e = set_m d (Ept Epde Write_access) 1 e
      in set_m d (Ept Epde Execute_access) 1 e)"

definition big_entry :: "ia32 \<Rightarrow> u64 \<Rightarrow> u64 \<Rightarrow> u64" where
  "big_entry d mem_type addr =
     (let e = 0;
          e = set_m d (Ept Epde_2mb Read_access) 1 e;
          e = set_m d (Ept Epde_2mb Write_access) 1 e;
          e = set_m d (Ept Epde_2mb Execute_access) 1 e;
          e = set_m d (Ept Epde_2mb Large_page) 1 e;
          e = set_m d (Ept Epde_2mb Memory_type) mem_type e
      in set_m d (Ept Epde_2mb Page_frame_number) (drop_bit 12 addr) e)"

definition page_entry :: "ia32 \<Rightarrow> u64 \<Rightarrow> u64 \<Rightarrow> u64" where
  "page_entry d mem_type addr =
     (let e = 0;
          e = set_m d (Ept Epte Read_access) 1 e;
          e = set_m d (Ept Epte Write_access) 1 e;
          e = set_m d (Ept Epte Execute_access) 1 e;
          e = set_m d (Ept Epte Memory_type) mem_type e
      in set_m d (Ept Epte Page_frame_number) (drop_bit 12 addr) e)"

definition ept_address :: "nat \<Rightarrow> nat \<Rightarrow> nat \<Rightarrow> u64" where
  "ept_address pdpt_i pde_i pt_i = pt_to_address 0 (of_nat pdpt_i) (of_nat pde_i) (of_nat pt_i)"

definition ept_fill_pt :: "ia32 \<Rightarrow> mem_type_fn \<Rightarrow> u64 \<Rightarrow> nat \<Rightarrow> nat \<Rightarrow> nat \<Rightarrow> ept_env \<Rightarrow> ept_env" where
  "ept_fill_pt d mt pts pdpt_i pde_i pt_i s =
     (let addr = ept_address pdpt_i pde_i pt_i;
          pt = page_entry d (mt addr 0x1000) addr;
          s = put64 (slot pts pt_i) pt s
      in if get_m d (Ept Epte Memory_type) pt = cst d MEMORY_TYPE_INVALID
         then s\<lparr>elog := elog s @ [Bad_pt_entries]\<rparr> else s)"

definition ept_fill_pde :: "ia32 \<Rightarrow> mem_type_fn \<Rightarrow> page_oracle \<Rightarrow> u64 \<Rightarrow> nat \<Rightarrow> nat \<Rightarrow> ept_env \<Rightarrow> ept_env" where
  "ept_fill_pde d mt pg pdes pdpt_i pde_i s =
     (let addr = ept_address pdpt_i pde_i 0;
          mem_type = mt addr 0x200000
      in if mem_type \<noteq> cst d MEMORY_TYPE_INVALID
         then put64 (slot pdes pde_i) (big_entry d mem_type addr) s
         else
           let s = s\<lparr>elog := elog s @ [Splitting_pde]\<rparr>;
               (pts, s) = new_table pg s;
               s = put64 (slot pdes pde_i) (split_entry d pts) s
           in for_range 0 512 (ept_fill_pt d mt pts pdpt_i pde_i) s)"

definition ept_fill_pdpt :: "ia32 \<Rightarrow> mem_type_fn \<Rightarrow> page_oracle \<Rightarrow> u64 \<Rightarrow> nat \<Rightarrow> ept_env \<Rightarrow> ept_env" where
  "ept_fill_pdpt d mt pg pdpts pdpt_i s =
     (let (pdes, s) = new_table pg s;
          s = put64 (slot pdpts pdpt_i) (table_entry d Epdpte pdes) s
      in for_range 0 512 (ept_fill_pde d mt pg pdes pdpt_i) s)"

definition ept_init_core :: "ia32 \<Rightarrow> mem_type_fn \<Rightarrow> page_oracle \<Rightarrow> ept_env \<Rightarrow> ept_env" where
  "ept_init_core d mt pg s =
     (let (pml4, s) = new_table pg s;
          (pdpts, s) = new_table pg s;
          s = put64 (slot pml4 0) (table_entry d Ept_pml4 pdpts) s;
          s = for_range 0 512 (ept_fill_pdpt d mt pg pdpts) s;
          ptr = 0;
          ptr = set_m d (Ept Ept_pointer Memory_type) (cst d MEMORY_TYPE_WRITE_BACK) ptr;
          ptr = set_m d (Ept Ept_pointer Page_walk_length) (cst d EPT_PAGE_WALK_LENGTH_4) ptr;
          ptr = set_m d (Ept Ept_pointer Page_frame_number) (drop_bit 12 pml4) ptr
      in s\<lparr>core_ept_ptr := ptr\<rparr>)"

section \<open>Lookup and invalidation\<close>

datatype resolve_error = Null_store

record ept_entries =
  r_pml4 :: "u64 option"
  r_pdpt :: "u64 option"
  r_pd :: "u64 option"
  r_pt :: "u64 option"

text \<open>
  The four out-parameters are flags here: whether the caller passes a pointer. A stored null pointer
  is the address 0. For a large page the code stores through \<^verbatim>\<open>pt\<close> without the null check of the
  other three parameters.
\<close>

definition ept_resolve_entries ::
    "ia32 \<Rightarrow> mem \<Rightarrow> u64 \<Rightarrow> u64 \<Rightarrow> bool \<Rightarrow> bool \<Rightarrow> bool \<Rightarrow> bool \<Rightarrow> resolve_error + ept_entries" where
  "ept_resolve_entries d m eptp address pml4 pdpt pd pt =
     (let (pml4_i, pdpt_i, pd_i, pt_i) = address_to_pt address;
          out = \<lambda>wanted e. if wanted then Some e else None;
          pml4e = slot (push_bit 12 (get_m d (Ept Ept_pointer Page_frame_number) eptp)) (unat pml4_i);
          pdpte = slot (push_bit 12 (get_m d (Ept Ept_pml4 Page_frame_number) (load64 m pml4e))) (unat pdpt_i);
          pde = slot (push_bit 12 (get_m d (Ept Epdpte Page_frame_number) (load64 m pdpte))) (unat pd_i)
      in if get_m d (Ept Epde_2mb Large_page) (load64 m pde) \<noteq> 0
         then if pt
              then Inr \<lparr>r_pml4 = out pml4 pml4e, r_pdpt = out pdpt pdpte, r_pd = out pd pde, r_pt = Some 0\<rparr>
              else Inl Null_store
         else
           let pte = slot (push_bit 12 (get_m d (Ept Epde Page_frame_number) (load64 m pde))) (unat pt_i)
           in Inr \<lparr>r_pml4 = out pml4 pml4e, r_pdpt = out pdpt pdpte, r_pd = out pd pde, r_pt = out pt pte\<rparr>)"

text \<open>The instruction a cache invalidation issues: its type operand and its descriptor.\<close>

definition ept_invalidate_ept_cache :: "ia32 \<Rightarrow> u64 \<Rightarrow> u64 \<times> u64 list" where
  "ept_invalidate_ept_cache d ept_ptr =
     (if ept_ptr = 0 then cst d Invept_all_context else cst d Invept_single_context, [ept_ptr, 0])"

definition ept_invalidate_vpid_cache :: "ia32 \<Rightarrow> u16 \<Rightarrow> u64 \<times> u64 list" where
  "ept_invalidate_vpid_cache d vproc_id =
     (if vproc_id = 0 then cst d Invvpid_all_context else cst d Invvpid_single_context, [ucast vproc_id, 0])"

section \<open>Reference: the page walk\<close>

text \<open>
  The processor's walk of a four level table, for a guest physical address below 48 bits: an
  absent entry is None, otherwise the host physical address and the memory type.
\<close>

definition sdm_present :: "u64 \<Rightarrow> bool" where "sdm_present e \<longleftrightarrow> take_bit 3 e \<noteq> 0"
definition sdm_table :: "u64 \<Rightarrow> u64" where "sdm_table e = push_bit 12 (take_bit 36 (drop_bit 12 e))"
definition sdm_index :: "nat \<Rightarrow> u64 \<Rightarrow> nat" where "sdm_index lo a = unat (take_bit 9 (drop_bit lo a))"

definition sdm_translate :: "mem \<Rightarrow> u64 \<Rightarrow> u64 \<Rightarrow> (u64 \<times> u64) option" where
  "sdm_translate m eptp a =
     (let e4 = load64 m (slot (sdm_table eptp) (sdm_index 39 a));
          e3 = load64 m (slot (sdm_table e4) (sdm_index 30 a));
          e2 = load64 m (slot (sdm_table e3) (sdm_index 21 a));
          e1 = load64 m (slot (sdm_table e2) (sdm_index 12 a))
      in if \<not> sdm_present e4 \<or> \<not> sdm_present e3 \<or> \<not> sdm_present e2 then None
         else if bit e2 7
         then Some (push_bit 21 (take_bit 27 (drop_bit 21 e2)) OR take_bit 21 a, take_bit 3 (drop_bit 3 e2))
         else if \<not> sdm_present e1 then None
         else Some (sdm_table e1 OR take_bit 12 a, take_bit 3 (drop_bit 3 e1)))"


section \<open>Entries\<close>

lemmas ept_entry_defs = table_entry_def split_entry_def big_entry_def page_entry_def

definition usable_page :: "u64 \<Rightarrow> bool" where
  "usable_page p \<longleftrightarrow> page_aligned p \<and> unat p < 2 ^ 48"

lemma bit_page_aligned: "page_aligned p \<Longrightarrow> bit p i \<Longrightarrow> 12 \<le> i"
proof (rule ccontr)
  assume "page_aligned p" "bit p i" "\<not> 12 \<le> i"
  then have "bit (take_bit 12 p) i" by (simp add: bit_take_bit_iff)
  then show False using \<open>page_aligned p\<close> by (simp add: page_aligned_def)
qed

lemma bit_usable_page: "usable_page p \<Longrightarrow> bit p i \<Longrightarrow> 12 \<le> i \<and> i < 48"
proof -
  assume a: "usable_page p" "bit p i"
  then have "take_bit 48 p = p" by (intro take_bit_self_unat) (simp add: usable_page_def)
  then have "i < 48" using a(2) by (metis bit_take_bit_iff)
  then show ?thesis using a bit_page_aligned by (auto simp: usable_page_def)
qed

lemma sdm_table_bit: "bit (sdm_table e) i \<longleftrightarrow> 12 \<le> i \<and> i < 48 \<and> bit e i"
  by (auto simp: sdm_table_def bit_simps)

lemma sdm_tableI:
  "usable_page p \<Longrightarrow> (\<And>i. 12 \<le> i \<Longrightarrow> i < 48 \<Longrightarrow> bit e i = bit p i) \<Longrightarrow> sdm_table e = p"
  by (rule bit_word_eqI) (auto simp: sdm_table_bit dest: bit_usable_page)

lemma presentI: "bit e 0 \<Longrightarrow> sdm_present e"
proof -
  assume "bit e 0"
  then have "bit (take_bit 3 e) 0" by (simp add: bit_take_bit_iff)
  then show ?thesis by (metis bit_0_eq bot_apply bot_bool_def sdm_present_def)
qed

lemma ept_layoutD:
  assumes "ept_layout d"
  shows "t \<in> {Ept_pml4, Epdpte, Epde, Epte, Epde_2mb} \<Longrightarrow> fld d (Ept t Read_access) = (0, 1)"
    and "t \<in> {Ept_pml4, Epdpte, Epde, Epte, Epde_2mb} \<Longrightarrow> fld d (Ept t Write_access) = (1, 1)"
    and "t \<in> {Ept_pml4, Epdpte, Epde, Epte, Epde_2mb} \<Longrightarrow> fld d (Ept t Execute_access) = (2, 1)"
    and "t \<in> {Ept_pointer, Ept_pml4, Epdpte, Epde, Epte} \<Longrightarrow> fld d (Ept t Page_frame_number) = (12, 36)"
    and "fld d (Ept Epte Memory_type) = (3, 3)" "fld d (Ept Epde_2mb Memory_type) = (3, 3)"
    and "fld d (Ept Epde_2mb Large_page) = (7, 1)" "fld d (Ept Epde_2mb Page_frame_number) = (21, 27)"
    and "fld d (Ept Ept_pointer Memory_type) = (0, 3)" "fld d (Ept Ept_pointer Page_walk_length) = (3, 3)"
  using assms by (auto simp: ept_layout_def)

text \<open>The bits of an entry with the access rights set and a frame number stored at bit \<open>lo\<close>.\<close>

lemma bit_set_1: "bit (bf_set (k, 1) 1 x) i \<longleftrightarrow> i < 64 \<and> (i = k \<or> bit x i)" for x :: u64
  unfolding bit_bf_set by (cases "i = k") (auto simp: bit_1_iff)

lemma bit_set_field:
  "bit (bf_set (lo, w) v x) i \<longleftrightarrow> i < 64 \<and> (if lo \<le> i \<and> i < lo + w then bit v (i - lo) else bit x i)"
  for x :: u64
  by (simp add: bit_bf_set)

lemma less_3_cases: "i < 3 \<longleftrightarrow> i = 0 \<or> i = 1 \<or> i = (2 :: nat)"
  by auto

lemma bit_table_entry:
  assumes "ept_layout d" "t \<in> {Ept_pml4, Epdpte, Epde, Epte}"
  shows "bit (table_entry d t p) i \<longleftrightarrow> i < 3 \<or> 12 \<le> i \<and> i < 48 \<and> bit p i"
proof -
  have t: "t \<in> {Ept_pml4, Epdpte, Epde, Epte, Epde_2mb}" "t \<in> {Ept_pointer, Ept_pml4, Epdpte, Epde, Epte}"
    using assms(2) by auto
  show ?thesis
    unfolding table_entry_def Let_def ept_layoutD(1-3)[OF assms(1) t(1)] ept_layoutD(4)[OF assms(1) t(2)]
      bit_set_1 bit_set_field less_3_cases bit_drop_bit_eq comp_apply
    by auto
qed

lemma bit_split_entry:
  assumes "ept_layout d"
  shows "bit (split_entry d p) i \<longleftrightarrow> i < 3 \<or> 12 \<le> i \<and> i < 48 \<and> bit p i"
proof -
  have t: "Epde \<in> {Ept_pml4, Epdpte, Epde, Epte, Epde_2mb}" "Epde \<in> {Ept_pointer, Ept_pml4, Epdpte, Epde, Epte}"
    by auto
  show ?thesis
    unfolding split_entry_def Let_def ept_layoutD(1-3)[OF assms(1) t(1)] ept_layoutD(4)[OF assms(1) t(2)]
      bit_set_1 bit_set_field less_3_cases bit_drop_bit_eq comp_apply
    by auto
qed

lemma bit_page_entry:
  assumes "ept_layout d"
  shows "bit (page_entry d mt p) i \<longleftrightarrow>
           i < 3 \<or> 3 \<le> i \<and> i < 6 \<and> bit mt (i - 3) \<or> 12 \<le> i \<and> i < 48 \<and> bit p i"
proof -
  have t: "Epte \<in> {Ept_pml4, Epdpte, Epde, Epte, Epde_2mb}" "Epte \<in> {Ept_pointer, Ept_pml4, Epdpte, Epde, Epte}"
    by auto
  show ?thesis
    unfolding page_entry_def Let_def ept_layoutD(1-3)[OF assms(1) t(1)] ept_layoutD(4)[OF assms(1) t(2)]
      ept_layoutD(5)[OF assms] bit_set_1 bit_set_field less_3_cases bit_drop_bit_eq comp_apply
    by auto
qed

lemma bit_big_entry:
  assumes "ept_layout d"
  shows "bit (big_entry d mt p) i \<longleftrightarrow>
           i < 3 \<or> 3 \<le> i \<and> i < 6 \<and> bit mt (i - 3) \<or> i = 7 \<or> 21 \<le> i \<and> i < 48 \<and> bit p (i - 9)"
proof -
  have t: "Epde_2mb \<in> {Ept_pml4, Epdpte, Epde, Epte, Epde_2mb}" by auto
  have s: "21 \<le> i \<Longrightarrow> i - 21 + 12 = i - 9" by linarith
  show ?thesis
    unfolding big_entry_def Let_def ept_layoutD(1-3)[OF assms(1) t(1)]
      ept_layoutD(6-8)[OF assms] bit_set_1 bit_set_field less_3_cases bit_drop_bit_eq comp_apply
    using s by (auto simp: add.commute)
qed


section \<open>What the construction leaves in memory\<close>

definition fresh_pages :: "page_oracle \<Rightarrow> nat \<Rightarrow> bool" where
  "fresh_pages pg n \<longleftrightarrow> (\<forall>k < n. usable_page (pg k)) \<and> inj_on pg {..<n}"

definition is_split :: "ia32 \<Rightarrow> mem_type_fn \<Rightarrow> nat \<Rightarrow> nat \<Rightarrow> bool" where
  "is_split d mt i j \<longleftrightarrow> mt (ept_address i j 0) 0x200000 = cst d MEMORY_TYPE_INVALID"

text \<open>Which allocation holds which table: the split pages of a directory follow the directory.\<close>

definition splits_before :: "ia32 \<Rightarrow> mem_type_fn \<Rightarrow> nat \<Rightarrow> nat \<Rightarrow> nat" where
  "splits_before d mt i j = length (filter (is_split d mt i) [0..<j])"

primrec pd_index :: "ia32 \<Rightarrow> mem_type_fn \<Rightarrow> nat \<Rightarrow> nat" where
  "pd_index d mt 0 = 2"
| "pd_index d mt (Suc i) = pd_index d mt i + 1 + splits_before d mt i 512"

definition pt_index_of :: "ia32 \<Rightarrow> mem_type_fn \<Rightarrow> nat \<Rightarrow> nat \<Rightarrow> nat" where
  "pt_index_of d mt i j = pd_index d mt i + 1 + splits_before d mt i j"

text \<open>Memory outside the pages numbered by \<open>K\<close> is as before.\<close>

definition frame :: "page_oracle \<Rightarrow> nat set \<Rightarrow> mem \<Rightarrow> mem \<Rightarrow> bool" where
  "frame pg K m m' \<longleftrightarrow>
     (\<forall>b. aligned8 b \<longrightarrow> page_of b \<notin> (page_of \<circ> pg) ` K \<longrightarrow> load64 m' b = load64 m b)"

lemma frame_refl [simp]: "frame pg K m m"
  by (simp add: frame_def)

lemma frame_trans: "frame pg K m m' \<Longrightarrow> frame pg L m' m'' \<Longrightarrow> frame pg (K \<union> L) m m''"
  by (auto simp: frame_def image_Un)

lemma frame_mono: "frame pg K m m' \<Longrightarrow> K \<subseteq> L \<Longrightarrow> frame pg L m m'"
  unfolding frame_def by (meson image_mono subsetD)

lemma frame_memset: "page_aligned (pg k) \<Longrightarrow> frame pg {k} m (snd (memset m (pg k) 0 0x1000))"
  by (simp add: frame_def load64_memset_page)

lemma frame_store: "page_aligned (pg k) \<Longrightarrow> i < 512 \<Longrightarrow> frame pg {k} m (store64 m (slot (pg k) i) v)"
  by (simp add: frame_def cells.rd_wr_other_page)

lemma frame_fill:
  "page_aligned (pg k) \<Longrightarrow> frame pg {k} m (for_range 0 512 (\<lambda>i m. store64 m (slot (pg k) i) (f i)) m)"
  by (simp add: frame_def cells.rd_fill_other_page)

lemma fresh_aligned: "fresh_pages pg n \<Longrightarrow> k < n \<Longrightarrow> page_aligned (pg k)"
  by (simp add: fresh_pages_def usable_page_def)

lemma fresh_page_of:
  assumes "fresh_pages pg n" "k < n" "l < n"
  shows "page_of (pg k) = page_of (pg l) \<longleftrightarrow> k = l"
proof
  assume "page_of (pg k) = page_of (pg l)"
  then have "pg k = pg l" using assms fresh_aligned by (blast intro: page_of_inj)
  then show "k = l" using assms by (auto simp: fresh_pages_def inj_on_def)
qed simp

lemma frame_slot:
  assumes "frame pg K m m'" "fresh_pages pg n" "K \<subseteq> {..<n}" "k < n" "k \<notin> K" "i < 512"
  shows "load64 m' (slot (pg k) i) = load64 m (slot (pg k) i)"
proof -
  have "page_of (slot (pg k) i) \<notin> (page_of \<circ> pg) ` K"
    using assms fresh_page_of[OF assms(2,4)] fresh_aligned[OF assms(2,4)] by auto
  then show ?thesis
    using assms(1) slot_aligned8[OF fresh_aligned[OF assms(2,4)]] by (simp add: frame_def)
qed

text \<open>The memory type stored in a page entry has three bits, so it is never the invalid marker.\<close>

lemma page_entry_type_valid:
  assumes "ept_layout d" "memory_types d"
  shows "get_m d (Ept Epte Memory_type) e \<noteq> cst d MEMORY_TYPE_INVALID"
proof -
  have "unat (bf_get (3, 3) e) < 2 ^ 3"
    using unat_take_bit_less[of 3 "drop_bit 3 e"] by (simp add: bf_get_def)
  then have "bf_get (3, 3) e \<noteq> 0xFF" by auto
  then show ?thesis using assms by (simp add: ept_layoutD memory_types_def)
qed

lemma fill_pts:
  assumes "ept_layout d" "memory_types d"
  shows "for_range 0 n (ept_fill_pt d mt pts i j) s =
     s\<lparr>emem := for_range 0 n (\<lambda>k m. store64 m (slot pts k)
                  (page_entry d (mt (ept_address i j k) 0x1000) (ept_address i j k))) (emem s)\<rparr>"
proof (induction n)
  case (Suc n)
  then show ?case
    by (simp add: for_range_Suc ept_fill_pt_def Let_def page_entry_type_valid[OF assms] put64_def)
qed simp

definition pde_ok :: "ia32 \<Rightarrow> mem_type_fn \<Rightarrow> page_oracle \<Rightarrow> mem \<Rightarrow> u64 \<Rightarrow> nat \<Rightarrow> nat \<Rightarrow> nat \<Rightarrow> bool" where
  "pde_ok d mt pg m P t i j \<longleftrightarrow>
     (if is_split d mt i j
      then load64 m (slot P j) = split_entry d (pg t) \<and>
           (\<forall>k < 512. load64 m (slot (pg t) k) =
              page_entry d (mt (ept_address i j k) 0x1000) (ept_address i j k))
      else load64 m (slot P j) = big_entry d (mt (ept_address i j 0) 0x200000) (ept_address i j 0))"

lemma splits_before_Suc:
  "splits_before d mt i (Suc j) = splits_before d mt i j + (if is_split d mt i j then 1 else 0)"
  by (simp add: splits_before_def)

lemma splits_before_mono: "j \<le> k \<Longrightarrow> splits_before d mt i j \<le> splits_before d mt i k"
  by (induction k rule: dec_induct) (simp_all add: splits_before_Suc)

text \<open>One directory entry: it is as specified, and nothing but its slot and its new page changes.\<close>

lemma fill_pde_split:
  assumes "ept_layout d" "memory_types d" "is_split d mt i j"
  shows "ept_fill_pde d mt pg pdes i j s =
     s\<lparr>emem := for_range 0 512 (\<lambda>k m. store64 m (slot (pg (allocs s)) k)
                (page_entry d (mt (ept_address i j k) 0x1000) (ept_address i j k)))
               (store64 (snd (memset (emem s) (pg (allocs s)) 0 0x1000)) (slot pdes j)
                  (split_entry d (pg (allocs s)))),
       allocs := Suc (allocs s), elog := elog s @ [Splitting_pde]\<rparr>"
  using assms(3)
  by (simp add: ept_fill_pde_def Let_def is_split_def new_table_def put64_def fill_pts[OF assms(1,2)])

lemma fill_pde_big:
  assumes "\<not> is_split d mt i j"
  shows "ept_fill_pde d mt pg pdes i j s =
     put64 (slot pdes j) (big_entry d (mt (ept_address i j 0) 0x200000) (ept_address i j 0)) s"
  using assms by (simp add: ept_fill_pde_def Let_def is_split_def)

lemma fill_pde_step:
  assumes "ept_layout d" "memory_types d" "fresh_pages pg N" "p < allocs s" "j < 512"
    and "allocs s + (if is_split d mt i j then 1 else 0) \<le> N"
  defines "s' \<equiv> ept_fill_pde d mt pg (pg p) i j s"
  shows "allocs s' = allocs s + (if is_split d mt i j then 1 else 0)"
    and "pde_ok d mt pg (emem s') (pg p) (allocs s) i j"
    and "frame pg ({p} \<union> {allocs s..<allocs s'}) (emem s) (emem s')"
    and "j' < 512 \<Longrightarrow> j' \<noteq> j \<Longrightarrow> load64 (emem s') (slot (pg p) j') = load64 (emem s) (slot (pg p) j')"
proof -
  have al: "page_aligned (pg p)"
    using assms(4,6) by (intro fresh_aligned[OF assms(3)]) (simp split: if_splits)
  have "allocs s' = allocs s + (if is_split d mt i j then 1 else 0) \<and>
        pde_ok d mt pg (emem s') (pg p) (allocs s) i j \<and>
        frame pg ({p} \<union> {allocs s..<allocs s'}) (emem s) (emem s') \<and>
        (j' < 512 \<longrightarrow> j' \<noteq> j \<longrightarrow> load64 (emem s') (slot (pg p) j') = load64 (emem s) (slot (pg p) j'))"
  proof (cases "is_split d mt i j")
    case False
    then show ?thesis
      using al assms(5) frame_store[of pg p j]
      by (simp add: s'_def fill_pde_big pde_ok_def put64_def load_store_same cells.rd_wr_slot)
  next
    case True
    let ?n = "allocs s"
    have n: "?n < N" "p \<noteq> ?n" using assms(4,6) True by auto
    then have aln: "page_aligned (pg ?n)" and ne: "page_of (pg p) \<noteq> page_of (pg ?n)"
      using fresh_aligned[OF assms(3)] fresh_page_of[OF assms(3), of p ?n] assms(4) by auto
    let ?m1 = "snd (memset (emem s) (pg ?n) 0 0x1000)"
    let ?m2 = "store64 ?m1 (slot (pg p) j) (split_entry d (pg ?n))"
    let ?m3 = "for_range 0 512 (\<lambda>k m. store64 m (slot (pg ?n) k)
                (page_entry d (mt (ept_address i j k) 0x1000) (ept_address i j k))) ?m2"
    have fr: "frame pg (({?n} \<union> {p}) \<union> {?n}) (emem s) ?m3"
      by (rule frame_trans[OF frame_trans[OF frame_memset[where pg = pg and k = ?n]
            frame_store[where pg = pg and k = p]] frame_fill[where pg = pg and k = ?n]])
        (simp_all add: al aln assms(5))
    have at: "load64 ?m3 (slot (pg p) j') = load64 ?m2 (slot (pg p) j')" if "j' < 512" for j'
      using al aln ne that by (intro cells.rd_fill_other_page) simp_all
    have "load64 ?m2 (slot (pg p) j') = load64 (emem s) (slot (pg p) j')" if "j' < 512" "j' \<noteq> j" for j'
      using al aln ne that assms(5) by (simp add: cells.rd_wr_slot load64_memset_page)
    moreover have "load64 ?m2 (slot (pg p) j) = split_entry d (pg ?n)"
      by (simp add: load_store_same)
    moreover have "{p} \<union> {?n..<Suc ?n} = ({?n} \<union> {p}) \<union> {?n}" by auto
    ultimately show ?thesis
      using True at assms(5) fr aln
      by (simp add: s'_def fill_pde_split[OF assms(1,2)] pde_ok_def cells.rd_fill_slots)
  qed
  then show "allocs s' = allocs s + (if is_split d mt i j then 1 else 0)"
       "pde_ok d mt pg (emem s') (pg p) (allocs s) i j"
       "frame pg ({p} \<union> {allocs s..<allocs s'}) (emem s) (emem s')"
       "j' < 512 \<Longrightarrow> j' \<noteq> j \<Longrightarrow> load64 (emem s') (slot (pg p) j') = load64 (emem s) (slot (pg p) j')"
    by blast+
qed

lemma pde_ok_frame:
  assumes "pde_ok d mt pg m (pg p) t i j" "frame pg K m m'" "fresh_pages pg N" "K \<subseteq> {..<N}"
    and "p < N" "p \<notin> K \<or> load64 m' (slot (pg p) j) = load64 m (slot (pg p) j)"
    and "is_split d mt i j \<Longrightarrow> t < N \<and> t \<notin> K" "j < 512"
  shows "pde_ok d mt pg m' (pg p) t i j"
proof -
  have "load64 m' (slot (pg p) j) = load64 m (slot (pg p) j)"
    using assms(6) frame_slot[OF assms(2-5) _ assms(8)] by blast
  moreover have "load64 m' (slot (pg t) k) = load64 m (slot (pg t) k)" if "is_split d mt i j" "k < 512" for k
    using frame_slot[OF assms(2-4)] assms(7) that by blast
  ultimately show ?thesis using assms(1) by (simp add: pde_ok_def)
qed

text \<open>A whole directory of 512 entries.\<close>

lemma fill_pdes:
  assumes "ept_layout d" "memory_types d" "fresh_pages pg N" "p < allocs s" "n \<le> 512"
    and "allocs s + splits_before d mt i n \<le> N"
  defines "s' \<equiv> for_range 0 n (ept_fill_pde d mt pg (pg p) i) s"
  shows "allocs s' = allocs s + splits_before d mt i n \<and>
     frame pg ({p} \<union> {allocs s..<allocs s'}) (emem s) (emem s') \<and>
     (\<forall>j < n. pde_ok d mt pg (emem s') (pg p) (allocs s + splits_before d mt i j) i j)"
  using assms(5,6) unfolding s'_def
proof (induction n)
  case 0
  then show ?case by (simp add: splits_before_def)
next
  case (Suc n)
  define q where "q = for_range 0 n (ept_fill_pde d mt pg (pg p) i) s"
  have "splits_before d mt i n \<le> splits_before d mt i (Suc n)"
    by (rule splits_before_mono) simp
  with Suc have "allocs q = allocs s + splits_before d mt i n \<and>
      frame pg ({p} \<union> {allocs s..<allocs q}) (emem s) (emem q) \<and>
      (\<forall>j < n. pde_ok d mt pg (emem q) (pg p) (allocs s + splits_before d mt i j) i j)"
    unfolding q_def by (intro Suc.IH) linarith+
  then have IH: "allocs q = allocs s + splits_before d mt i n"
      "frame pg ({p} \<union> {allocs s..<allocs q}) (emem s) (emem q)"
      "\<And>j. j < n \<Longrightarrow> pde_ok d mt pg (emem q) (pg p) (allocs s + splits_before d mt i j) i j"
    by blast+
  define r where "r = ept_fill_pde d mt pg (pg p) i n q"
  have b: "p < allocs q" "n < 512" "allocs q + (if is_split d mt i n then 1 else 0) \<le> N"
    using assms(4) IH(1) Suc.prems by (auto simp: splits_before_Suc)
  note step = fill_pde_step[OF assms(1-3) b, folded r_def]
  have old: "pde_ok d mt pg (emem r) (pg p) (allocs s + splits_before d mt i j) i j" if "j < n" for j
  proof (rule pde_ok_frame[OF IH(3)[OF that] step(3) assms(3)])
    show "{p} \<union> {allocs q..<allocs r} \<subseteq> {..<N}" using b step(1) by auto
    show "p < N" using b by auto
    show "p \<notin> {p} \<union> {allocs q..<allocs r} \<or> load64 (emem r) (slot (pg p) j) = load64 (emem q) (slot (pg p) j)"
      using step(4)[of j] that b(2) by simp
    show "j < 512" using that b by simp
    assume "is_split d mt i j"
    then have "splits_before d mt i j < splits_before d mt i n"
      using splits_before_mono[of "Suc j" n d mt i] that by (simp add: splits_before_Suc)
    then show "allocs s + splits_before d mt i j < N \<and>
        allocs s + splits_before d mt i j \<notin> {p} \<union> {allocs q..<allocs r}"
      using IH(1) b assms(4) by auto
  qed
  have "frame pg ({p} \<union> {allocs s..<allocs r}) (emem s) (emem r)"
    by (rule frame_mono[OF frame_trans[OF IH(2) step(3)]]) (use IH(1) step(1) in auto)
  moreover have "\<forall>j < Suc n. pde_ok d mt pg (emem r) (pg p) (allocs s + splits_before d mt i j) i j"
    using old step(2) IH(1) by (auto simp: less_Suc_eq)
  ultimately show ?case
    using step(1) IH(1) by (simp add: for_range_Suc splits_before_Suc flip: q_def r_def)
qed


definition pdpt_ok :: "ia32 \<Rightarrow> mem_type_fn \<Rightarrow> page_oracle \<Rightarrow> mem \<Rightarrow> u64 \<Rightarrow> nat \<Rightarrow> nat \<Rightarrow> bool" where
  "pdpt_ok d mt pg m pdpts p i \<longleftrightarrow>
     load64 m (slot pdpts i) = table_entry d Epdpte (pg p) \<and>
     (\<forall>j < 512. pde_ok d mt pg m (pg p) (p + 1 + splits_before d mt i j) i j)"

lemma fill_pdpt_step:
  assumes "ept_layout d" "memory_types d" "fresh_pages pg N" "c < allocs s" "i < 512"
    and "allocs s + 1 + splits_before d mt i 512 \<le> N"
  defines "s' \<equiv> ept_fill_pdpt d mt pg (pg c) i s"
  shows "allocs s' = allocs s + 1 + splits_before d mt i 512"
    and "pdpt_ok d mt pg (emem s') (pg c) (allocs s) i"
    and "frame pg ({c} \<union> {allocs s..<allocs s'}) (emem s) (emem s')"
    and "i' < 512 \<Longrightarrow> i' \<noteq> i \<Longrightarrow> load64 (emem s') (slot (pg c) i') = load64 (emem s) (slot (pg c) i')"
proof -
  let ?p = "allocs s"
  let ?m1 = "snd (memset (emem s) (pg ?p) 0 0x1000)"
  define q where "q = s\<lparr>allocs := Suc ?p, emem := store64 ?m1 (slot (pg c) i) (table_entry d Epdpte (pg ?p))\<rparr>"
  have s': "s' = for_range 0 512 (ept_fill_pde d mt pg (pg ?p) i) q"
    by (simp add: s'_def ept_fill_pdpt_def new_table_def put64_def Let_def q_def)
  have lt: "?p < N" "c < N" "c \<noteq> ?p" using assms(4,6) by auto
  then have al: "page_aligned (pg c)" "page_aligned (pg ?p)" and ne: "page_of (pg c) \<noteq> page_of (pg ?p)"
    using fresh_aligned[OF assms(3)] fresh_page_of[OF assms(3), of c ?p] by auto
  have "?p < allocs q" "allocs q + splits_before d mt i 512 \<le> N" using assms(6) by (auto simp: q_def)
  from fill_pdes[OF assms(1-3) this(1) order_refl this(2), folded s']
  have f: "allocs s' = allocs q + splits_before d mt i 512"
    "frame pg ({?p} \<union> {allocs q..<allocs s'}) (emem q) (emem s')"
    "\<forall>j < 512. pde_ok d mt pg (emem s') (pg ?p) (allocs q + splits_before d mt i j) i j"
    by blast+
  show a: "allocs s' = ?p + 1 + splits_before d mt i 512" using f(1) by (simp add: q_def)
  have "frame pg ({?p} \<union> {c}) (emem s) (emem q)"
    using frame_trans[OF frame_memset[where pg = pg and k = ?p] frame_store[where pg = pg and k = c]]
    by (simp add: q_def al assms(5) del: Un_insert_left Un_insert_right)
  from frame_trans[OF this f(2)]
  have "frame pg (({?p} \<union> {c}) \<union> ({?p} \<union> {allocs q..<allocs s'})) (emem s) (emem s')" .
  then show "frame pg ({c} \<union> {?p..<allocs s'}) (emem s) (emem s')"
    by (rule frame_mono) (use a in \<open>auto simp: q_def\<close>)
  have keep: "load64 (emem s') (slot (pg c) k) = load64 (emem q) (slot (pg c) k)" if "k < 512" for k
    by (rule frame_slot[OF f(2) assms(3)]) (use lt a assms(4,6) that in \<open>auto simp: q_def\<close>)
  show "i' < 512 \<Longrightarrow> i' \<noteq> i \<Longrightarrow> load64 (emem s') (slot (pg c) i') = load64 (emem s) (slot (pg c) i')"
    using keep[of i'] al ne assms(5) by (simp add: q_def cells.rd_wr_slot load64_memset_page)
  show "pdpt_ok d mt pg (emem s') (pg c) ?p i"
    using keep[OF assms(5)] f(3) by (simp add: pdpt_ok_def q_def load_store_same)
qed

lemma pd_index_ge: "2 \<le> pd_index d mt i"
  by (induction i) auto

lemma pd_index_mono: "i \<le> k \<Longrightarrow> pd_index d mt i \<le> pd_index d mt k"
  by (induction k rule: dec_induct) auto

lemma fill_pdpts:
  assumes "ept_layout d" "memory_types d" "fresh_pages pg N" "allocs s = 2" "n \<le> 512"
    and "pd_index d mt n \<le> N"
  defines "s' \<equiv> for_range 0 n (ept_fill_pdpt d mt pg (pg 1)) s"
  shows "allocs s' = pd_index d mt n \<and> frame pg {1..<pd_index d mt n} (emem s) (emem s') \<and>
     (\<forall>i < n. pdpt_ok d mt pg (emem s') (pg 1) (pd_index d mt i) i)"
  using assms(5,6) unfolding s'_def
proof (induction n)
  case 0
  then show ?case using assms(4) by simp
next
  case (Suc n)
  define q where "q = for_range 0 n (ept_fill_pdpt d mt pg (pg 1)) s"
  from Suc have "allocs q = pd_index d mt n \<and> frame pg {1..<pd_index d mt n} (emem s) (emem q) \<and>
      (\<forall>i < n. pdpt_ok d mt pg (emem q) (pg 1) (pd_index d mt i) i)"
    unfolding q_def by (intro Suc.IH) auto
  then have IH: "allocs q = pd_index d mt n" "frame pg {1..<pd_index d mt n} (emem s) (emem q)"
      "\<And>i. i < n \<Longrightarrow> pdpt_ok d mt pg (emem q) (pg 1) (pd_index d mt i) i"
    by blast+
  define r where "r = ept_fill_pdpt d mt pg (pg 1) n q"
  have b: "1 < allocs q" "n < 512" "allocs q + 1 + splits_before d mt n 512 \<le> N"
    using IH(1) Suc.prems pd_index_ge[of d mt n] by auto
  note step = fill_pdpt_step[OF assms(1-3) b, folded r_def]
  have K: "{1} \<union> {allocs q..<allocs r} \<subseteq> {..<N}" using b step(1) by auto
  have old: "pdpt_ok d mt pg (emem r) (pg 1) (pd_index d mt i) i" if "i < n" for i
  proof -
    have lt: "pd_index d mt i + splits_before d mt i 512 < allocs q"
      using IH(1) pd_index_mono[of "Suc i" n d mt] that by simp
    have ge: "2 \<le> pd_index d mt i" by (rule pd_index_ge)
    have "pde_ok d mt pg (emem r) (pg (pd_index d mt i)) (pd_index d mt i + 1 + splits_before d mt i j) i j"
      if "j < 512" for j
    proof (rule pde_ok_frame[OF _ step(3) assms(3) K])
      show "pde_ok d mt pg (emem q) (pg (pd_index d mt i)) (pd_index d mt i + 1 + splits_before d mt i j) i j"
        using IH(3)[OF \<open>i < n\<close>] that by (simp add: pdpt_ok_def)
      show "pd_index d mt i < N" using lt b by simp
      show "pd_index d mt i \<notin> {1} \<union> {allocs q..<allocs r} \<or>
        load64 (emem r) (slot (pg (pd_index d mt i)) j) = load64 (emem q) (slot (pg (pd_index d mt i)) j)"
        using lt ge by auto
      assume "is_split d mt i j"
      then have "splits_before d mt i j < splits_before d mt i 512"
        using splits_before_mono[of "Suc j" 512 d mt i] that by (simp add: splits_before_Suc)
      then show "pd_index d mt i + 1 + splits_before d mt i j < N \<and>
          pd_index d mt i + 1 + splits_before d mt i j \<notin> {1} \<union> {allocs q..<allocs r}"
        using lt ge b by auto
    qed (rule that)
    moreover have "load64 (emem r) (slot (pg 1) i) = load64 (emem q) (slot (pg 1) i)"
      using step(4)[of i] that b(2) by simp
    ultimately show ?thesis using IH(3)[OF that] by (simp add: pdpt_ok_def)
  qed
  have "frame pg {1..<allocs r} (emem s) (emem r)"
    by (rule frame_mono[OF frame_trans[OF IH(2) step(3)]]) (use IH(1) step(1) b in auto)
  moreover have "\<forall>i < Suc n. pdpt_ok d mt pg (emem r) (pg 1) (pd_index d mt i) i"
    using old step(2) IH(1) by (auto simp: less_Suc_eq)
  moreover have "for_range 0 (Suc n) (ept_fill_pdpt d mt pg (pg 1)) s = r"
    unfolding r_def q_def by (rule for_range_Suc) simp
  ultimately show ?case
    using step(1) IH(1) by (simp only: pd_index.simps simp_thms)
qed


definition ept_pointer_value :: "ia32 \<Rightarrow> u64 \<Rightarrow> u64" where
  "ept_pointer_value d pml4 =
     set_m d (Ept Ept_pointer Page_frame_number) (drop_bit 12 pml4)
       (set_m d (Ept Ept_pointer Page_walk_length) (cst d EPT_PAGE_WALK_LENGTH_4)
         (set_m d (Ept Ept_pointer Memory_type) (cst d MEMORY_TYPE_WRITE_BACK) 0))"

lemma ept_init_core_image:
  assumes "ept_layout d" "memory_types d" "allocs s = 0" "fresh_pages pg (pd_index d mt 512)"
  defines "s' \<equiv> ept_init_core d mt pg s"
  shows "allocs s' = pd_index d mt 512"
    and "core_ept_ptr s' = ept_pointer_value d (pg 0)"
    and "k < 512 \<Longrightarrow> load64 (emem s') (slot (pg 0) k) = (if k = 0 then table_entry d Ept_pml4 (pg 1) else 0)"
    and "i < 512 \<Longrightarrow> pdpt_ok d mt pg (emem s') (pg 1) (pd_index d mt i) i"
    and "frame pg {..<pd_index d mt 512} (emem s) (emem s')"
proof -
  define N where "N = pd_index d mt 512"
  let ?m1 = "snd (memset (emem s) (pg 0) 0 0x1000)"
  let ?m2 = "snd (memset ?m1 (pg 1) 0 0x1000)"
  define q where "q = s\<lparr>allocs := 2, emem := store64 ?m2 (slot (pg 0) 0) (table_entry d Ept_pml4 (pg 1))\<rparr>"
  define r where "r = for_range 0 512 (ept_fill_pdpt d mt pg (pg 1)) q"
  have s': "s' = r\<lparr>core_ept_ptr := ept_pointer_value d (pg 0)\<rparr>"
    using assms(3)
    by (simp add: s'_def ept_init_core_def new_table_def put64_def Let_def q_def r_def ept_pointer_value_def
        numeral_2_eq_2)
  have N: "2 \<le> N" unfolding N_def by (rule pd_index_ge)
  have fr: "fresh_pages pg N" using assms(4) by (simp add: N_def)
  have al: "page_aligned (pg 0)" "page_aligned (pg 1)" and ne: "page_of (pg 0) \<noteq> page_of (pg 1)"
    using fresh_aligned[OF fr] fresh_page_of[OF fr, of 0 1] N by auto
  have aq: "allocs q = 2" by (simp add: q_def)
  from fill_pdpts[OF assms(1,2) fr aq order_refl, of mt, folded r_def N_def]
  have f: "allocs r = N" "frame pg {1..<N} (emem q) (emem r)"
     "\<And>i. i < 512 \<Longrightarrow> pdpt_ok d mt pg (emem r) (pg 1) (pd_index d mt i) i"
    by simp_all
  show "allocs s' = pd_index d mt 512" using f(1) by (simp add: s' N_def)
  show "core_ept_ptr s' = ept_pointer_value d (pg 0)" by (simp add: s')
  show "i < 512 \<Longrightarrow> pdpt_ok d mt pg (emem s') (pg 1) (pd_index d mt i) i" using f(3) by (simp add: s')
  show "load64 (emem s') (slot (pg 0) k) = (if k = 0 then table_entry d Ept_pml4 (pg 1) else 0)" if "k < 512"
  proof -
    have "load64 (emem r) (slot (pg 0) k) = load64 (emem q) (slot (pg 0) k)"
      by (rule frame_slot[OF f(2) fr]) (use N that in auto)
    then show ?thesis
      using al ne that by (simp add: s' q_def cells.rd_wr_slot load64_memset_page)
  qed
  have "frame pg ({0} \<union> {1} \<union> {0}) (emem s) (emem q)"
    using al frame_trans[OF frame_trans[OF frame_memset[where pg = pg and k = 0]
        frame_memset[where pg = pg and k = 1]] frame_store[where pg = pg and k = 0]]
    by (simp add: q_def al del: Un_insert_left Un_insert_right)
  from frame_trans[OF this f(2)]
  have "frame pg (({0} \<union> {1} \<union> {0}) \<union> {1..<N}) (emem s) (emem r)" .
  then show "frame pg {..<pd_index d mt 512} (emem s) (emem s')"
    by (simp add: s') (rule frame_mono, assumption, use N in \<open>auto simp: N_def\<close>)
qed

section \<open>Addresses\<close>

lemma bit_ept_address:
  "bit (ept_address (sdm_index 30 a) (sdm_index 21 a) (sdm_index 12 a)) n \<longleftrightarrow> 12 \<le> n \<and> n < 39 \<and> bit a n"
  "bit (ept_address (sdm_index 30 a) (sdm_index 21 a) 0) n \<longleftrightarrow> 21 \<le> n \<and> n < 39 \<and> bit a n"
proof -
  have u: "(of_nat (sdm_index lo a) :: u32) = ucast (take_bit 9 (drop_bit lo a))" for lo
    by (simp add: sdm_index_def)
  consider "n < 12" | "12 \<le> n" "n < 21" | "21 \<le> n" "n < 30" | "30 \<le> n" "n < 39" | "39 \<le> n" by linarith
  then show "bit (ept_address (sdm_index 30 a) (sdm_index 21 a) (sdm_index 12 a)) n \<longleftrightarrow> 12 \<le> n \<and> n < 39 \<and> bit a n"
    "bit (ept_address (sdm_index 30 a) (sdm_index 21 a) 0) n \<longleftrightarrow> 21 \<le> n \<and> n < 39 \<and> bit a n"
    unfolding ept_address_def pt_to_address_sum u
    by (cases; auto simp: bit_simps dest: bit_imp_le_length)+
qed


lemma sdm_index_less: "sdm_index lo a < 512"
  using unat_take_bit_less[of 9 "drop_bit lo a"] by (simp add: sdm_index_def)

lemma sdm_index_39: "unat a < 2 ^ 39 \<Longrightarrow> sdm_index 39 a = 0"
proof -
  assume "unat a < 2 ^ 39"
  then have "unat (drop_bit 39 a) = 0" by (simp add: unat_drop_bit_eq drop_bit_eq_div[where 'a = nat])
  then have "drop_bit 39 a = 0" by (simp only: unat_eq_zero)
  then show ?thesis by (simp add: sdm_index_def)
qed

lemma bit_low39: "unat a < 2 ^ 39 \<Longrightarrow> bit a n \<Longrightarrow> n < 39" for a :: u64
  using take_bit_self_unat[of a 39] by (metis bit_take_bit_iff)

lemma fresh_usable: "fresh_pages pg n \<Longrightarrow> k < n \<Longrightarrow> usable_page (pg k)"
  by (simp add: fresh_pages_def)

lemma sdm_table_entries:
  assumes "ept_layout d" "usable_page p"
  shows "t \<in> {Ept_pml4, Epdpte, Epde, Epte} \<Longrightarrow> sdm_table (table_entry d t p) = p"
    and "sdm_table (split_entry d p) = p"
    and "sdm_table (ept_pointer_value d p) = p"
    and "t \<in> {Ept_pml4, Epdpte, Epde, Epte} \<Longrightarrow> sdm_present (table_entry d t p)"
    and "sdm_present (split_entry d p)" "\<not> bit (split_entry d p) 7"
    and "sdm_present (big_entry d mt a)" "bit (big_entry d mt a) 7" "sdm_present (page_entry d mt a)"
proof -
  have ptr: "bit (ept_pointer_value d p) i = bit p i" if "12 \<le> i" "i < 48" for i
    using that ept_layoutD(4)[OF assms(1), of Ept_pointer]
    by (simp add: ept_pointer_value_def bit_set_field bit_drop_bit_eq)
  show "sdm_table (ept_pointer_value d p) = p"
    using ptr by (rule sdm_tableI[OF assms(2)])
  show "t \<in> {Ept_pml4, Epdpte, Epde, Epte} \<Longrightarrow> sdm_table (table_entry d t p) = p"
       "sdm_table (split_entry d p) = p"
    by (rule sdm_tableI[OF assms(2)], simp add: bit_table_entry[OF assms(1)] bit_split_entry[OF assms(1)])+
  show "t \<in> {Ept_pml4, Epdpte, Epde, Epte} \<Longrightarrow> sdm_present (table_entry d t p)"
    by (rule presentI) (simp add: bit_table_entry[OF assms(1)])
  show "sdm_present (split_entry d p)" "sdm_present (big_entry d mt a)" "sdm_present (page_entry d mt a)"
    by (rule presentI, simp add: bit_split_entry[OF assms(1)] bit_big_entry[OF assms(1)] bit_page_entry[OF assms(1)])+
  show "\<not> bit (split_entry d p) 7" "bit (big_entry d mt a) 7"
    by (simp_all add: bit_split_entry[OF assms(1)] bit_big_entry[OF assms(1)])
qed

text \<open>The index of every table of the map lies below the number of allocations.\<close>

lemma table_index_less:
  assumes "i < 512" "j < 512"
  shows "pd_index d mt i < pd_index d mt 512"
    and "is_split d mt i j \<Longrightarrow> pd_index d mt i + 1 + splits_before d mt i j < pd_index d mt 512"
proof -
  have le: "pd_index d mt (Suc i) \<le> pd_index d mt 512" using assms(1) by (intro pd_index_mono) simp
  then show "pd_index d mt i < pd_index d mt 512" by simp
  show "pd_index d mt i + 1 + splits_before d mt i j < pd_index d mt 512" if "is_split d mt i j"
    using le splits_before_mono[of "Suc j" 512 d mt i] assms(2) that by (simp add: splits_before_Suc)
qed

section \<open>Properties\<close>

text \<open>The page walk over the tables, entry by entry.\<close>

lemma built_walk:
  assumes "ept_layout d" "memory_types d" "allocs s = 0" "fresh_pages pg (pd_index d mt 512)"
    and "unat a < 2 ^ 39"
  defines "m \<equiv> emem (ept_init_core d mt pg s)" and "i \<equiv> sdm_index 30 a" and "j \<equiv> sdm_index 21 a"
  shows "load64 m (slot (sdm_table (core_ept_ptr (ept_init_core d mt pg s))) (sdm_index 39 a)) =
           table_entry d Ept_pml4 (pg 1)"
    and "load64 m (slot (sdm_table (table_entry d Ept_pml4 (pg 1))) i) = table_entry d Epdpte (pg (pd_index d mt i))"
    and "sdm_table (table_entry d Epdpte (pg (pd_index d mt i))) = pg (pd_index d mt i)"
    and "pde_ok d mt pg m (pg (pd_index d mt i)) (pd_index d mt i + 1 + splits_before d mt i j) i j"
    and "is_split d mt i j \<Longrightarrow>
           sdm_table (split_entry d (pg (pd_index d mt i + 1 + splits_before d mt i j))) =
           pg (pd_index d mt i + 1 + splits_before d mt i j)"
proof -
  have ij: "i < 512" "j < 512" by (simp_all add: i_def j_def sdm_index_less)
  note img = ept_init_core_image[OF assms(1-4)]
  have us: "usable_page (pg k)" if "k < pd_index d mt 512" for k
    using fresh_usable[OF assms(4) that] .
  have g: "0 < pd_index d mt 512" "1 < pd_index d mt 512" using pd_index_ge[of d mt 512] by auto
  show "load64 m (slot (sdm_table (core_ept_ptr (ept_init_core d mt pg s))) (sdm_index 39 a)) =
           table_entry d Ept_pml4 (pg 1)"
    using img(3)[of 0] by (simp add: img(2) sdm_table_entries[OF assms(1) us[OF g(1)]] sdm_index_39[OF assms(5)] m_def)
  have ok: "pdpt_ok d mt pg m (pg 1) (pd_index d mt i) i"
    unfolding m_def by (rule img(4)[OF ij(1)])
  then show "load64 m (slot (sdm_table (table_entry d Ept_pml4 (pg 1))) i) = table_entry d Epdpte (pg (pd_index d mt i))"
    using sdm_table_entries(1)[OF assms(1) us[OF g(2)], of Ept_pml4] by (simp add: pdpt_ok_def)
  show "sdm_table (table_entry d Epdpte (pg (pd_index d mt i))) = pg (pd_index d mt i)"
    using sdm_table_entries(1)[OF assms(1) us[OF table_index_less(1)[OF ij]], of Epdpte] by simp
  show "pde_ok d mt pg m (pg (pd_index d mt i)) (pd_index d mt i + 1 + splits_before d mt i j) i j"
    using ok ij(2) by (simp add: pdpt_ok_def)
  assume "is_split d mt i j"
  then show "sdm_table (split_entry d (pg (pd_index d mt i + 1 + splits_before d mt i j))) =
           pg (pd_index d mt i + 1 + splits_before d mt i j)"
    by (intro sdm_table_entries(2)[OF assms(1) us] table_index_less(2)[OF ij])
qed


lemma ept_address_parts:
  assumes "unat a < 2 ^ 39"
  shows "ept_address (sdm_index 30 a) (sdm_index 21 a) (sdm_index 12 a) = a AND NOT (mask 12)"
    and "ept_address (sdm_index 30 a) (sdm_index 21 a) 0 = a AND NOT (mask 21)"
  by (rule bit_word_eqI; auto simp: bit_ept_address bit_and_iff bit_not_iff bit_mask_iff dest: bit_low39[OF assms])+

lemma split_identity:
  assumes "ept_layout d" "memory_types d" "allocs s = 0" "fresh_pages pg (pd_index d mt 512)"
    and "unat a < 2 ^ 39" "mt (a AND NOT (mask 21)) 0x200000 = cst d MEMORY_TYPE_INVALID"
  defines "s' \<equiv> ept_init_core d mt pg s"
  shows "sdm_translate (emem s') (core_ept_ptr s') a =
           Some (a, take_bit 3 (mt (a AND NOT (mask 12)) 0x1000))"
proof -
  let ?i = "sdm_index 30 a" and ?j = "sdm_index 21 a" and ?k = "sdm_index 12 a"
  let ?e = "page_entry d (mt (a AND NOT (mask 12)) 0x1000) (a AND NOT (mask 12))"
  note w = built_walk[OF assms(1-5), folded s'_def]
  have sp: "is_split d mt ?i ?j" using assms(6) by (simp add: is_split_def ept_address_parts[OF assms(5)])
  have us: "usable_page (pg k)" if "k < pd_index d mt 512" for k using fresh_usable[OF assms(4) that] .
  note t = sdm_table_entries[OF assms(1) us]
  have e1: "load64 (emem s') (slot (pg (pd_index d mt ?i + 1 + splits_before d mt ?i ?j)) ?k) = ?e"
    using w(4) sp sdm_index_less[of 12 a] by (simp add: pde_ok_def ept_address_parts[OF assms(5)])
  have e2: "load64 (emem s') (slot (pg (pd_index d mt ?i)) ?j) =
      split_entry d (pg (pd_index d mt ?i + 1 + splits_before d mt ?i ?j))"
    using w(4) sp by (simp add: pde_ok_def)
  have "sdm_table ?e OR take_bit 12 a = a"
    by (rule bit_word_eqI) (auto simp: bit_or_iff sdm_table_bit bit_page_entry[OF assms(1)] bit_take_bit_iff
        bit_and_iff bit_not_iff bit_mask_iff dest: bit_low39[OF assms(5)])
  moreover have "take_bit 3 (drop_bit 3 ?e) = take_bit 3 (mt (a AND NOT (mask 12)) 0x1000)"
    by (rule bit_word_eqI) (auto simp: bit_take_bit_iff bit_drop_bit_eq bit_page_entry[OF assms(1)])
  moreover have "1 < pd_index d mt 512" using pd_index_ge[of d mt 512] by simp
  ultimately show ?thesis
    unfolding sdm_translate_def Let_def w(1) w(2) w(3) e2 w(5)[OF sp] e1
    using t(4)[of _ Ept_pml4] t(4)[of _ Epdpte] t(5,6,9) table_index_less[OF sdm_index_less sdm_index_less] sp
    by simp
qed

text \<open>
  C2. In every 2 MB block that is split, the tables map each guest physical address below 512 GB to
  itself, with the memory type of its 4 KB page. The walk is the processor's, over the memory the
  construction leaves behind.
\<close>

theorem ept_split_identity:
  assumes "ept_layout d" "memory_types d" "allocs s = 0" "fresh_pages pg (pd_index d mt 512)"
    and "unat a < 2 ^ 39" "mt (a AND NOT (mask 21)) 0x200000 = cst d MEMORY_TYPE_INVALID"
  defines "s' \<equiv> ept_init_core d mt pg s"
  shows "sdm_translate (emem s') (core_ept_ptr s') a =
           Some (a, take_bit 3 (mt (a AND NOT (mask 12)) 0x1000))"
  unfolding s'_def by (rule split_identity[OF assms(1-6)])

lemma shifted_block_differs:
  fixes a :: u64
  assumes "unat a < 2 ^ 39" "2 ^ 21 \<le> unat a"
  shows "take_bit 48 (push_bit 9 (a AND NOT (mask 21))) OR take_bit 21 a \<noteq> a"
proof -
  have "drop_bit 21 a \<noteq> 0"
    using assms(2) unat_eq_zero[of "drop_bit 21 a"]
    by (auto simp: unat_drop_bit_eq drop_bit_eq_div[where 'a = nat] div_eq_0_iff)
  then obtain n0 where "bit (drop_bit 21 a) n0" by (auto simp: bit_eq_iff)
  then have ex: "21 \<le> n0 + 21 \<and> bit a (n0 + 21)" by (simp add: bit_drop_bit_eq add.commute)
  define l where "l = (LEAST n. 21 \<le> n \<and> bit a n)"
  have l: "21 \<le> l" "bit a l" and least: "\<And>n. 21 \<le> n \<Longrightarrow> bit a n \<Longrightarrow> l \<le> n"
    unfolding l_def using LeastI[of "\<lambda>n. 21 \<le> n \<and> bit a n", OF ex]
    by (auto intro: Least_le)
  have "\<not> (21 \<le> l - 9 \<and> bit a (l - 9))" using least[of "l - 9"] l(1) by auto
  then have "\<not> bit (take_bit 48 (push_bit 9 (a AND NOT (mask 21))) OR take_bit 21 a) l"
    using l(1) by (auto simp: bit_or_iff bit_take_bit_iff bit_push_bit_iff bit_and_iff bit_not_iff bit_mask_iff)
  then show ?thesis using l(2) by metis
qed

text \<open>
  C3. In every 2 MB block that is not split, the tables map the block at \<open>base\<close> to the host address
  \<open>512 * base\<close>: the frame number of a large page counts 2 MB frames, the code stores the number of
  the 4 KB frame. Outside the first 2 MB no address of a large page is mapped to itself.
\<close>

theorem ept_large_page_target:
  assumes "ept_layout d" "memory_types d" "allocs s = 0" "fresh_pages pg (pd_index d mt 512)"
    and "unat a < 2 ^ 39" "mt (a AND NOT (mask 21)) 0x200000 \<noteq> cst d MEMORY_TYPE_INVALID"
  defines "s' \<equiv> ept_init_core d mt pg s"
    and "hpa \<equiv> take_bit 48 (push_bit 9 (a AND NOT (mask 21))) OR take_bit 21 a"
  shows "sdm_translate (emem s') (core_ept_ptr s') a =
           Some (hpa, take_bit 3 (mt (a AND NOT (mask 21)) 0x200000))
         \<and> (2 ^ 21 \<le> unat a \<longrightarrow> hpa \<noteq> a)"
proof -
  let ?i = "sdm_index 30 a" and ?j = "sdm_index 21 a"
  let ?e = "big_entry d (mt (a AND NOT (mask 21)) 0x200000) (a AND NOT (mask 21))"
  note w = built_walk[OF assms(1-5), folded s'_def]
  have sp: "\<not> is_split d mt ?i ?j" using assms(6) by (simp add: is_split_def ept_address_parts[OF assms(5)])
  have us: "usable_page (pg k)" if "k < pd_index d mt 512" for k using fresh_usable[OF assms(4) that] .
  note t = sdm_table_entries[OF assms(1) us]
  have e2: "load64 (emem s') (slot (pg (pd_index d mt ?i)) ?j) = ?e"
    using w(4) sp by (simp add: pde_ok_def ept_address_parts[OF assms(5)])
  have "push_bit 21 (take_bit 27 (drop_bit 21 ?e)) OR take_bit 21 a = hpa"
    unfolding hpa_def
    by (rule bit_word_eqI) (auto simp: bit_or_iff bit_push_bit_iff bit_drop_bit_eq bit_big_entry[OF assms(1)]
        bit_take_bit_iff bit_and_iff bit_not_iff bit_mask_iff)
  moreover have "take_bit 3 (drop_bit 3 ?e) = take_bit 3 (mt (a AND NOT (mask 21)) 0x200000)"
    by (rule bit_word_eqI) (auto simp: bit_take_bit_iff bit_drop_bit_eq bit_big_entry[OF assms(1)])
  moreover have "1 < pd_index d mt 512" using pd_index_ge[of d mt 512] by simp
  ultimately have "sdm_translate (emem s') (core_ept_ptr s') a =
           Some (hpa, take_bit 3 (mt (a AND NOT (mask 21)) 0x200000))"
    unfolding sdm_translate_def Let_def w(1) w(2) w(3) e2
    using t(4)[of _ Ept_pml4] t(4)[of _ Epdpte] t(7,8) table_index_less[OF sdm_index_less sdm_index_less]
    by simp
  then show ?thesis using shifted_block_differs[OF assms(5)] by (simp add: hpa_def)
qed

text \<open>Only the first of the 512 top level entries is filled: a guest physical address from 512 GB up
  to the 48 bit limit has no mapping.\<close>

theorem ept_beyond_512g_unmapped:
  assumes "ept_layout d" "memory_types d" "allocs s = 0" "fresh_pages pg (pd_index d mt 512)"
    and "2 ^ 39 \<le> unat a" "unat a < 2 ^ 48"
  defines "s' \<equiv> ept_init_core d mt pg s"
  shows "sdm_translate (emem s') (core_ept_ptr s') a = None"
proof -
  have "sdm_index 39 a \<noteq> 0"
  proof -
    have "unat a div 2 ^ 39 mod 2 ^ 9 = unat a div 2 ^ 39"
      using assms(6) by (intro mod_less less_mult_imp_div_less) simp
    moreover have "unat a div 2 ^ 39 \<noteq> 0" using assms(5) by (simp add: div_eq_0_iff)
    ultimately show ?thesis
      unfolding sdm_index_def unsigned_take_bit_eq unat_drop_bit_eq take_bit_eq_mod[where 'a = nat]
        drop_bit_eq_div[where 'a = nat] by (simp only: not_False_eq_True)
  qed
  moreover have "usable_page (pg 0)"
    using fresh_usable[OF assms(4)] pd_index_ge[of d mt 512] by simp
  ultimately have "load64 (emem s') (slot (sdm_table (core_ept_ptr s')) (sdm_index 39 a)) = 0"
    using ept_init_core_image(2,3)[OF assms(1-4)] sdm_index_less[of 39 a] sdm_table_entries(3)[OF assms(1)]
    by (simp add: s'_def)
  then show ?thesis by (simp add: sdm_translate_def sdm_present_def)
qed


lemma resolve_table:
  assumes "ept_layout d" "t \<in> {Ept_pointer, Ept_pml4, Epdpte, Epde, Epte}"
  shows "push_bit 12 (get_m d (Ept t Page_frame_number) e) = sdm_table e"
  unfolding ept_layoutD(4)[OF assms] bf_get_def sdm_table_def by simp

lemma resolve_large:
  assumes "ept_layout d"
  shows "get_m d (Ept Epde_2mb Large_page) e \<noteq> 0 \<longleftrightarrow> bit e 7"
  using bf_flag_bit[of "(7, 1)" e] by (simp add: ept_layoutD(7)[OF assms] bf_flag_def)

lemma resolve_index:
  "address_to_pt a = (p4, p3, p2, p1) \<Longrightarrow>
     unat p4 = sdm_index 39 a \<and> unat p3 = sdm_index 30 a \<and> unat p2 = sdm_index 21 a \<and> unat p1 = sdm_index 12 a"
proof -
  have "unat (ucast (bf_get (lo, 9) a) :: u32) = sdm_index lo a" for lo
  proof -
    have "unat (take_bit 9 (drop_bit lo a)) < 2 ^ 32"
      using unat_take_bit_less[of 9 "drop_bit lo a"] by simp
    then show ?thesis
      by (simp add: bf_get_def sdm_index_def unsigned_ucast_eq take_bit_nat_eq_self)
  qed
  then show "address_to_pt a = (p4, p3, p2, p1) \<Longrightarrow> ?thesis"
    by (auto simp: address_to_pt_def pt_helper_defs)
qed

lemma resolve_unfold:
  assumes "ept_layout d"
  shows "ept_resolve_entries d m eptp a w4 w3 w2 w1 =
    (let e4 = slot (sdm_table eptp) (sdm_index 39 a);
         e3 = slot (sdm_table (load64 m e4)) (sdm_index 30 a);
         e2 = slot (sdm_table (load64 m e3)) (sdm_index 21 a);
         e1 = slot (sdm_table (load64 m e2)) (sdm_index 12 a);
         out = \<lambda>w e. if w then Some e else None
     in if bit (load64 m e2) 7
        then if w1 then Inr \<lparr>r_pml4 = out w4 e4, r_pdpt = out w3 e3, r_pd = out w2 e2, r_pt = Some 0\<rparr>
             else Inl Null_store
        else Inr \<lparr>r_pml4 = out w4 e4, r_pdpt = out w3 e3, r_pd = out w2 e2, r_pt = out w1 e1\<rparr>)"
proof -
  obtain p4 p3 p2 p1 where p: "address_to_pt a = (p4, p3, p2, p1)" by (cases "address_to_pt a")
  show ?thesis
    unfolding ept_resolve_entries_def p Let_def prod.case resolve_large[OF assms]
    using resolve_index[OF p]
    by (simp add: resolve_table[OF assms])
qed

text \<open>
  C32. The lookup of an address below 512 GB in the tables that initialisation built returns the
  entries that were written for it: the directory of its gigabyte, the table of its 2 MB block when
  that is split, a null pointer when it is a large page. With no \<open>pt\<close> argument the lookup of a large
  page stores through a null pointer.
\<close>

theorem ept_resolve_finds_entries:
  assumes "ept_layout d" "memory_types d" "allocs s = 0" "fresh_pages pg (pd_index d mt 512)"
    and "unat a < 2 ^ 39"
  defines "s' \<equiv> ept_init_core d mt pg s"
    and "i \<equiv> sdm_index 30 a" and "j \<equiv> sdm_index 21 a" and "k \<equiv> sdm_index 12 a"
    and "out \<equiv> (\<lambda>w e. if w then Some e else None)"
  shows "ept_resolve_entries d (emem s') (core_ept_ptr s') a w4 w3 w2 w1 =
    (if \<not> is_split d mt i j \<and> \<not> w1 then Inl Null_store
     else Inr \<lparr>r_pml4 = out w4 (slot (pg 0) 0), r_pdpt = out w3 (slot (pg 1) i),
               r_pd = out w2 (slot (pg (pd_index d mt i)) j),
               r_pt = (if is_split d mt i j then out w1 (slot (pg (pt_index_of d mt i j)) k) else Some 0)\<rparr>)"
proof -
  note w = built_walk[OF assms(1-5), folded s'_def i_def j_def]
  have us: "usable_page (pg k)" if "k < pd_index d mt 512" for k using fresh_usable[OF assms(4) that] .
  note t = sdm_table_entries[OF assms(1) us]
  have g: "0 < pd_index d mt 512" "1 < pd_index d mt 512" using pd_index_ge[of d mt 512] by auto
  have root: "sdm_table (core_ept_ptr s') = pg 0"
    using ept_init_core_image(2)[OF assms(1-4)] t(3)[OF g(1)] by (simp add: s'_def)
  have p1: "sdm_table (table_entry d Ept_pml4 (pg 1)) = pg 1" by (rule t(1)[OF g(2)]) simp
  have b: "bit (load64 (emem s') (slot (pg (pd_index d mt i)) j)) 7 \<longleftrightarrow> \<not> is_split d mt i j"
    and sp: "is_split d mt i j \<Longrightarrow> load64 (emem s') (slot (pg (pd_index d mt i)) j) =
               split_entry d (pg (pt_index_of d mt i j))"
    using w(4) bit_split_entry[OF assms(1)] bit_big_entry[OF assms(1)]
    by (auto simp: pde_ok_def pt_index_of_def)
  show ?thesis
    unfolding resolve_unfold[OF assms(1)] Let_def i_def[symmetric] j_def[symmetric] k_def[symmetric]
    using w(1,2,3) b sp w(5) root p1 sdm_index_39[OF assms(5)]
    by (auto simp: out_def pt_index_of_def)
qed


definition total_splits :: "ia32 \<Rightarrow> mem_type_fn \<Rightarrow> nat \<Rightarrow> nat" where
  "total_splits d mt n = (\<Sum>i<n. splits_before d mt i 512)"

lemma fill_pdes_count:
  assumes "ept_layout d" "memory_types d"
  shows "allocs (for_range 0 n (ept_fill_pde d mt pg pdes i) s) = allocs s + splits_before d mt i n \<and>
         elog (for_range 0 n (ept_fill_pde d mt pg pdes i) s) =
           elog s @ replicate (splits_before d mt i n) Splitting_pde"
proof (induction n)
  case 0
  then show ?case by (simp add: splits_before_def)
next
  case (Suc n)
  then show ?case
    by (cases "is_split d mt i n")
      (simp_all add: for_range_Suc fill_pde_split[OF assms] fill_pde_big splits_before_Suc put64_def
        flip: replicate_append_same)
qed

lemma fill_pdpt_count:
  assumes "ept_layout d" "memory_types d"
  shows "allocs (ept_fill_pdpt d mt pg pdpts i s) = allocs s + 1 + splits_before d mt i 512 \<and>
         elog (ept_fill_pdpt d mt pg pdpts i s) = elog s @ replicate (splits_before d mt i 512) Splitting_pde"
  by (simp add: ept_fill_pdpt_def new_table_def put64_def fill_pdes_count[OF assms] Let_def)

lemma fill_pdpts_count:
  assumes "ept_layout d" "memory_types d"
  shows "allocs (for_range 0 n (ept_fill_pdpt d mt pg pdpts) s) = allocs s + n + total_splits d mt n \<and>
         elog (for_range 0 n (ept_fill_pdpt d mt pg pdpts) s) =
           elog s @ replicate (total_splits d mt n) Splitting_pde"
proof (induction n)
  case 0
  then show ?case by (simp add: total_splits_def)
next
  case (Suc n)
  then show ?case
    by (simp add: for_range_Suc fill_pdpt_count[OF assms] total_splits_def replicate_add)
qed

text \<open>
  C36. The construction takes one page for the top level, one for the second, 512 directories and one
  per split 2 MB block, and it logs one line per split. The report of a page without a memory type
  is never reached: the stored type has three bits and cannot equal the invalid marker.
\<close>

theorem ept_init_core_pages_and_log:
  assumes "ept_layout d" "memory_types d"
  shows "allocs (ept_init_core d mt pg s) = allocs s + 514 + total_splits d mt 512
         \<and> elog (ept_init_core d mt pg s) = elog s @ replicate (total_splits d mt 512) Splitting_pde"
  by (simp add: ept_init_core_def new_table_def put64_def Let_def fill_pdpts_count[OF assms])

section \<open>Witnesses\<close>

definition sample_pages :: page_oracle where
  "sample_pages k = push_bit 12 (of_nat (k + 0x100))"

definition sample_env :: ept_env where
  "sample_env = \<lparr>emem = (\<lambda>_. 0), allocs = 0, core_ept_ptr = 0, elog = []\<rparr>"

abbreviation sample_types_fn :: mem_type_fn where
  "sample_types_fn \<equiv> ept_get_memory_type sdm sample_state"

lemma splits_before_le: "splits_before d mt i j \<le> j"
  unfolding splits_before_def by (rule order_trans[OF length_filter_le]) simp

lemma pd_index_le: "pd_index d mt i \<le> 2 + 513 * i"
proof (induction i)
  case (Suc i)
  then show ?case using splits_before_le[of d mt i 512] by simp
qed simp

lemma sample_fresh: "n \<le> 0x100000 \<Longrightarrow> fresh_pages sample_pages n"
proof -
  assume n: "n \<le> 0x100000"
  have u: "unat (sample_pages k) = 4096 * (k + 0x100)" if "k < n" for k
  proof -
    have "sample_pages k = of_nat (4096 * (k + 0x100))"
      by (simp add: sample_pages_def push_bit_eq_mult mult.commute)
    moreover have "unat (of_nat (4096 * (k + 0x100)) :: u64) = 4096 * (k + 0x100)"
      using that n by (intro unat_of_nat_small) simp
    ultimately show ?thesis by (simp only:)
  qed
  have "usable_page (sample_pages k)" if "k < n" for k
    using u[OF that] that n by (simp add: usable_page_def page_aligned_dvd)
  moreover have "inj_on sample_pages {..<n}"
  proof (rule inj_onI)
    fix k l assume "k \<in> {..<n}" "l \<in> {..<n}" "sample_pages k = sample_pages l"
    then have "4096 * (k + 0x100) = 4096 * (l + 0x100)" using u by (metis lessThan_iff)
    then show "k = l" by simp
  qed
  ultimately show ?thesis by (simp add: fresh_pages_def)
qed

lemma sample_fresh_map: "fresh_pages sample_pages (pd_index sdm mt 512)"
  by (rule sample_fresh, rule order_trans[OF pd_index_le]) simp

lemma sample_split: "sample_types_fn 0 0x200000 = 0xFF"
  by (simp add: get_type_scan[OF sample_init] mtrr_table_def sample_active fixed_blocks_def fixed_table_Cons
      upt_conv_Cons fixed_entry_def del: upt_Suc)

lemma sample_large: "sample_types_fn 0x200000 0x200000 = 6"
  by (simp add: get_type_scan[OF sample_init] scan_uncovered[OF sample_uncovered]) (simp add: sample_state_def)

theorem ept_split_identity_witness:
  "let s = ept_init_core sdm sample_types_fn sample_pages sample_env
   in sdm_translate (emem s) (core_ept_ptr s) 0x85123 =
        Some (0x85123, take_bit 3 (sample_types_fn 0x85000 0x1000))"
  using ept_split_identity[of sdm sample_env sample_pages sample_types_fn "0x85123"] sample_split
  by (simp add: sample_env_def sample_fresh_map Let_def mask_numeral)

theorem ept_large_page_target_witness:
  "let s = ept_init_core sdm sample_types_fn sample_pages sample_env
   in sdm_translate (emem s) (core_ept_ptr s) 0x200000 = Some (0x40000000, 6)"
  using ept_large_page_target[of sdm sample_env sample_pages sample_types_fn "0x200000"] sample_large
  by (simp add: sample_env_def sample_fresh_map Let_def mask_numeral)

theorem ept_beyond_512g_unmapped_witness:
  "let s = ept_init_core sdm sample_types_fn sample_pages sample_env
   in sdm_translate (emem s) (core_ept_ptr s) 0x8000000000 = None"
  using ept_beyond_512g_unmapped[of sdm sample_env sample_pages sample_types_fn "0x8000000000"]
  by (simp add: sample_env_def sample_fresh_map Let_def)

theorem ept_resolve_finds_entries_witness:
  "let s = ept_init_core sdm sample_types_fn sample_pages sample_env
   in ept_resolve_entries sdm (emem s) (core_ept_ptr s) 0x200000 True True True False = Inl Null_store"
  using ept_resolve_finds_entries[of sdm sample_env sample_pages sample_types_fn "0x200000" True True True False]
    sample_large ept_address_parts(2)[of "0x200000"]
  by (simp add: sample_env_def sample_fresh_map Let_def is_split_def mask_numeral)

theorem ept_init_core_pages_and_log_witness:
  "allocs (ept_init_core sdm sample_types_fn sample_pages sample_env) = 514 + total_splits sdm sample_types_fn 512"
  using ept_init_core_pages_and_log[of sdm sample_types_fn sample_pages sample_env]
  by (simp add: sample_env_def)

end
