(* ===== verification/Vmxcheck.thy ===== *)
theory Vmxcheck
  imports X86utils
begin

text \<open>
  The guest state check of \<^verbatim>\<open>hypervisor/vmxcheck.cc\<close>, run before VMLAUNCH and after an unexpected
  exit. It only reads the current VMCS, so it is a function of what \<^verbatim>\<open>cpu_vmxread\<close> returns for a
  field. The result is \<open>Inr ()\<close> for true and \<open>Inl msgs\<close> for false with the messages that were
  logged, in order. The reference is the SDM's list of checks on the guest state (VM entries,
  checks on guest registers and on guest non-register state), restricted to the items the code
  names.
\<close>

section \<open>Checks\<close>

datatype check_name =
    Ar_type_check | Ar_accessed | Ar_readable | Ar_desc_type | Ar_dpl | Ar_present_check | Ar_reserved
  | Ar_default_big_check | Granularity
  | Cr0_check | Vmentry_check | Cr4_check | Efer_check | Tr_sel | Ldtr_sel
  | Cs_ar | Ss_ar | Ds_ar | Es_ar | Fs_ar | Gs_ar
  | Tr_ar_type | Tr_ar_dt | Tr_ar_p | Tr_ar_res | Tr_ar_res2 | Tr_unusable | Tr_ar_gran
  | Rflags_check | Activity_state | Interrupt_check

type_synonym check_result = "check_name list + unit"

definition chk :: "check_name \<Rightarrow> bool \<Rightarrow> check_result" where
  "chk name v = (if v then Inr () else Inl [name])"

definition chk_in :: "check_name \<Rightarrow> check_result \<Rightarrow> check_result" where
  "chk_in name r = (case r of Inl msgs \<Rightarrow> Inl (msgs @ [name]) | Inr u \<Rightarrow> Inr u)"

definition when_chk :: "bool \<Rightarrow> check_result \<Rightarrow> check_result" where
  "when_chk c r = (if c then r else Inr ())"

text \<open>The macro returns from the function at the first check that fails.\<close>

primrec run_checks :: "check_result list \<Rightarrow> check_result" where
  "run_checks [] = Inr ()"
| "run_checks (r # rs) = (case r of Inl msgs \<Rightarrow> Inl msgs | Inr u \<Rightarrow> run_checks rs)"

definition passed :: "check_result \<Rightarrow> bool" where
  "passed r \<longleftrightarrow> r = Inr ()"

definition is_flag_set :: "u32 \<Rightarrow> u32 \<Rightarrow> bool" where
  "is_flag_set thing flag \<longleftrightarrow> thing AND flag \<noteq> 0"

datatype segment_type = Seg_cs | Seg_ss | Seg_ds | Seg_es | Seg_fs | Seg_gs

type_synonym vmcs_reader = "vmcs_field \<Rightarrow> u64"

section \<open>Segments\<close>

definition check_segment_access_rights ::
    "ia32 \<Rightarrow> vmcs_reader \<Rightarrow> segment_type \<Rightarrow> u32 \<Rightarrow> u32 \<Rightarrow> u16 \<Rightarrow> bool \<Rightarrow> bool \<Rightarrow> check_result" where
  "check_segment_access_rights d rd seg ar limit selector ia32_mode_guest unrestricted_guest =
     (let guest_cr0 = rd (Guest VMCS_GUEST_CR0);
          ar_ss = ucast (rd (Guest_seg SS Access_rights)) :: u32;
          ar_cs = ucast (rd (Guest_seg CS Access_rights)) :: u32;
          ty = get_m d (Ar Ar_type) ar;
          type_is = \<lambda>(a :: u32) c. ucast (get_m d (Ar Ar_type) a) = cst d c;
          dpl = \<lambda>a :: u32. get_m d (Ar Ar_descriptor_privilege_level) a;
          rpl = get_m d (Seg Sel_request_privilege_level) selector;
          usable = get_m d (Ar Ar_unusable) ar = 0;
          cs_or_usable = (seg = Seg_cs \<or> usable)
      in run_checks
        [case seg of
           Seg_cs \<Rightarrow>
             if \<not> unrestricted_guest
             then chk Ar_type_check
                    (type_is ar SEGMENT_DESCRIPTOR_TYPE_CODE_EXECUTE_ONLY_ACCESSED \<or>
                     type_is ar SEGMENT_DESCRIPTOR_TYPE_CODE_EXECUTE_READ_ACCESSED \<or>
                     type_is ar SEGMENT_DESCRIPTOR_TYPE_CODE_EXECUTE_ONLY_CONFORMING_ACCESSED \<or>
                     type_is ar SEGMENT_DESCRIPTOR_TYPE_CODE_EXECUTE_READ_CONFORMING_ACCESSED)
             else chk Ar_type_check
                    (type_is ar SEGMENT_DESCRIPTOR_TYPE_DATA_READ_WRITE_ACCESSED \<or>
                     type_is ar SEGMENT_DESCRIPTOR_TYPE_CODE_EXECUTE_ONLY_ACCESSED \<or>
                     type_is ar SEGMENT_DESCRIPTOR_TYPE_CODE_EXECUTE_READ_ACCESSED \<or>
                     type_is ar SEGMENT_DESCRIPTOR_TYPE_CODE_EXECUTE_ONLY_CONFORMING_ACCESSED \<or>
                     type_is ar SEGMENT_DESCRIPTOR_TYPE_CODE_EXECUTE_READ_CONFORMING_ACCESSED)
         | Seg_ss \<Rightarrow>
             when_chk usable (chk Ar_type_check
               (type_is ar SEGMENT_DESCRIPTOR_TYPE_DATA_READ_WRITE_ACCESSED \<or>
                type_is ar SEGMENT_DESCRIPTOR_TYPE_DATA_READ_WRITE_EXPAND_DOWN_ACCESSED))
         | _ \<Rightarrow>
             when_chk usable (run_checks
               [chk Ar_accessed (is_flag_set ty 1),
                when_chk (is_flag_set ty 8) (chk Ar_readable (is_flag_set ty 2))]),
         when_chk cs_or_usable (chk Ar_desc_type (get_m d (Ar Ar_descriptor_type) ar = 1)),
         case seg of
           Seg_cs \<Rightarrow>
             if type_is ar SEGMENT_DESCRIPTOR_TYPE_CODE_EXECUTE_ONLY_ACCESSED \<or>
                type_is ar SEGMENT_DESCRIPTOR_TYPE_CODE_EXECUTE_READ_ACCESSED
             then chk Ar_dpl (dpl ar = dpl ar_ss)
             else Inl []
         | Seg_ss \<Rightarrow>
             run_checks
               [when_chk (\<not> unrestricted_guest) (chk Ar_dpl (dpl ar = ucast rpl)),
                when_chk (type_is ar_cs SEGMENT_DESCRIPTOR_TYPE_DATA_READ_WRITE_ACCESSED \<or>
                          get_m d (Reg Cr0_protection_enable) guest_cr0 \<noteq> 0)
                  (chk Ar_dpl (dpl ar = 0))]
         | _ \<Rightarrow>
             when_chk (\<not> unrestricted_guest \<and> usable \<and> push_bit 11 ty \<noteq> 0)
               (chk Ar_dpl (dpl ar \<ge> ucast rpl)),
         when_chk cs_or_usable (chk Ar_present_check (get_m d (Ar Ar_present) ar \<noteq> 0)),
         when_chk cs_or_usable
           (chk Ar_reserved (get_m d (Ar Ar_reserved1) ar = 0 \<and> get_m d (Ar Ar_reserved2) ar = 0)),
         when_chk (seg = Seg_cs \<and> ia32_mode_guest \<and> get_m d (Ar Ar_long_mode) ar \<noteq> 0)
           (chk Ar_default_big_check (get_m d (Ar Ar_default_big) ar = 0)),
         when_chk (cs_or_usable \<and> \<not> is_flag_set limit 0xfff)
           (chk Granularity (get_m d (Ar Ar_granularity) ar = 0)),
         when_chk (cs_or_usable \<and> is_flag_set limit 0xfff00000)
           (chk Granularity (get_m d (Ar Ar_granularity) ar \<noteq> 0))])"

section \<open>The guest state\<close>

definition check_guest_segment :: "ia32 \<Rightarrow> vmcs_reader \<Rightarrow> segment_type \<Rightarrow> segreg \<Rightarrow> bool \<Rightarrow> bool \<Rightarrow> check_result" where
  "check_guest_segment d rd seg r ia32_mode_guest unrestricted_guest =
     check_segment_access_rights d rd seg (ucast (rd (Guest_seg r Access_rights)))
       (ucast (rd (Guest_seg r Limit))) (ucast (rd (Guest_seg r Selector))) ia32_mode_guest unrestricted_guest"

text \<open>
  The checks of TR (lines 280 to 304) and those of the flags, the activity and the
  interruptibility state (lines 308 to 351), which end the list below.
\<close>

definition check_guest_tr :: "ia32 \<Rightarrow> vmcs_reader \<Rightarrow> bool \<Rightarrow> check_result list" where
  "check_guest_tr d rd ia32e =
     (let access = ucast (rd (Guest_seg TR Access_rights)) :: u32;
          seg_limit = ucast (rd (Guest_seg TR Limit)) :: u32
      in
        [if ia32e
         then chk Tr_ar_type (ucast (get_m d (Ar Ar_type) access) =
                              cst d SEGMENT_DESCRIPTOR_TYPE_CODE_EXECUTE_READ_ACCESSED)
         else chk Tr_ar_type False,
         chk Tr_ar_dt (get_m d (Ar Ar_descriptor_type) access = 0),
         chk Tr_ar_p (get_m d (Ar Ar_present) access \<noteq> 0),
         chk Tr_ar_res (get_m d (Ar Ar_reserved1) access = 0),
         chk Tr_ar_res2 (get_m d (Ar Ar_reserved2) access = 0),
         chk Tr_unusable (get_m d (Ar Ar_unusable) access = 0),
         when_chk (\<not> is_flag_set seg_limit 0xfff)
           (chk Tr_ar_gran (get_m d (Ar Ar_granularity) access = 0)),
         when_chk (is_flag_set seg_limit 0xfff00000)
           (chk Tr_ar_gran (get_m d (Ar Ar_granularity) access \<noteq> 0))])"

definition check_guest_non_register_state :: "ia32 \<Rightarrow> vmcs_reader \<Rightarrow> check_result list" where
  "check_guest_non_register_state d rd =
     (let guest_rflags = rd (Guest VMCS_GUEST_RFLAGS);
          ss_ar = ucast (rd (Guest_seg SS Access_rights)) :: u32;
          intr = rd (Guest VMCS_GUEST_INTERRUPTIBILITY_STATE);
          activity = rd (Guest VMCS_GUEST_ACTIVITY_STATE);
          sti = get_m d (Reg Intr_blocking_by_sti) intr;
          mov_ss = get_m d (Reg Intr_blocking_by_mov_ss) intr
      in
        [chk Rflags_check
           (get_m d (Reg Rflags_reserved1) guest_rflags = 0 \<and>
            get_m d (Reg Rflags_reserved2) guest_rflags = 0 \<and>
            get_m d (Reg Rflags_reserved3) guest_rflags = 0 \<and>
            get_m d (Reg Rflags_reserved4) guest_rflags = 0 \<and>
            get_m d (Reg Rflags_read_as_1) guest_rflags \<noteq> 0),
         chk Activity_state
           (activity = cst d Vmx_active \<or> activity = cst d Vmx_hlt \<or>
            activity = cst d Vmx_shutdown \<or> activity = cst d Vmx_wait_for_sipi),
         when_chk (get_m d (Ar Ar_descriptor_privilege_level) ss_ar \<noteq> 0)
           (chk Activity_state (activity \<noteq> cst d Vmx_hlt)),
         when_chk (sti = 1 \<or> mov_ss \<noteq> 0) (chk Activity_state (activity \<noteq> cst d Vmx_active)),
         when_chk (get_m d (Reg Rflags_interrupt_enable_flag) guest_rflags = 0)
           (chk Interrupt_check (sti = 0)),
         when_chk (get_m d (Reg Intr_enclave_interruption) intr \<noteq> 0)
           (chk Interrupt_check (mov_ss = 0))])"

lemmas check_guest_defs = check_guest_tr_def check_guest_non_register_state_def

definition cpu_vmxcheck_guest :: "ia32 \<Rightarrow> vmcs_reader \<Rightarrow> check_result" where
  "cpu_vmxcheck_guest d rd =
     (let vmentry = rd (Ctrl VMCS_CTRL_VMENTRY_CONTROLS);
          procbased = rd (Ctrl VMCS_CTRL_PROCESSOR_BASED_VM_EXECUTION_CONTROLS);
          procbased2 = rd (Ctrl VMCS_CTRL_SECONDARY_PROCESSOR_BASED_VM_EXECUTION_CONTROLS);
          unrestricted_guest = (get_m d (Ctl Proc_activate_secondary_controls) procbased \<noteq> 0 \<and>
                                get_m d (Ctl Proc2_unrestricted_guest) procbased2 \<noteq> 0);
          guest_cr0 = rd (Guest VMCS_GUEST_CR0);
          guest_cr4 = rd (Guest VMCS_GUEST_CR4);
          paging = (get_m d (Reg Cr0_paging_enable) guest_cr0 \<noteq> 0);
          ia32e = (get_m d (Ctl Entry_ia32e_mode_guest) vmentry \<noteq> 0);
          efer = rd (Guest VMCS_GUEST_EFER);
          load_efer = (get_m d (Ctl Entry_load_ia32_efer) vmentry \<noteq> 0);
          tr_selector = ucast (rd (Guest_seg TR Selector)) :: u16;
          ldtr_access = ucast (rd (Guest_seg LDTR Access_rights)) :: u32;
          ldtr_selector = ucast (rd (Guest_seg LDTR Selector)) :: u16
      in run_checks
        ([when_chk (paging \<and> \<not> unrestricted_guest)
           (chk Cr0_check (get_m d (Reg Cr0_protection_enable) guest_cr0 = 1)),
         chk Vmentry_check (get_m d (Ctl Entry_load_ia32_perf_global_ctrl) vmentry = 0),
         when_chk ia32e (run_checks
           [chk Cr0_check paging,
            chk Cr4_check (get_m d (Reg Cr4_physical_address_extension) guest_cr4 \<noteq> 0)]),
         when_chk load_efer (run_checks
           [chk Efer_check (get_m d (Reg Efer_reserved1) efer = 0),
            chk Efer_check (get_m d (Reg Efer_reserved2) efer = 0),
            chk Efer_check (get_m d (Reg Efer_reserved3) efer = 0),
            chk Efer_check (get_m d (Reg Efer_ia32e_mode_active) efer =
                            get_m d (Ctl Entry_ia32e_mode_guest) vmentry),
            when_chk paging
              (chk Efer_check (get_m d (Reg Efer_ia32e_mode_active) efer =
                               get_m d (Reg Efer_ia32e_mode_enable) efer))]),
         chk Vmentry_check (get_m d (Ctl Entry_load_ia32_bndcfgs) vmentry = 0),
         chk Vmentry_check (get_m d (Ctl Entry_load_ia32_rtit_ctl) vmentry = 0),
         chk Vmentry_check (get_m d (Ctl Entry_load_cet_state) vmentry = 0),
         chk Tr_sel (get_m d (Seg Sel_table) tr_selector = 0),
         when_chk (get_m d (Ar Ar_unusable) ldtr_access = 0)
           (chk Ldtr_sel (get_m d (Seg Sel_table) ldtr_selector = 0)),
         chk_in Cs_ar (check_guest_segment d rd Seg_cs CS ia32e unrestricted_guest),
         chk_in Ss_ar (check_guest_segment d rd Seg_ss SS ia32e unrestricted_guest),
         chk_in Ds_ar (check_guest_segment d rd Seg_ds DS ia32e unrestricted_guest),
         chk_in Es_ar (check_guest_segment d rd Seg_es ES ia32e unrestricted_guest),
         chk_in Fs_ar (check_guest_segment d rd Seg_fs FS ia32e unrestricted_guest),
         chk_in Gs_ar (check_guest_segment d rd Seg_gs GS ia32e unrestricted_guest)] @ check_guest_tr d rd ia32e @ check_guest_non_register_state d rd))"

definition cpu_vmxcheck :: "ia32 \<Rightarrow> vmcs_reader \<Rightarrow> check_result" where
  "cpu_vmxcheck d rd = cpu_vmxcheck_guest d rd"

section \<open>Passing and failing\<close>

lemma passed_chk [simp]: "passed (chk n v) = v"
  by (simp add: passed_def chk_def)

lemma passed_chk_in [simp]: "passed (chk_in n r) = passed r"
  by (cases r) (simp_all add: passed_def chk_in_def)

lemma passed_when [simp]: "passed (when_chk c r) \<longleftrightarrow> (c \<longrightarrow> passed r)"
  by (simp add: passed_def when_chk_def)

lemma passed_Inl [simp]: "\<not> passed (Inl m)"
  by (simp add: passed_def)

lemma passed_run [simp]: "passed (run_checks rs) \<longleftrightarrow> (\<forall>r \<in> set rs. passed r)"
  by (induction rs) (auto simp: passed_def split: sum.splits)

declare run_checks.simps [simp del]

lemma passed_if [simp]: "passed (if c then r else r') \<longleftrightarrow> (if c then passed r else passed r')"
  by simp


section \<open>Reference: the SDM's rules\<close>

definition segment_types :: "ia32 \<Rightarrow> bool" where
  "segment_types d \<longleftrightarrow>
     cst d SEGMENT_DESCRIPTOR_TYPE_DATA_READ_WRITE_ACCESSED = 3 \<and>
     cst d SEGMENT_DESCRIPTOR_TYPE_DATA_READ_WRITE_EXPAND_DOWN_ACCESSED = 7 \<and>
     cst d SEGMENT_DESCRIPTOR_TYPE_CODE_EXECUTE_ONLY_ACCESSED = 9 \<and>
     cst d SEGMENT_DESCRIPTOR_TYPE_CODE_EXECUTE_READ_ACCESSED = 0xB \<and>
     cst d SEGMENT_DESCRIPTOR_TYPE_CODE_EXECUTE_ONLY_CONFORMING_ACCESSED = 0xD \<and>
     cst d SEGMENT_DESCRIPTOR_TYPE_CODE_EXECUTE_READ_CONFORMING_ACCESSED = 0xF"

abbreviation ar_type :: "ia32 \<Rightarrow> u32 \<Rightarrow> u32" where "ar_type d ar \<equiv> get_m d (Ar Ar_type) ar"
abbreviation ar_dpl :: "ia32 \<Rightarrow> u32 \<Rightarrow> u32" where
  "ar_dpl d ar \<equiv> get_m d (Ar Ar_descriptor_privilege_level) ar"
abbreviation ar_usable :: "ia32 \<Rightarrow> u32 \<Rightarrow> bool" where "ar_usable d ar \<equiv> get_m d (Ar Ar_unusable) ar = 0"

definition sdm_granularity :: "ia32 \<Rightarrow> u32 \<Rightarrow> u32 \<Rightarrow> bool" where
  "sdm_granularity d ar limit \<longleftrightarrow>
     (limit AND 0xfff \<noteq> 0xfff \<longrightarrow> get_m d (Ar Ar_granularity) ar = 0) \<and>
     (limit AND 0xfff00000 \<noteq> 0 \<longrightarrow> get_m d (Ar Ar_granularity) ar \<noteq> 0)"

text \<open>The part of the rules every loaded segment obeys.\<close>

definition sdm_common :: "ia32 \<Rightarrow> u32 \<Rightarrow> u32 \<Rightarrow> bool" where
  "sdm_common d ar limit \<longleftrightarrow>
     get_m d (Ar Ar_descriptor_type) ar = 1 \<and> get_m d (Ar Ar_present) ar \<noteq> 0 \<and>
     get_m d (Ar Ar_reserved1) ar = 0 \<and> get_m d (Ar Ar_reserved2) ar = 0 \<and> sdm_granularity d ar limit"

definition sdm_cs_ok :: "ia32 \<Rightarrow> u32 \<Rightarrow> u32 \<Rightarrow> u32 \<Rightarrow> bool \<Rightarrow> bool \<Rightarrow> bool" where
  "sdm_cs_ok d ar ar_ss limit ia32e unrestricted \<longleftrightarrow>
     (ar_type d ar \<in> {9, 11, 13, 15} \<or> unrestricted \<and> ar_type d ar = 3) \<and>
     (ar_type d ar = 3 \<longrightarrow> ar_dpl d ar = 0) \<and>
     (ar_type d ar \<in> {9, 11} \<longrightarrow> ar_dpl d ar = ar_dpl d ar_ss) \<and>
     (ar_type d ar \<in> {13, 15} \<longrightarrow> ar_dpl d ar \<le> ar_dpl d ar_ss) \<and>
     (ia32e \<and> get_m d (Ar Ar_long_mode) ar \<noteq> 0 \<longrightarrow> get_m d (Ar Ar_default_big) ar = 0) \<and>
     sdm_common d ar limit"

definition sdm_ss_ok :: "ia32 \<Rightarrow> u32 \<Rightarrow> u32 \<Rightarrow> u32 \<Rightarrow> u16 \<Rightarrow> bool \<Rightarrow> bool \<Rightarrow> bool" where
  "sdm_ss_ok d ar ar_cs limit selector protected unrestricted \<longleftrightarrow>
     (ar_usable d ar \<longrightarrow> ar_type d ar \<in> {3, 7} \<and> sdm_common d ar limit) \<and>
     (\<not> unrestricted \<longrightarrow> ar_dpl d ar = ucast (get_m d (Seg Sel_request_privilege_level) selector)) \<and>
     (ar_type d ar_cs = 3 \<or> \<not> protected \<longrightarrow> ar_dpl d ar = 0)"

definition sdm_data_ok :: "ia32 \<Rightarrow> u32 \<Rightarrow> u32 \<Rightarrow> u16 \<Rightarrow> bool \<Rightarrow> bool" where
  "sdm_data_ok d ar limit selector unrestricted \<longleftrightarrow>
     (ar_usable d ar \<longrightarrow>
        bit (ar_type d ar) 0 \<and> (bit (ar_type d ar) 3 \<longrightarrow> bit (ar_type d ar) 1) \<and> sdm_common d ar limit \<and>
        (\<not> unrestricted \<and> ar_type d ar \<le> 11 \<longrightarrow>
           ucast (get_m d (Seg Sel_request_privilege_level) selector) \<le> ar_dpl d ar))"

section \<open>Agreement for one segment\<close>

text \<open>
  Byte granular limits, and page granular ones whose low twelve bits are all set or all clear: both
  readings of the granularity rule agree there.
\<close>

definition plain_limit :: "ia32 \<Rightarrow> u32 \<Rightarrow> u32 \<Rightarrow> bool" where
  "plain_limit d ar limit \<longleftrightarrow>
     limit AND 0xfff = 0xfff \<or> limit AND 0xfff = 0 \<or> get_m d (Ar Ar_granularity) ar = 0"

lemma ucast_u32_u64: "(ucast (t :: u32) :: u64) = ucast (u :: u32) \<longleftrightarrow> t = u"
proof
  assume "(ucast t :: u64) = ucast u"
  then have "unat (ucast t :: u64) = unat (ucast u :: u64)" by (simp only:)
  then have "unat t = unat u"
    using unat_lt_power[of t] unat_lt_power[of u] by (simp add: unsigned_ucast_eq take_bit_nat_eq_self)
  then show "t = u" by (simp only: word_unat_eq_iff)
qed simp

lemma type_numeral:
  "(ucast (t :: u32) :: u64) = 3 \<longleftrightarrow> t = 3" "(ucast t :: u64) = 7 \<longleftrightarrow> t = 7"
  "(ucast t :: u64) = 9 \<longleftrightarrow> t = 9" "(ucast t :: u64) = 11 \<longleftrightarrow> t = 11"
  "(ucast t :: u64) = 13 \<longleftrightarrow> t = 13" "(ucast t :: u64) = 15 \<longleftrightarrow> t = 15"
  using ucast_u32_u64[of t 3] ucast_u32_u64[of t 7] ucast_u32_u64[of t 9] ucast_u32_u64[of t 11]
    ucast_u32_u64[of t 13] ucast_u32_u64[of t 15] by simp_all

lemma flag_set_bit: "is_flag_set t (2 ^ n) \<longleftrightarrow> bit t n"
  unfolding is_flag_set_def by (simp add: and_exp_eq_0_iff_not_bit)

lemma flag_set_type: "is_flag_set t 1 \<longleftrightarrow> bit t 0" "is_flag_set t 2 \<longleftrightarrow> bit t 1" "is_flag_set t 8 \<longleftrightarrow> bit t 3"
  using flag_set_bit[of t 0] flag_set_bit[of t 1] flag_set_bit[of t 3] by simp_all

lemma plain_granularity:
  assumes "plain_limit d ar limit"
  shows "(\<not> is_flag_set limit 0xfff \<longrightarrow> get_m d (Ar Ar_granularity) ar = 0) \<and>
         (is_flag_set limit 0xfff00000 \<longrightarrow> get_m d (Ar Ar_granularity) ar \<noteq> 0) \<longleftrightarrow>
         sdm_granularity d ar limit"
  using assms unfolding plain_limit_def is_flag_set_def sdm_granularity_def by auto

lemma check_cs:
  assumes "segment_types d" "plain_limit d ar limit" "ar_type d ar = 9 \<or> ar_type d ar = 11"
  shows "passed (check_segment_access_rights d rd Seg_cs ar limit selector ia32e unr) \<longleftrightarrow>
         sdm_cs_ok d ar (ucast (rd (Guest_seg SS Access_rights))) limit ia32e unr"
proof -
  have t: "ar_type d ar \<noteq> 3" "ar_type d ar \<noteq> 13" "ar_type d ar \<noteq> 15" using assms(3) by auto
  show ?thesis
    using assms(3) t
    unfolding check_segment_access_rights_def Let_def sdm_cs_ok_def sdm_common_def
      plain_granularity[OF assms(2), symmetric]
    by (simp add: assms(1)[unfolded segment_types_def] type_numeral) blast
qed

lemma check_ss:
  assumes "segment_types d" "plain_limit d ar limit" "ar_dpl d ar = 0"
  shows "passed (check_segment_access_rights d rd Seg_ss ar limit selector ia32e unr) \<longleftrightarrow>
         sdm_ss_ok d ar (ucast (rd (Guest_seg CS Access_rights))) limit selector
           (get_m d (Reg Cr0_protection_enable) (rd (Guest VMCS_GUEST_CR0)) \<noteq> 0) unr"
  using assms(3)
  unfolding check_segment_access_rights_def Let_def sdm_ss_ok_def sdm_common_def
    plain_granularity[OF assms(2), symmetric]
  by (simp add: assms(1)[unfolded segment_types_def] type_numeral) blast

lemma check_data:
  assumes "plain_limit d ar limit" "seg \<in> {Seg_ds, Seg_es, Seg_fs, Seg_gs}"
    and "ar_usable d ar \<and> \<not> unr \<longrightarrow> ar_type d ar \<noteq> 13 \<and> ar_type d ar \<noteq> 15"
    and "snd (fld d (Ar Ar_type)) = 4"
  shows "passed (check_segment_access_rights d rd seg ar limit selector ia32e unr) \<longleftrightarrow>
         sdm_data_ok d ar limit selector unr"
proof -
  let ?t = "ar_type d ar"
  have "unat ?t < 2 ^ 4"
    using unat_take_bit_less[of 4 "drop_bit (fst (fld d (Ar Ar_type))) ar"] assms(4) by (simp add: bf_get_def)
  then have le: "?t \<le> 11 \<or> ?t = 12 \<or> ?t = 13 \<or> ?t = 14 \<or> ?t = 15"
    unfolding word_le_nat_alt word_unat_eq_iff by auto
  have nz: "bit ?t 0 \<Longrightarrow> push_bit 11 ?t \<noteq> 0"
  proof
    assume a: "bit ?t 0" "push_bit 11 ?t = 0"
    have "bit (push_bit 11 ?t) 11 \<longleftrightarrow> bit ?t 0" by (simp only: bit_push_bit_iff) simp
    with a show False by (simp only: bit_0_eq bot_apply bot_bool_def simp_thms)
  qed
  have ge: "bit ?t 0 \<Longrightarrow> ar_usable d ar \<and> \<not> unr \<Longrightarrow> ?t \<le> 11"
    using le assms(3) by auto
  show ?thesis
    using assms(2) nz ge
    unfolding check_segment_access_rights_def Let_def sdm_data_ok_def sdm_common_def
      plain_granularity[OF assms(1), symmetric] flag_set_type
    by (elim insertE emptyE) (simp; blast)+
qed


section \<open>Agreement for the guest state\<close>

definition ar_of :: "vmcs_reader \<Rightarrow> segreg \<Rightarrow> u32" where "ar_of rd r = ucast (rd (Guest_seg r Access_rights))"
definition limit_of :: "vmcs_reader \<Rightarrow> segreg \<Rightarrow> u32" where "limit_of rd r = ucast (rd (Guest_seg r Limit))"
definition sel_of :: "vmcs_reader \<Rightarrow> segreg \<Rightarrow> u16" where "sel_of rd r = ucast (rd (Guest_seg r Selector))"

definition unrestricted :: "ia32 \<Rightarrow> vmcs_reader \<Rightarrow> bool" where
  "unrestricted d rd \<longleftrightarrow>
     get_m d (Ctl Proc_activate_secondary_controls)
       (rd (Ctrl VMCS_CTRL_PROCESSOR_BASED_VM_EXECUTION_CONTROLS)) \<noteq> 0 \<and>
     get_m d (Ctl Proc2_unrestricted_guest)
       (rd (Ctrl VMCS_CTRL_SECONDARY_PROCESSOR_BASED_VM_EXECUTION_CONTROLS)) \<noteq> 0"

definition ia32e_guest :: "ia32 \<Rightarrow> vmcs_reader \<Rightarrow> bool" where
  "ia32e_guest d rd \<longleftrightarrow> get_m d (Ctl Entry_ia32e_mode_guest) (rd (Ctrl VMCS_CTRL_VMENTRY_CONTROLS)) \<noteq> 0"

text \<open>Checks on control registers and MSRs, for the controls the code tests.\<close>

definition sdm_controls_ok :: "ia32 \<Rightarrow> vmcs_reader \<Rightarrow> bool" where
  "sdm_controls_ok d rd \<longleftrightarrow>
     (let cr0 = rd (Guest VMCS_GUEST_CR0); cr4 = rd (Guest VMCS_GUEST_CR4);
          entry = rd (Ctrl VMCS_CTRL_VMENTRY_CONTROLS); efer = rd (Guest VMCS_GUEST_EFER)
      in (get_m d (Reg Cr0_paging_enable) cr0 \<noteq> 0 \<and> \<not> unrestricted d rd \<longrightarrow>
            get_m d (Reg Cr0_protection_enable) cr0 = 1) \<and>
         get_m d (Ctl Entry_load_ia32_perf_global_ctrl) entry = 0 \<and>
         (ia32e_guest d rd \<longrightarrow> get_m d (Reg Cr0_paging_enable) cr0 \<noteq> 0 \<and>
            get_m d (Reg Cr4_physical_address_extension) cr4 \<noteq> 0) \<and>
         (get_m d (Ctl Entry_load_ia32_efer) entry \<noteq> 0 \<longrightarrow>
            get_m d (Reg Efer_reserved1) efer = 0 \<and> get_m d (Reg Efer_reserved2) efer = 0 \<and>
            get_m d (Reg Efer_reserved3) efer = 0 \<and>
            get_m d (Reg Efer_ia32e_mode_active) efer = get_m d (Ctl Entry_ia32e_mode_guest) entry \<and>
            (get_m d (Reg Cr0_paging_enable) cr0 \<noteq> 0 \<longrightarrow>
               get_m d (Reg Efer_ia32e_mode_active) efer = get_m d (Reg Efer_ia32e_mode_enable) efer)) \<and>
         get_m d (Ctl Entry_load_ia32_bndcfgs) entry = 0 \<and> get_m d (Ctl Entry_load_ia32_rtit_ctl) entry = 0 \<and>
         get_m d (Ctl Entry_load_cet_state) entry = 0)"

definition sdm_segments_ok :: "ia32 \<Rightarrow> vmcs_reader \<Rightarrow> bool" where
  "sdm_segments_ok d rd \<longleftrightarrow>
     get_m d (Seg Sel_table) (sel_of rd TR) = 0 \<and>
     (ar_usable d (ar_of rd LDTR) \<longrightarrow> get_m d (Seg Sel_table) (sel_of rd LDTR) = 0) \<and>
     sdm_cs_ok d (ar_of rd CS) (ar_of rd SS) (limit_of rd CS) (ia32e_guest d rd) (unrestricted d rd) \<and>
     sdm_ss_ok d (ar_of rd SS) (ar_of rd CS) (limit_of rd SS) (sel_of rd SS)
       (get_m d (Reg Cr0_protection_enable) (rd (Guest VMCS_GUEST_CR0)) \<noteq> 0) (unrestricted d rd) \<and>
     (\<forall>r \<in> {DS, ES, FS, GS}. sdm_data_ok d (ar_of rd r) (limit_of rd r) (sel_of rd r) (unrestricted d rd)) \<and>
     (ia32e_guest d rd \<longrightarrow> ar_type d (ar_of rd TR) = 11) \<and>
     (\<not> ia32e_guest d rd \<longrightarrow> ar_type d (ar_of rd TR) \<in> {3, 11}) \<and>
     get_m d (Ar Ar_descriptor_type) (ar_of rd TR) = 0 \<and> get_m d (Ar Ar_present) (ar_of rd TR) \<noteq> 0 \<and>
     get_m d (Ar Ar_reserved1) (ar_of rd TR) = 0 \<and> get_m d (Ar Ar_reserved2) (ar_of rd TR) = 0 \<and>
     ar_usable d (ar_of rd TR) \<and> sdm_granularity d (ar_of rd TR) (limit_of rd TR)"

definition sdm_nonregister_ok :: "ia32 \<Rightarrow> vmcs_reader \<Rightarrow> bool" where
  "sdm_nonregister_ok d rd \<longleftrightarrow>
     (let rflags = rd (Guest VMCS_GUEST_RFLAGS); intr = rd (Guest VMCS_GUEST_INTERRUPTIBILITY_STATE);
          activity = rd (Guest VMCS_GUEST_ACTIVITY_STATE);
          sti = get_m d (Reg Intr_blocking_by_sti) intr; mov_ss = get_m d (Reg Intr_blocking_by_mov_ss) intr
      in get_m d (Reg Rflags_reserved1) rflags = 0 \<and> get_m d (Reg Rflags_reserved2) rflags = 0 \<and>
         get_m d (Reg Rflags_reserved3) rflags = 0 \<and> get_m d (Reg Rflags_reserved4) rflags = 0 \<and>
         get_m d (Reg Rflags_read_as_1) rflags \<noteq> 0 \<and>
         activity \<in> {cst d Vmx_active, cst d Vmx_hlt, cst d Vmx_shutdown, cst d Vmx_wait_for_sipi} \<and>
         (ar_dpl d (ar_of rd SS) \<noteq> 0 \<longrightarrow> activity \<noteq> cst d Vmx_hlt) \<and>
         (sti \<noteq> 0 \<or> mov_ss \<noteq> 0 \<longrightarrow> activity = cst d Vmx_active) \<and>
         (get_m d (Reg Rflags_interrupt_enable_flag) rflags = 0 \<longrightarrow> sti = 0) \<and>
         (get_m d (Reg Intr_enclave_interruption) intr \<noteq> 0 \<longrightarrow> mov_ss = 0))"

definition sdm_guest_ok :: "ia32 \<Rightarrow> vmcs_reader \<Rightarrow> bool" where
  "sdm_guest_ok d rd \<longleftrightarrow> sdm_controls_ok d rd \<and> sdm_segments_ok d rd \<and> sdm_nonregister_ok d rd"

text \<open>
  A kernel in long mode: non-conforming code, a stack at privilege 0, data segments that are not
  conforming code, byte or page granular limits, no interrupt shadow.
\<close>

definition long_mode_kernel :: "ia32 \<Rightarrow> vmcs_reader \<Rightarrow> bool" where
  "long_mode_kernel d rd \<longleftrightarrow>
     ia32e_guest d rd \<and> ar_type d (ar_of rd CS) \<in> {9, 11} \<and> ar_dpl d (ar_of rd SS) = 0 \<and>
     list_all (\<lambda>r. plain_limit d (ar_of rd r) (limit_of rd r)) [CS, SS, DS, ES, FS, GS, TR] \<and>
     list_all (\<lambda>r. ar_usable d (ar_of rd r) \<longrightarrow> ar_type d (ar_of rd r) \<notin> {13, 15}) [DS, ES, FS, GS] \<and>
     get_m d (Reg Intr_blocking_by_sti) (rd (Guest VMCS_GUEST_INTERRUPTIBILITY_STATE)) = 0 \<and>
     get_m d (Reg Intr_blocking_by_mov_ss) (rd (Guest VMCS_GUEST_INTERRUPTIBILITY_STATE)) = 0"

lemma check_guest_segments:
  assumes "segment_types d" "snd (fld d (Ar Ar_type)) = 4" "long_mode_kernel d rd"
  shows "passed (check_guest_segment d rd Seg_cs CS ia32e unr) \<longleftrightarrow>
           sdm_cs_ok d (ar_of rd CS) (ar_of rd SS) (limit_of rd CS) ia32e unr"
    and "passed (check_guest_segment d rd Seg_ss SS ia32e unr) \<longleftrightarrow>
           sdm_ss_ok d (ar_of rd SS) (ar_of rd CS) (limit_of rd SS) (sel_of rd SS)
             (get_m d (Reg Cr0_protection_enable) (rd (Guest VMCS_GUEST_CR0)) \<noteq> 0) unr"
    and "(seg, r) \<in> {(Seg_ds, DS), (Seg_es, ES), (Seg_fs, FS), (Seg_gs, GS)} \<Longrightarrow>
         passed (check_guest_segment d rd seg r ia32e unr) \<longleftrightarrow>
           sdm_data_ok d (ar_of rd r) (limit_of rd r) (sel_of rd r) unr"
proof -
  note k = assms(3)[unfolded long_mode_kernel_def list.pred_inject simp_thms]
  show "passed (check_guest_segment d rd Seg_cs CS ia32e unr) \<longleftrightarrow>
           sdm_cs_ok d (ar_of rd CS) (ar_of rd SS) (limit_of rd CS) ia32e unr"
    using check_cs[OF assms(1), of "ar_of rd CS" "limit_of rd CS"] k
    unfolding check_guest_segment_def ar_of_def[symmetric] limit_of_def[symmetric] sel_of_def[symmetric]
    by blast
  show "passed (check_guest_segment d rd Seg_ss SS ia32e unr) \<longleftrightarrow>
           sdm_ss_ok d (ar_of rd SS) (ar_of rd CS) (limit_of rd SS) (sel_of rd SS)
             (get_m d (Reg Cr0_protection_enable) (rd (Guest VMCS_GUEST_CR0)) \<noteq> 0) unr"
    using check_ss[OF assms(1), of "ar_of rd SS" "limit_of rd SS"] k
    unfolding check_guest_segment_def ar_of_def[symmetric] limit_of_def[symmetric] sel_of_def[symmetric]
    by blast
  assume s: "(seg, r) \<in> {(Seg_ds, DS), (Seg_es, ES), (Seg_fs, FS), (Seg_gs, GS)}"
  then have "plain_limit d (ar_of rd r) (limit_of rd r)" "seg \<in> {Seg_ds, Seg_es, Seg_fs, Seg_gs}"
     "ar_usable d (ar_of rd r) \<and> \<not> unr \<longrightarrow> ar_type d (ar_of rd r) \<noteq> 13 \<and> ar_type d (ar_of rd r) \<noteq> 15"
    using k by auto
  from check_data[OF this assms(2)]
  show "passed (check_guest_segment d rd seg r ia32e unr) \<longleftrightarrow>
           sdm_data_ok d (ar_of rd r) (limit_of rd r) (sel_of rd r) unr"
    unfolding check_guest_segment_def ar_of_def[symmetric] limit_of_def[symmetric] sel_of_def[symmetric] .
qed


lemma passed_cs_type:
  assumes "segment_types d" "passed (check_segment_access_rights d rd Seg_cs ar limit selector ia32e unr)"
  shows "ar_type d ar = 9 \<or> ar_type d ar = 11"
  using assms(2) unfolding check_segment_access_rights_def Let_def
  by (simp add: assms(1)[unfolded segment_types_def] type_numeral split: if_splits)

lemma passed_guest:
  assumes "passed (cpu_vmxcheck d rd)"
  shows "passed (check_guest_segment d rd Seg_cs CS (ia32e_guest d rd) (unrestricted d rd))"
    and "get_m d (Reg Intr_blocking_by_sti) (rd (Guest VMCS_GUEST_INTERRUPTIBILITY_STATE)) = 1 \<or>
         get_m d (Reg Intr_blocking_by_mov_ss) (rd (Guest VMCS_GUEST_INTERRUPTIBILITY_STATE)) \<noteq> 0 \<longrightarrow>
         rd (Guest VMCS_GUEST_ACTIVITY_STATE) \<noteq> cst d Vmx_active"
  using assms
  unfolding cpu_vmxcheck_def cpu_vmxcheck_guest_def check_guest_defs Let_def append.simps passed_run unrestricted_def[symmetric]
    ia32e_guest_def[symmetric] list.set ball_simps passed_when passed_chk_in passed_chk
  by blast+

section \<open>Properties\<close>


text \<open>
  Guests the SDM accepts are rejected in two cases: code in a conforming segment, and any interrupt
  shadow. With the shadow the check demands that the guest is not active, the SDM that it is.
\<close>

theorem vmxcheck_rejects_legal_guests:
  assumes "segment_types d" "sdm_guest_ok d rd"
    and "ar_type d (ar_of rd CS) \<in> {13, 15} \<or>
         get_m d (Reg Intr_blocking_by_sti) (rd (Guest VMCS_GUEST_INTERRUPTIBILITY_STATE)) = 1 \<or>
         get_m d (Reg Intr_blocking_by_mov_ss) (rd (Guest VMCS_GUEST_INTERRUPTIBILITY_STATE)) \<noteq> 0"
  shows "\<not> passed (cpu_vmxcheck d rd)"
proof
  assume p: "passed (cpu_vmxcheck d rd)"
  have "passed (check_guest_segment d rd Seg_cs CS (ia32e_guest d rd) (unrestricted d rd))"
    by (rule passed_guest(1)[OF p])
  then have "ar_type d (ar_of rd CS) = 9 \<or> ar_type d (ar_of rd CS) = 11"
    unfolding check_guest_segment_def ar_of_def by (rule passed_cs_type[OF assms(1)])
  then have "ar_type d (ar_of rd CS) \<notin> {13, 15}" by auto
  moreover have "rd (Guest VMCS_GUEST_ACTIVITY_STATE) = cst d Vmx_active"
    if "get_m d (Reg Intr_blocking_by_sti) (rd (Guest VMCS_GUEST_INTERRUPTIBILITY_STATE)) = 1 \<or>
        get_m d (Reg Intr_blocking_by_mov_ss) (rd (Guest VMCS_GUEST_INTERRUPTIBILITY_STATE)) \<noteq> 0"
    using assms(2) that unfolding sdm_guest_ok_def sdm_nonregister_ok_def Let_def by force
  ultimately show False using assms(3) passed_guest(2)[OF p] by blast
qed

text \<open>
  The privilege level of the stack segment: with protection on, a level other than 0 never passes;
  with protection off, every level passes that the other rules allow. The SDM demands level 0 with
  protection off and leaves it free with protection on.
\<close>

theorem vmxcheck_stack_level:
  assumes "segment_types d" "plain_limit d ar limit" "ar_type d (ar_of rd CS) \<noteq> 3" "ar_dpl d ar \<noteq> 0"
  shows "passed (check_segment_access_rights d rd Seg_ss ar limit selector ia32e unr) \<longleftrightarrow>
         get_m d (Reg Cr0_protection_enable) (rd (Guest VMCS_GUEST_CR0)) = 0 \<and>
         sdm_ss_ok d ar (ar_of rd CS) limit selector True unr"
  using assms(3,4)
  unfolding check_segment_access_rights_def Let_def sdm_ss_ok_def sdm_common_def ar_of_def
    plain_granularity[OF assms(2), symmetric]
  by (simp add: assms(1)[unfolded segment_types_def] type_numeral) blast

section \<open>Witnesses\<close>

text \<open>The state of a 64 bit kernel on a flat segment setup, as a VMCS.\<close>

definition kernel_vmcs :: vmcs_reader where
  "kernel_vmcs f =
     (case f of
        Guest_seg r Access_rights \<Rightarrow>
          (case r of CS \<Rightarrow> 0xA09B | TR \<Rightarrow> 0x8B | LDTR \<Rightarrow> 0x10000 | _ \<Rightarrow> 0xC093)
      | Guest_seg r Limit \<Rightarrow> (if r = TR then 0x67 else if r = LDTR then 0 else 0xFFFF)
      | Guest_seg r Selector \<Rightarrow> (case r of CS \<Rightarrow> 0x38 | TR \<Rightarrow> 0x40 | LDTR \<Rightarrow> 0 | _ \<Rightarrow> 0x30)
      | Guest_seg r Base \<Rightarrow> 0
      | Guest VMCS_GUEST_CR0 \<Rightarrow> 0x80000033
      | Guest VMCS_GUEST_CR4 \<Rightarrow> 0x2668
      | Guest VMCS_GUEST_EFER \<Rightarrow> 0xD00
      | Guest VMCS_GUEST_RFLAGS \<Rightarrow> 0x202
      | Guest _ \<Rightarrow> 0
      | Ctrl VMCS_CTRL_VMENTRY_CONTROLS \<Rightarrow> 0x93FB
      | Ctrl VMCS_CTRL_PROCESSOR_BASED_VM_EXECUTION_CONTROLS \<Rightarrow> 0x9401E172
      | Ctrl VMCS_CTRL_SECONDARY_PROCESSOR_BASED_VM_EXECUTION_CONTROLS \<Rightarrow> 0x10108A
      | _ \<Rightarrow> 0)"


lemma sdm_segment_types [simp]: "segment_types sdm"
  by (simp add: segment_types_def)

lemma kernel_ars:
  "ar_of kernel_vmcs CS = 0xA09B" "ar_of kernel_vmcs SS = 0xC093" "ar_of kernel_vmcs DS = 0xC093"
  "ar_of kernel_vmcs ES = 0xC093" "ar_of kernel_vmcs FS = 0xC093" "ar_of kernel_vmcs GS = 0xC093"
  "ar_of kernel_vmcs TR = 0x8B" "ar_of kernel_vmcs LDTR = 0x10000"
  "limit_of kernel_vmcs CS = 0xFFFF" "limit_of kernel_vmcs SS = 0xFFFF" "limit_of kernel_vmcs DS = 0xFFFF"
  "limit_of kernel_vmcs ES = 0xFFFF" "limit_of kernel_vmcs FS = 0xFFFF" "limit_of kernel_vmcs GS = 0xFFFF"
  "limit_of kernel_vmcs TR = 0x67" "sel_of kernel_vmcs TR = 0x40"
  by (simp_all add: ar_of_def limit_of_def sel_of_def kernel_vmcs_def)

lemma kernel_reads:
  "kernel_vmcs (Guest VMCS_GUEST_CR0) = 0x80000033" "kernel_vmcs (Guest VMCS_GUEST_CR4) = 0x2668"
  "kernel_vmcs (Guest VMCS_GUEST_EFER) = 0xD00" "kernel_vmcs (Guest VMCS_GUEST_RFLAGS) = 0x202"
  "kernel_vmcs (Guest VMCS_GUEST_INTERRUPTIBILITY_STATE) = 0" "kernel_vmcs (Guest VMCS_GUEST_ACTIVITY_STATE) = 0"
  "kernel_vmcs (Ctrl VMCS_CTRL_VMENTRY_CONTROLS) = 0x93FB"
  "kernel_vmcs (Ctrl VMCS_CTRL_PROCESSOR_BASED_VM_EXECUTION_CONTROLS) = 0x9401E172"
  "kernel_vmcs (Ctrl VMCS_CTRL_SECONDARY_PROCESSOR_BASED_VM_EXECUTION_CONTROLS) = 0x10108A"
  by (simp_all add: kernel_vmcs_def)

lemma kernel_modes: "ia32e_guest sdm kernel_vmcs" "unrestricted sdm kernel_vmcs"
  by (simp_all add: ia32e_guest_def unrestricted_def kernel_reads bf_get_def)

lemma kernel_long_mode: "long_mode_kernel sdm kernel_vmcs"
  by (simp add: long_mode_kernel_def kernel_modes kernel_ars kernel_reads plain_limit_def bf_get_def)

lemma kernel_controls_ok: "sdm_controls_ok sdm kernel_vmcs"
  by (simp add: sdm_controls_ok_def Let_def kernel_modes kernel_reads bf_get_def)

lemma kernel_segments_ok: "sdm_segments_ok sdm kernel_vmcs"
  by (simp add: sdm_segments_ok_def kernel_modes kernel_ars kernel_reads
      sdm_cs_ok_def sdm_ss_ok_def sdm_data_ok_def sdm_common_def sdm_granularity_def bf_get_def)

lemma kernel_nonregister_ok: "sdm_nonregister_ok sdm kernel_vmcs"
  by (simp add: sdm_nonregister_ok_def Let_def kernel_ars kernel_reads bf_get_def)

lemma kernel_guest_ok: "sdm_guest_ok sdm kernel_vmcs"
  by (simp add: sdm_guest_ok_def kernel_controls_ok kernel_segments_ok kernel_nonregister_ok)


text \<open>The same guest in the shadow of a load of SS.\<close>

definition shadow_vmcs :: vmcs_reader where
  "shadow_vmcs = kernel_vmcs(Guest VMCS_GUEST_INTERRUPTIBILITY_STATE := 2)"

lemma shadow_same:
  "f \<noteq> Guest VMCS_GUEST_INTERRUPTIBILITY_STATE \<Longrightarrow> shadow_vmcs f = kernel_vmcs f"
  "ar_of shadow_vmcs r = ar_of kernel_vmcs r" "limit_of shadow_vmcs r = limit_of kernel_vmcs r"
  "sel_of shadow_vmcs r = sel_of kernel_vmcs r"
  by (simp_all add: shadow_vmcs_def ar_of_def limit_of_def sel_of_def)

lemma shadow_modes:
  "ia32e_guest d shadow_vmcs = ia32e_guest d kernel_vmcs" "unrestricted d shadow_vmcs = unrestricted d kernel_vmcs"
  by (simp_all add: ia32e_guest_def unrestricted_def shadow_same)

lemma shadow_guest_ok: "sdm_guest_ok sdm shadow_vmcs"
proof -
  have "sdm_controls_ok sdm shadow_vmcs"
    using kernel_controls_ok by (simp add: sdm_controls_ok_def shadow_same shadow_modes)
  moreover have "sdm_segments_ok sdm shadow_vmcs"
    using kernel_segments_ok by (simp add: sdm_segments_ok_def shadow_same shadow_modes)
  moreover have "shadow_vmcs (Guest VMCS_GUEST_INTERRUPTIBILITY_STATE) = 2" by (simp add: shadow_vmcs_def)
  then have "sdm_nonregister_ok sdm shadow_vmcs"
    by (simp add: sdm_nonregister_ok_def Let_def shadow_same kernel_ars kernel_reads bf_get_def)
  ultimately show ?thesis by (simp add: sdm_guest_ok_def)
qed

theorem vmxcheck_rejects_legal_guests_witness:
  "sdm_guest_ok sdm shadow_vmcs \<and> \<not> passed (cpu_vmxcheck sdm shadow_vmcs)"
  using vmxcheck_rejects_legal_guests[of sdm shadow_vmcs] shadow_guest_ok
  by (simp add: shadow_vmcs_def bf_get_def)

theorem vmxcheck_stack_level_witness:
  "\<not> passed (check_segment_access_rights sdm kernel_vmcs Seg_ss 0xC0F3 0xFFFF 0x33 True True)"
  using vmxcheck_stack_level[of sdm "0xC0F3" "0xFFFF" kernel_vmcs "0x33" True True]
  by (simp add: plain_limit_def bf_get_def kernel_ars kernel_reads)

end
