(* ===== verification/Cpu.thy ===== *)
theory Cpu
  imports Ept Vmxcheck
begin

text \<open>
  Bringing one core into VMX operation: \<^verbatim>\<open>hypervisor/cpu.cc\<close> and \<^verbatim>\<open>hypervisor/cpu.h\<close>. The registers,
  the memory with the \<^verbatim>\<open>cpu_state\<close> of the core, the number of pages taken from \<^verbatim>\<open>ldr_malloc\<close>, the
  log and the processor's own VMX state are one record. The VMX instructions are a parameter: each
  returns its zero and carry flag and the new VMX state, as the SDM describes them. Log lines that
  only announce progress are left out.
\<close>

section \<open>State\<close>

record regs =
  r_cr0 :: u64
  r_cr3 :: u64
  r_cr4 :: u64
  r_sel :: "segreg \<Rightarrow> u16"
  r_rflags :: u64
  r_gdtr_base :: u64
  r_gdtr_limit :: u16
  r_idtr_base :: u64
  r_idtr_limit :: u16
  r_rsp :: u64
  r_rip :: u64
  r_msr :: msr_file

datatype 'v launch = Launch_fails bool bool 'v | Guest_runs 'v

record 'v vmx_ops =
  vmxon_op :: "mem \<Rightarrow> u64 \<Rightarrow> 'v \<Rightarrow> (bool \<times> bool) \<times> 'v"
  vmclear_op :: "mem \<Rightarrow> u64 \<Rightarrow> 'v \<Rightarrow> (bool \<times> bool) \<times> 'v"
  vmptrld_op :: "mem \<Rightarrow> u64 \<Rightarrow> 'v \<Rightarrow> (bool \<times> bool) \<times> 'v"
  invept_op :: "u64 \<times> u64 list \<Rightarrow> 'v \<Rightarrow> 'v"
  invvpid_op :: "u64 \<times> u64 list \<Rightarrow> 'v \<Rightarrow> 'v"
  vmwrite_op :: "u64 \<Rightarrow> u64 \<Rightarrow> 'v \<Rightarrow> (bool \<times> bool) \<times> 'v"
  vmread_op :: "u64 \<Rightarrow> 'v \<Rightarrow> (bool \<times> bool) \<times> u64"
  vmlaunch_op :: "'v \<Rightarrow> 'v launch"

record 'v machine =
  doc :: ia32
  isa :: x86
  ops :: "'v vmx_ops"
  pages :: page_oracle
  mem_types :: mem_type_fn
  cpu_states_at :: u64
  host_entry_at :: u64

datatype cpu_event =
    Vmxwrite_failed u64 | Vmxread_failed u64 | Vmxon_failed | Vmcs_setup_failed | Success
  | Ept_log ept_event | Dump vmcs_field u64 | Entries ept_entries u64 | Check_failed "check_name list"
  | Launch_returned | Instruction_error u64 | How_did_we_get_here
  | Exit_reason u64 | Vm_entry_failure u64 u64 u64 | Ept_misconfigured u64

record 'v cpu_env =
  cmem :: mem
  cregs :: regs
  vmx :: 'v
  mallocs :: nat
  clog :: "cpu_event list"

datatype cpu_outcome = Returned u64 | Guest_entered | Bad_core_index u64

definition say :: "cpu_event \<Rightarrow> 'v cpu_env \<Rightarrow> 'v cpu_env" where
  "say e s = s\<lparr>clog := clog s @ [e]\<rparr>"

section \<open>The layout of cpu_state\<close>

definition cpu_max :: u64 where "cpu_max = 1"

definition align_page :: "u64 \<Rightarrow> u64" where
  "align_page a = (a + 0xFFF) AND NOT (mask 12)"

definition sizeof_ept_state :: u64 where
  "sizeof_ept_state = 8 + 8 + 8 + 512 * 8 + 512 * 512 * 8"

definition off_status_code :: u64 where "off_status_code = 0"
definition off_core_index :: u64 where "off_core_index = 8"
definition off_vmxon :: u64 where "off_vmxon = align_page 16"
definition off_vmcs :: "ia32 \<Rightarrow> u64" where
  "off_vmcs d = align_page (off_vmxon + size_of d Vmxon_struct)"
definition off_ept :: "ia32 \<Rightarrow> u64" where
  "off_ept d = align_page (off_vmcs d + size_of d Vmcs_struct)"
definition off_msr_bitmap :: "ia32 \<Rightarrow> u64" where
  "off_msr_bitmap d = align_page (off_ept d + sizeof_ept_state)"
definition off_host_stack :: "ia32 \<Rightarrow> u64" where
  "off_host_stack d = align_page (off_msr_bitmap d + size_of d Vmx_msr_bitmap_struct)"
definition sizeof_host_stack :: u64 where "sizeof_host_stack = 0xFFFF"
definition sizeof_cpu_state :: "ia32 \<Rightarrow> u64" where
  "sizeof_cpu_state d = align_page (off_host_stack d + sizeof_host_stack)"

lemmas cpu_state_layout = off_status_code_def off_core_index_def off_vmxon_def off_vmcs_def off_ept_def
  off_msr_bitmap_def off_host_stack_def sizeof_host_stack_def sizeof_cpu_state_def sizeof_ept_state_def

definition cpu_state_at :: "'v machine \<Rightarrow> u64 \<Rightarrow> u64" where
  "cpu_state_at M index = cpu_states_at M + index * sizeof_cpu_state (doc M)"

section \<open>Control registers and VMCS access\<close>

definition cpu_alter_control_register :: "msr_file \<Rightarrow> u64 \<Rightarrow> u32 \<Rightarrow> u32 \<Rightarrow> u64" where
  "cpu_alter_control_register msrs original_value msr_id_0 msr_id_1 =
     (let or_data = (ucast (msrs msr_id_0) :: u32);
          and_data = (ucast (msrs msr_id_1) :: u32);
          original_value = original_value AND ucast and_data
      in original_value OR ucast or_data)"

definition cpu_alter_vmx_control_register :: "ia32 \<Rightarrow> msr_file \<Rightarrow> u64 \<Rightarrow> u32 \<Rightarrow> u64" where
  "cpu_alter_vmx_control_register d msrs original msr =
     (let msr_data = msrs msr;
          original = original AND get_m d (Cap True_allowed_1_settings) msr_data
      in original OR get_m d (Cap True_allowed_0_settings) msr_data)"

definition cpu_vmxwrite :: "'v machine \<Rightarrow> vmcs_field \<Rightarrow> u64 \<Rightarrow> 'v cpu_env \<Rightarrow> 'v cpu_env" where
  "cpu_vmxwrite M field value s =
     (case vmwrite_op (ops M) (vmcs_enc (doc M) field) value (vmx s) of
        ((zf, cf), v) \<Rightarrow>
          let s = s\<lparr>vmx := v\<rparr>
          in if vmx_error_tail zf cf \<noteq> 0 then say (Vmxwrite_failed (vmcs_enc (doc M) field)) s else s)"

definition cpu_vmxread_value :: "'v machine \<Rightarrow> 'v \<Rightarrow> vmcs_field \<Rightarrow> u64" where
  "cpu_vmxread_value M v field =
     (case vmread_op (ops M) (vmcs_enc (doc M) field) v of
        ((zf, cf), value) \<Rightarrow> if vmx_error_tail zf cf \<noteq> 0 then 0x1337420 else value)"

definition cpu_vmxread :: "'v machine \<Rightarrow> vmcs_field \<Rightarrow> 'v cpu_env \<Rightarrow> u64 \<times> 'v cpu_env" where
  "cpu_vmxread M field s =
     (case vmread_op (ops M) (vmcs_enc (doc M) field) (vmx s) of
        ((zf, cf), _) \<Rightarrow>
          (cpu_vmxread_value M (vmx s) field,
           if vmx_error_tail zf cf \<noteq> 0 then say (Vmxread_failed (vmcs_enc (doc M) field)) s else s))"

definition keys_to_dump :: "vmcs_field list" where
  "keys_to_dump =
     [Host VMCS_HOST_RSP, Host VMCS_HOST_RIP, Guest VMCS_GUEST_RSP, Guest VMCS_GUEST_RIP] @
     map (\<lambda>r. Guest_seg r Selector) [ES, CS, SS, DS, FS, GS, LDTR, TR] @
     [Guest VMCS_GUEST_VMCS_LINK_POINTER, Guest VMCS_GUEST_EFER] @
     map (\<lambda>r. Guest_seg r Limit) [ES, CS, SS, DS, FS, GS, LDTR, TR] @
     [Guest VMCS_GUEST_GDTR_LIMIT, Guest VMCS_GUEST_IDTR_LIMIT] @
     map (\<lambda>r. Guest_seg r Access_rights) [ES, CS, SS, DS, FS, GS, LDTR, TR] @
     [Guest VMCS_GUEST_SYSENTER_CS, Guest VMCS_GUEST_CR0, Guest VMCS_GUEST_CR3, Guest VMCS_GUEST_CR4] @
     map (\<lambda>r. Guest_seg r Base) [FS, GS, LDTR, TR] @
     [Guest VMCS_GUEST_GDTR_BASE, Guest VMCS_GUEST_IDTR_BASE, Guest VMCS_GUEST_RSP, Guest VMCS_GUEST_RIP,
      Guest VMCS_GUEST_RFLAGS, Guest VMCS_GUEST_SYSENTER_ESP, Guest VMCS_GUEST_SYSENTER_EIP]"

definition cpu_dumpvmcs :: "'v machine \<Rightarrow> 'v cpu_env \<Rightarrow> 'v cpu_env" where
  "cpu_dumpvmcs M s =
     fold (\<lambda>field s. let (value, s) = cpu_vmxread M field s in say (Dump field value) s) keys_to_dump s"

section \<open>cpu_init\<close>

text \<open>Lines 121 to 127: the core state.\<close>

definition init_core_state :: "'v machine \<Rightarrow> u64 \<Rightarrow> 'v cpu_env \<Rightarrow> 'v cpu_env" where
  "init_core_state M index s =
     (let d = doc M; st = cpu_state_at M index;
          m = cmem s;
          m = store64 m (st + off_core_index) index;
          m = store64 m (st + off_status_code) 0;
          m = snd (memset m (st + off_vmxon) 0 (size_of d Vmxon_struct));
          m = snd (memset m (st + off_vmcs d) 0 (size_of d Vmcs_struct));
          m = snd (memset m (st + off_msr_bitmap d) 0 (size_of d Vmx_msr_bitmap_struct));
          m = snd (memset m (st + off_host_stack d) 0 sizeof_host_stack)
      in s\<lparr>cmem := m\<rparr>)"

text \<open>Lines 129 to 137.\<close>

definition init_control_registers :: "'v machine \<Rightarrow> 'v cpu_env \<Rightarrow> 'v cpu_env" where
  "init_control_registers M s =
     (let d = doc M; r = cregs s;
          r = r\<lparr>r_cr4 := set_m d (Reg Cr4_vmx_enable) 1 (r_cr4 r)\<rparr>;
          r = r\<lparr>r_cr0 := cpu_alter_control_register (r_msr r) (r_cr0 r)
                  (msr_id d IA32_VMX_CR0_FIXED0) (msr_id d IA32_VMX_CR0_FIXED1)\<rparr>;
          r = r\<lparr>r_cr4 := cpu_alter_control_register (r_msr r) (r_cr4 r)
                  (msr_id d IA32_VMX_CR4_FIXED0) (msr_id d IA32_VMX_CR4_FIXED1)\<rparr>
      in s\<lparr>cregs := r\<rparr>)"

text \<open>The VMX controls, lines 178 to 213.\<close>

record vmx_controls =
  vmexit_ctls :: u64
  vmentry_ctls :: u64
  pinbased_ctls :: u64
  procbased_ctls :: u64
  procbased2_ctls :: u64

definition init_controls :: "ia32 \<Rightarrow> msr_file \<Rightarrow> vmx_controls" where
  "init_controls d msrs =
     (let vmx_basic = msrs (msr_id d IA32_VMX_BASIC);
          pick = \<lambda>t f. msr_id d (if get_m d (Cap Basic_vmx_controls) vmx_basic \<noteq> 0 then t else f);
          alter = cpu_alter_vmx_control_register d msrs;
          ex = set_m d (Ctl Exit_save_ia32_efer) 1 (set_m d (Ctl Exit_load_ia32_efer) 1
                 (set_m d (Ctl Exit_host_address_space_size) 1 0));
          en = set_m d (Ctl Entry_ia32e_mode_guest) 1 (set_m d (Ctl Entry_load_ia32_efer) 1 0);
          pin = set_m d (Ctl Pin_virtual_nmi) 1 (set_m d (Ctl Pin_nmi_exiting) 1 0);
          pr = set_m d (Ctl Proc_activate_secondary_controls) 1 (set_m d (Ctl Proc_use_msr_bitmaps) 1 0);
          pr2 = set_m d (Ctl Proc2_enable_xsaves) 1 (set_m d (Ctl Proc2_enable_invpcid) 1
                  (set_m d (Ctl Proc2_unrestricted_guest) 1 (set_m d (Ctl Proc2_enable_rdtscp) 1
                    (set_m d (Ctl Proc2_enable_vpid) 0 (set_m d (Ctl Proc2_enable_ept) 1 0)))))
      in \<lparr>vmexit_ctls = alter ex (pick IA32_VMX_TRUE_EXIT_CTLS IA32_VMX_EXIT_CTLS),
          vmentry_ctls = alter en (pick IA32_VMX_TRUE_ENTRY_CTLS IA32_VMX_ENTRY_CTLS),
          pinbased_ctls = alter pin (pick IA32_VMX_TRUE_PINBASED_CTLS IA32_VMX_PINBASED_CTLS),
          procbased_ctls = alter pr (pick IA32_VMX_TRUE_PROCBASED_CTLS IA32_VMX_PROCBASED_CTLS),
          procbased2_ctls = alter pr2 (msr_id d IA32_VMX_PROCBASED_CTLS2)\<rparr>)"


text \<open>The fields and values written to the VMCS, in order: lines 234 to 261.\<close>

definition selector_mask :: u64 where "selector_mask = 0xFFFFFFF8"

definition host_state_writes :: "'v machine \<Rightarrow> u64 \<Rightarrow> regs \<Rightarrow> mem \<Rightarrow> (vmcs_field \<times> u64) list" where
  "host_state_writes M st r m =
     (let d = doc M; msr = \<lambda>n. r_msr r (msr_id d n)
      in [(Host VMCS_HOST_ES_SELECTOR, ucast (r_sel r ES) AND selector_mask),
          (Host VMCS_HOST_CS_SELECTOR, ucast (r_sel r CS) AND selector_mask),
          (Host VMCS_HOST_SS_SELECTOR, ucast (r_sel r SS) AND selector_mask),
          (Host VMCS_HOST_DS_SELECTOR, ucast (r_sel r DS) AND selector_mask),
          (Host VMCS_HOST_FS_SELECTOR, ucast (r_sel r FS) AND selector_mask),
          (Host VMCS_HOST_GS_SELECTOR, ucast (r_sel r GS) AND selector_mask),
          (Host VMCS_HOST_TR_SELECTOR, ucast (r_sel r TR) AND selector_mask),
          (Host VMCS_HOST_EFER, msr IA32_EFER),
          (Host VMCS_HOST_SYSENTER_CS, msr IA32_SYSENTER_CS),
          (Host VMCS_HOST_CR0, r_cr0 r),
          (Host VMCS_HOST_CR3, r_cr3 r),
          (Host VMCS_HOST_CR4, r_cr4 r),
          (Host VMCS_HOST_FS_BASE, msr IA32_FS_BASE),
          (Host VMCS_HOST_GS_BASE, msr IA32_GS_BASE),
          (Host VMCS_HOST_TR_BASE, get_segment_base d m (r_gdtr_base r) (r_sel r TR)),
          (Host VMCS_HOST_GDTR_BASE, r_gdtr_base r),
          (Host VMCS_HOST_IDTR_BASE, r_idtr_base r),
          (Host VMCS_HOST_SYSENTER_ESP, msr IA32_SYSENTER_ESP),
          (Host VMCS_HOST_SYSENTER_EIP, msr IA32_SYSENTER_EIP),
          (Host VMCS_HOST_RSP, st + off_host_stack d),
          (Host VMCS_HOST_RIP, host_entry_at M)])"

text \<open>Lines 263 to 282.\<close>

definition control_writes ::
    "'v machine \<Rightarrow> u64 \<Rightarrow> regs \<Rightarrow> u64 \<Rightarrow> vmx_controls \<Rightarrow> (vmcs_field \<times> u64) list" where
  "control_writes M st r ept_ptr c =
     (let d = doc M
      in [(Ctrl VMCS_CTRL_VIRTUAL_PROCESSOR_IDENTIFIER, 1),
          (Ctrl VMCS_CTRL_MSR_BITMAP_ADDRESS, st + off_msr_bitmap d),
          (Ctrl VMCS_CTRL_EPT_POINTER, ept_ptr),
          (Ctrl VMCS_CTRL_EXCEPTION_BITMAP, 0),
          (Ctrl VMCS_CTRL_PIN_BASED_VM_EXECUTION_CONTROLS, pinbased_ctls c),
          (Ctrl VMCS_CTRL_PROCESSOR_BASED_VM_EXECUTION_CONTROLS, procbased_ctls c),
          (Ctrl VMCS_CTRL_VMEXIT_CONTROLS, vmexit_ctls c),
          (Ctrl VMCS_CTRL_VMENTRY_CONTROLS, vmentry_ctls c),
          (Ctrl VMCS_CTRL_SECONDARY_PROCESSOR_BASED_VM_EXECUTION_CONTROLS, procbased2_ctls c),
          (Ctrl VMCS_CTRL_CR0_GUEST_HOST_MASK, cst d CR0_NUMERIC_ERROR_FLAG OR cst d CR0_PAGING_ENABLE_FLAG),
          (Ctrl VMCS_CTRL_CR0_READ_SHADOW, r_cr0 r),
          (Ctrl VMCS_CTRL_CR4_GUEST_HOST_MASK, cst d CR4_VMX_ENABLE_FLAG),
          (Ctrl VMCS_CTRL_CR4_READ_SHADOW, r_cr4 r)])"

text \<open>Lines 284 to 340.\<close>

definition guest_state_writes :: "'v machine \<Rightarrow> regs \<Rightarrow> mem \<Rightarrow> (vmcs_field \<times> u64) list" where
  "guest_state_writes M r m =
     (let d = doc M; x = isa M; msr = \<lambda>n. r_msr r (msr_id d n);
          base = \<lambda>s. get_segment_base d m (r_gdtr_base r) (r_sel r s);
          limit = \<lambda>s. ucast (get_segment_limit x (r_sel r s));
          rights = \<lambda>s. ucast (get_segment_access_rights_vmx d x (r_sel r s))
      in map (\<lambda>s. (Guest_seg s Selector, ucast (r_sel r s))) [ES, CS, SS, DS, FS, GS, LDTR, TR] @
         map (\<lambda>s. (Guest_seg s Base, base s)) [ES, CS, SS, DS] @
         [(Guest VMCS_GUEST_VMCS_LINK_POINTER, NOT 0), (Guest VMCS_GUEST_EFER, msr IA32_EFER)] @
         map (\<lambda>s. (Guest_seg s Limit, limit s)) [ES, CS, SS, DS, FS, GS, LDTR, TR] @
         [(Guest VMCS_GUEST_GDTR_LIMIT, ucast (r_gdtr_limit r)),
          (Guest VMCS_GUEST_IDTR_LIMIT, ucast (r_idtr_limit r))] @
         map (\<lambda>s. (Guest_seg s Access_rights, rights s)) [ES, CS, SS, DS, FS, GS, LDTR, TR] @
         [(Guest VMCS_GUEST_SYSENTER_CS, msr IA32_SYSENTER_CS),
          (Guest VMCS_GUEST_CR0, r_cr0 r),
          (Guest VMCS_GUEST_CR3, r_cr3 r),
          (Guest VMCS_GUEST_CR4, r_cr4 r),
          (Guest_seg FS Base, msr IA32_FS_BASE),
          (Guest_seg GS Base, msr IA32_GS_BASE),
          (Guest_seg LDTR Base, base LDTR),
          (Guest_seg TR Base, base TR),
          (Guest VMCS_GUEST_GDTR_BASE, r_gdtr_base r),
          (Guest VMCS_GUEST_IDTR_BASE, r_idtr_base r),
          (Guest VMCS_GUEST_RSP, r_rsp r),
          (Guest VMCS_GUEST_RIP, r_rip r),
          (Guest VMCS_GUEST_RFLAGS, r_rflags r),
          (Guest VMCS_GUEST_SYSENTER_ESP, msr IA32_SYSENTER_ESP),
          (Guest VMCS_GUEST_SYSENTER_EIP, msr IA32_SYSENTER_EIP)])"

definition write_vmcs :: "'v machine \<Rightarrow> (vmcs_field \<times> u64) list \<Rightarrow> 'v cpu_env \<Rightarrow> 'v cpu_env" where
  "write_vmcs M ws s = fold (\<lambda>(field, value). cpu_vmxwrite M field value) ws s"

text \<open>\<^verbatim>\<open>ept_init_core(state)\<close> on the state of the core.\<close>

definition run_ept_init :: "'v machine \<Rightarrow> u64 \<Rightarrow> 'v cpu_env \<Rightarrow> 'v cpu_env" where
  "run_ept_init M st s =
     (let d = doc M;
          e = ept_init_core d (mem_types M) (pages M)
                \<lparr>emem = cmem s, allocs = mallocs s, core_ept_ptr = 0, elog = []\<rparr>
      in s\<lparr>cmem := store64 (emem e) (st + off_ept d) (core_ept_ptr e), mallocs := allocs e,
           clog := clog s @ map Ept_log (elog e)\<rparr>)"

text \<open>Lines 344 to 382: the dump, the lookup of the page tables' own entries, the check and the launch.\<close>

definition check_and_launch :: "'v machine \<Rightarrow> 'v cpu_env \<Rightarrow> cpu_outcome \<times> 'v cpu_env" where
  "check_and_launch M s =
     (let d = doc M;
          s = cpu_dumpvmcs M s;
          (eptp, s) = cpu_vmxread M (Ctrl VMCS_CTRL_EPT_POINTER) s;
          s = (case ept_resolve_entries d (cmem s) eptp (r_cr3 (cregs s)) True True True True of
                 Inr en \<Rightarrow> say (Entries en (get_m d (Ept Epde_2mb Page_frame_number)
                                   (load64 (cmem s) (the (r_pd en))))) s
               | Inl e \<Rightarrow> s);
          s = (case cpu_vmxcheck d (cpu_vmxread_value M (vmx s)) of
                 Inr u \<Rightarrow> s | Inl msgs \<Rightarrow> say (Check_failed msgs) s)
      in case vmlaunch_op (ops M) (vmx s) of
           Guest_runs v \<Rightarrow> (Guest_entered, s\<lparr>vmx := v\<rparr>)
         | Launch_fails zf cf v \<Rightarrow>
             (let s = s\<lparr>vmx := v\<rparr>; status = vmx_error_tail zf cf
              in if status \<noteq> 0
                 then let s = say Launch_returned s
                      in if status = 1
                         then let (code, s) = cpu_vmxread M (Info VMCS_VM_INSTRUCTION_ERROR) s
                              in (Returned 0, say (Instruction_error code) s)
                         else (Returned 0, s)
                 else (Returned 0, say How_did_we_get_here s)))"

text \<open>
  Lines 223 to 383, the code after \<^verbatim>\<open>get_rip()\<close>. The guest starts at the address \<^verbatim>\<open>get_rip\<close>
  returned, so this part runs a second time inside the guest when the launch succeeds.
\<close>

definition configure_vmcs :: "'v machine \<Rightarrow> u64 \<Rightarrow> vmx_controls \<Rightarrow> 'v cpu_env \<Rightarrow> 'v cpu_env" where
  "configure_vmcs M st c s =
     (let d = doc M;
          s = (if load64 (cmem s) (st + off_status_code) = 1 then say Success s else s);
          s = s\<lparr>cmem := store64 (cmem s) (st + off_status_code) 1\<rparr>;
          s = run_ept_init M st s;
          s = write_vmcs M (host_state_writes M st (cregs s) (cmem s)) s;
          s = write_vmcs M (control_writes M st (cregs s) (load64 (cmem s) (st + off_ept d)) c) s
      in write_vmcs M (guest_state_writes M (cregs s) (cmem s)) s)"

definition cpu_init_from_rip :: "'v machine \<Rightarrow> u64 \<Rightarrow> vmx_controls \<Rightarrow> 'v cpu_env \<Rightarrow> cpu_outcome \<times> 'v cpu_env" where
  "cpu_init_from_rip M st c s = check_and_launch M (configure_vmcs M st c s)"

text \<open>Lines 121 to 151: everything before VMXON.\<close>

definition revision_id :: "ia32 \<Rightarrow> msr_file \<Rightarrow> u32" where
  "revision_id d msrs = ucast (get_m d (Cap Basic_vmcs_revision_id) (msrs (msr_id d IA32_VMX_BASIC)))"

definition prepare_vmxon :: "'v machine \<Rightarrow> u64 \<Rightarrow> 'v cpu_env \<Rightarrow> 'v cpu_env" where
  "prepare_vmxon M index s =
     (let d = doc M; a = cpu_state_at M index + off_vmxon;
          s = init_control_registers M (init_core_state M index s);
          m = cmem s;
          m = store32 m a (set_m d (Reg Vmxon_revision_id) (revision_id d (r_msr (cregs s))) (load32 m a));
          m = store32 m a (set_m d (Reg Vmxon_must_be_zero) 0 (load32 m a))
      in s\<lparr>cmem := m\<rparr>)"

text \<open>Lines 164 to 383: in root mode.\<close>

definition setup_vmcs :: "'v machine \<Rightarrow> u64 \<Rightarrow> 'v cpu_env \<Rightarrow> 'v cpu_env" where
  "setup_vmcs M st s =
     (let d = doc M; vmcs = st + off_vmcs d;
          s = s\<lparr>vmx := invept_op (ops M) (ept_invalidate_ept_cache d 0) (vmx s)\<rparr>;
          s = s\<lparr>vmx := invvpid_op (ops M) (ept_invalidate_vpid_cache d 0) (vmx s)\<rparr>;
          s = s\<lparr>cmem := store32 (cmem s) vmcs
                 (set_m d (Reg Vmcs_revision_id) (revision_id d (r_msr (cregs s))) (load32 (cmem s) vmcs))\<rparr>;
          ((zf, cf), v) = vmclear_op (ops M) (cmem s) vmcs (vmx s);
          s = s\<lparr>vmx := v\<rparr>
      in if vmx_error_tail zf cf \<noteq> 0 then say Vmcs_setup_failed s
         else let ((zf, cf), v) = vmptrld_op (ops M) (cmem s) vmcs (vmx s);
                  s = s\<lparr>vmx := v\<rparr>
              in if vmx_error_tail zf cf \<noteq> 0 then say Vmcs_setup_failed s else s)"

definition cpu_init :: "'v machine \<Rightarrow> u64 \<Rightarrow> 'v cpu_env \<Rightarrow> cpu_outcome \<times> 'v cpu_env" where
  "cpu_init M index s =
     (if index \<ge> cpu_max then (Bad_core_index index, s)
      else
        let d = doc M; st = cpu_state_at M index;
            s = prepare_vmxon M index s;
            ((zf, cf), v) = vmxon_op (ops M) (cmem s) (st + off_vmxon) (vmx s);
            s = s\<lparr>vmx := v\<rparr>
        in if vmx_error_tail zf cf \<noteq> 0 then (Returned 1, say Vmxon_failed s)
           else let s = setup_vmcs M st s
                in cpu_init_from_rip M st (init_controls d (r_msr (cregs s))) s)"

section \<open>Control values\<close>

text \<open>The SDM's rule for a control word: bits of the low half of the capability register must be 1,
  bits clear in its high half must be 0.\<close>

definition legal_control :: "u64 \<Rightarrow> u64 \<Rightarrow> bool" where
  "legal_control cap v \<longleftrightarrow>
     (\<forall>i < 64. (i < 32 \<and> bit cap i \<longrightarrow> bit v i) \<and> (bit v i \<longrightarrow> i < 32 \<and> bit cap (32 + i)))"

definition capability :: "u64 \<Rightarrow> bool" where
  "capability cap \<longleftrightarrow> (\<forall>i < 32. bit cap i \<longrightarrow> bit cap (32 + i))"

definition control_layout :: "ia32 \<Rightarrow> bool" where
  "control_layout d \<longleftrightarrow> fld d (Cap True_allowed_0_settings) = (0, 32) \<and> fld d (Cap True_allowed_1_settings) = (32, 32)"

lemma bit_alter_vmx:
  assumes "control_layout d"
  shows "bit (cpu_alter_vmx_control_register d msrs v msr) i \<longleftrightarrow>
    i < 32 \<and> (bit v i \<and> bit (msrs msr) (32 + i) \<or> bit (msrs msr) i)"
  using assms by (auto simp: cpu_alter_vmx_control_register_def Let_def control_layout_def bit_or_iff bit_and_iff bit_bf_get)

lemma alter_vmx_legal:
  assumes "control_layout d" "capability (msrs msr)"
  shows "legal_control (msrs msr) (cpu_alter_vmx_control_register d msrs v msr)"
  using assms(2) by (auto simp: legal_control_def capability_def bit_alter_vmx[OF assms(1)])

lemma bit_alter_cr:
  "bit (cpu_alter_control_register msrs v id0 id1) i \<longleftrightarrow>
     i < 32 \<and> (bit v i \<and> bit (msrs id1) i \<or> bit (msrs id0) i)"
  by (auto simp: cpu_alter_control_register_def Let_def bit_or_iff bit_and_iff bit_ucast_iff bit_simps)

lemma and_not_0: "a AND NOT b = 0 \<longleftrightarrow> (\<forall>i. bit a i \<longrightarrow> bit b i)" for a b :: u64
proof
  assume "a AND NOT b = 0"
  then have n: "\<not> bit (a AND NOT b) i" for i by simp
  show "\<forall>i. bit a i \<longrightarrow> bit b i"
  proof (intro allI impI)
    fix i assume "bit a i"
    then show "bit b i" using n[of i] bit_imp_possible_bit[of a i] by (simp add: bit_and_iff bit_not_iff)
  qed
next
  assume "\<forall>i. bit a i \<longrightarrow> bit b i"
  then show "a AND NOT b = 0" by (intro bit_word_eqI) (simp add: bit_and_iff bit_not_iff)
qed

section \<open>VMCS contents\<close>

definition field_width :: "u64 \<Rightarrow> nat" where
  "field_width e = (let w = take_bit 2 (drop_bit 13 e) in if w = 0 then 16 else if w = 2 then 32 else 64)"

text \<open>
  VMREAD and VMWRITE while a VMCS is current (\<open>cur\<close>) on a processor with all the fields: a write
  succeeds, keeps the VMCS current, is seen by a read of the same field at the field's width, and
  leaves the other fields alone.
\<close>

definition vmcs_laws :: "'v vmx_ops \<Rightarrow> ('v \<Rightarrow> bool) \<Rightarrow> bool" where
  "vmcs_laws vo cur \<longleftrightarrow>
     (\<forall>e v st. cur st \<longrightarrow>
        (case vmwrite_op vo e v st of (flags, st') \<Rightarrow>
           flags = (False, False) \<and> cur st' \<and>
           vmread_op vo e st' = ((False, False), take_bit (field_width e) v) \<and>
           (\<forall>e'. e' \<noteq> e \<longrightarrow> vmread_op vo e' st' = vmread_op vo e' st)))"

definition vmcs_image :: "'v machine \<Rightarrow> u64 \<Rightarrow> regs \<Rightarrow> mem \<Rightarrow> vmx_controls \<Rightarrow> (vmcs_field \<times> u64) list" where
  "vmcs_image M st r m c =
     host_state_writes M st r m @ control_writes M st r (load64 m (st + off_ept (doc M))) c @
     guest_state_writes M r m"

lemma vmcs_lawsD:
  assumes "vmcs_laws vo cur" "cur st" "vmwrite_op vo e v st = (fl, st')"
  shows "fl = (False, False)" "cur st'" "vmread_op vo e st' = ((False, False), take_bit (field_width e) v)"
    "e' \<noteq> e \<Longrightarrow> vmread_op vo e' st' = vmread_op vo e' st"
proof -
  have "case vmwrite_op vo e v st of (flags, st') \<Rightarrow>
           flags = (False, False) \<and> cur st' \<and>
           vmread_op vo e st' = ((False, False), take_bit (field_width e) v) \<and>
           (\<forall>e'. e' \<noteq> e \<longrightarrow> vmread_op vo e' st' = vmread_op vo e' st)"
    by (rule assms(1)[unfolded vmcs_laws_def, THEN spec[of _ e], THEN spec[of _ v], THEN spec[of _ st],
          THEN mp, OF assms(2)])
  then show "fl = (False, False)" "cur st'" "vmread_op vo e st' = ((False, False), take_bit (field_width e) v)"
    "e' \<noteq> e \<Longrightarrow> vmread_op vo e' st' = vmread_op vo e' st"
    unfolding assms(3) prod.case by blast+
qed

lemma vmxwrite_ok:
  assumes "vmcs_laws (ops M) cur" "cur (vmx s)" "vmcs_encodings (doc M)"
  obtains v where "cpu_vmxwrite M f w s = s\<lparr>vmx := v\<rparr>" "cur v"
    and "\<And>g. cpu_vmxread_value M v g =
               (if g = f then take_bit (field_width (vmcs_enc (doc M) f)) w
                else cpu_vmxread_value M (vmx s) g)"
proof -
  obtain fl v where v: "vmwrite_op (ops M) (vmcs_enc (doc M) f) w (vmx s) = (fl, v)"
    by (cases "vmwrite_op (ops M) (vmcs_enc (doc M) f) w (vmx s)")
  note l = vmcs_lawsD[OF assms(1,2) v]
  have inj: "vmcs_enc (doc M) g = vmcs_enc (doc M) f \<longleftrightarrow> g = f" for g
    using assms(3) by (auto simp: vmcs_encodings_def inj_def)
  show ?thesis
    by (rule that[of v]) (use l v inj in \<open>auto simp: cpu_vmxwrite_def vmx_error_tail_def cpu_vmxread_value_def Let_def\<close>)
qed

lemma write_vmcs_ok:
  assumes "vmcs_laws (ops M) cur" "cur (vmx s)" "vmcs_encodings (doc M)"
  shows "\<exists>v. write_vmcs M ws s = s\<lparr>vmx := v\<rparr> \<and> cur v \<and>
     (distinct (map fst ws) \<longrightarrow>
        (\<forall>g. cpu_vmxread_value M v g =
           (case map_of ws g of Some w \<Rightarrow> take_bit (field_width (vmcs_enc (doc M) g)) w
            | None \<Rightarrow> cpu_vmxread_value M (vmx s) g)))"
  using assms(2)
proof (induction ws arbitrary: s)
  case Nil
  then show ?case by (intro exI[of _ "vmx s"]) (simp add: write_vmcs_def)
next
  case (Cons x ws)
  obtain f w where x: "x = (f, w)" by (cases x)
  obtain v1 where v1: "cpu_vmxwrite M f w s = s\<lparr>vmx := v1\<rparr>" "cur v1"
    "\<And>g. cpu_vmxread_value M v1 g = (if g = f then take_bit (field_width (vmcs_enc (doc M) f)) w
                else cpu_vmxread_value M (vmx s) g)"
    using vmxwrite_ok[OF assms(1) Cons.prems assms(3), of f w] by blast
  have "cur (vmx (s\<lparr>vmx := v1\<rparr>))" using v1(2) by simp
  from Cons.IH[OF this] obtain v where "write_vmcs M ws (s\<lparr>vmx := v1\<rparr>) = s\<lparr>vmx := v1, vmx := v\<rparr>" and v: "cur v"
    "distinct (map fst ws) \<Longrightarrow> \<forall>g. cpu_vmxread_value M v g =
           (case map_of ws g of Some w \<Rightarrow> take_bit (field_width (vmcs_enc (doc M) g)) w
            | None \<Rightarrow> cpu_vmxread_value M (vmx (s\<lparr>vmx := v1\<rparr>)) g)"
    by blast
  then have w: "write_vmcs M ws (s\<lparr>vmx := v1\<rparr>) = s\<lparr>vmx := v\<rparr>" by simp
  have "map_of ws f = None" if "f \<notin> fst ` set ws" using that by (simp add: map_of_eq_None_iff)
  then show ?case
    using v w v1 x by (intro exI[of _ v]) (auto simp: write_vmcs_def split: option.splits)
qed

lemma write_vmcs_append: "write_vmcs M (xs @ ys) s = write_vmcs M ys (write_vmcs M xs s)"
  by (simp add: write_vmcs_def)

lemma image_fields: "distinct (map fst (vmcs_image M st r m c))"
  by (simp add: vmcs_image_def host_state_writes_def control_writes_def guest_state_writes_def Let_def)


text \<open>What the writes leave: the state before them, with the fields of the image set.\<close>

definition before_writes :: "'v machine \<Rightarrow> u64 \<Rightarrow> 'v cpu_env \<Rightarrow> 'v cpu_env" where
  "before_writes M st s =
     run_ept_init M st
       ((if load64 (cmem s) (st + off_status_code) = 1 then say Success s else s)
          \<lparr>cmem := store64 (cmem s) (st + off_status_code) 1\<rparr>)"

lemma run_ept_init_simps [simp]: "cregs (run_ept_init M st s) = cregs s" "vmx (run_ept_init M st s) = vmx s"
  by (simp_all add: run_ept_init_def Let_def)

lemma say_simps [simp]:
  "cregs (say e s) = cregs s" "vmx (say e s) = vmx s" "cmem (say e s) = cmem s" "mallocs (say e s) = mallocs s"
  "clog (say e s) = clog s @ [e]"
  by (simp_all add: say_def)

lemma before_writes_simps [simp]: "cregs (before_writes M st s) = cregs s" "vmx (before_writes M st s) = vmx s"
  by (simp_all add: before_writes_def)

lemma configure_vmcs_image:
  assumes "vmcs_laws (ops M) cur" "cur (vmx s)" "vmcs_encodings (doc M)"
  shows "configure_vmcs M st c s =
     write_vmcs M (vmcs_image M st (cregs s) (cmem (before_writes M st s)) c) (before_writes M st s)"
proof -
  let ?b = "before_writes M st s"
  have b: "cur (vmx ?b)" using assms(2) by simp
  obtain v1 where v1: "write_vmcs M (host_state_writes M st (cregs ?b) (cmem ?b)) ?b = ?b\<lparr>vmx := v1\<rparr>" "cur v1"
    using write_vmcs_ok[OF assms(1) b assms(3)] by blast
  have b1: "cur (vmx (?b\<lparr>vmx := v1\<rparr>))" using v1 by simp
  obtain v2 where v2: "write_vmcs M (control_writes M st (cregs ?b) (load64 (cmem ?b) (st + off_ept (doc M))) c)
      (?b\<lparr>vmx := v1\<rparr>) = ?b\<lparr>vmx := v2\<rparr>"
    using write_vmcs_ok[OF assms(1) b1 assms(3)] by fastforce
  have "configure_vmcs M st c s = write_vmcs M (guest_state_writes M (cregs ?b) (cmem ?b)) (?b\<lparr>vmx := v2\<rparr>)"
    unfolding configure_vmcs_def Let_def before_writes_def[symmetric] if_distrib[where f = cmem] say_simps if_cancel
    by (simp add: v1 v2 del: before_writes_simps)
  then show ?thesis
    by (simp add: vmcs_image_def write_vmcs_append v1[simplified] v2[simplified])
qed

lemma configure_vmcs_reads:
  assumes "vmcs_laws (ops M) cur" "cur (vmx s)" "vmcs_encodings (doc M)"
  shows "cpu_vmxread_value M (vmx (configure_vmcs M st c s)) f =
     (case map_of (vmcs_image M st (cregs s) (cmem (before_writes M st s)) c) f of
        Some w \<Rightarrow> take_bit (field_width (vmcs_enc (doc M) f)) w
      | None \<Rightarrow> cpu_vmxread_value M (vmx s) f)"
proof -
  let ?ws = "vmcs_image M st (cregs s) (cmem (before_writes M st s)) c"
  have "cur (vmx (before_writes M st s))" using assms(2) by simp
  from write_vmcs_ok[OF assms(1) this assms(3), of ?ws] obtain v where
    "write_vmcs M ?ws (before_writes M st s) = (before_writes M st s)\<lparr>vmx := v\<rparr>"
    "\<forall>g. cpu_vmxread_value M v g = (case map_of ?ws g of Some w \<Rightarrow> take_bit (field_width (vmcs_enc (doc M) g)) w
            | None \<Rightarrow> cpu_vmxread_value M (vmx (before_writes M st s)) g)"
    using image_fields by blast
  then show ?thesis unfolding configure_vmcs_image[OF assms] by (simp split: option.splits)
qed

section \<open>Properties\<close>

text \<open>
  C31. Every one of the five control words that the VMCS gets is legal for the capability register the
  code consults (the true one when the processor has it), whenever those registers are consistent.
\<close>

theorem vmx_controls_legal:
  assumes "control_layout d"
    and "\<forall>n \<in> {IA32_VMX_TRUE_EXIT_CTLS, IA32_VMX_EXIT_CTLS, IA32_VMX_TRUE_ENTRY_CTLS, IA32_VMX_ENTRY_CTLS,
           IA32_VMX_TRUE_PINBASED_CTLS, IA32_VMX_PINBASED_CTLS, IA32_VMX_TRUE_PROCBASED_CTLS,
           IA32_VMX_PROCBASED_CTLS, IA32_VMX_PROCBASED_CTLS2}. capability (msrs (msr_id d n))"
  defines "true_ctls \<equiv> get_m d (Cap Basic_vmx_controls) (msrs (msr_id d IA32_VMX_BASIC)) \<noteq> 0"
    and "cap \<equiv> (\<lambda>n. msrs (msr_id d n))"
  shows "legal_control (cap (if true_ctls then IA32_VMX_TRUE_EXIT_CTLS else IA32_VMX_EXIT_CTLS))
           (vmexit_ctls (init_controls d msrs))
       \<and> legal_control (cap (if true_ctls then IA32_VMX_TRUE_ENTRY_CTLS else IA32_VMX_ENTRY_CTLS))
           (vmentry_ctls (init_controls d msrs))
       \<and> legal_control (cap (if true_ctls then IA32_VMX_TRUE_PINBASED_CTLS else IA32_VMX_PINBASED_CTLS))
           (pinbased_ctls (init_controls d msrs))
       \<and> legal_control (cap (if true_ctls then IA32_VMX_TRUE_PROCBASED_CTLS else IA32_VMX_PROCBASED_CTLS))
           (procbased_ctls (init_controls d msrs))
       \<and> legal_control (cap IA32_VMX_PROCBASED_CTLS2) (procbased2_ctls (init_controls d msrs))"
proof -
  have l: "legal_control (msrs (msr_id d n)) (cpu_alter_vmx_control_register d msrs v (msr_id d n))"
    if "n \<in> {IA32_VMX_TRUE_EXIT_CTLS, IA32_VMX_EXIT_CTLS, IA32_VMX_TRUE_ENTRY_CTLS, IA32_VMX_ENTRY_CTLS,
           IA32_VMX_TRUE_PINBASED_CTLS, IA32_VMX_PINBASED_CTLS, IA32_VMX_TRUE_PROCBASED_CTLS,
           IA32_VMX_PROCBASED_CTLS, IA32_VMX_PROCBASED_CTLS2}" for n v
    using assms(2) that by (intro alter_vmx_legal[OF assms(1)]) blast
  show ?thesis
    unfolding init_controls_def Let_def vmx_controls.simps cap_def true_ctls_def
    by (intro conjI; rule l; simp)
qed

text \<open>
  C35. After the control registers are set up, CR0 and CR4 have every bit the fixed registers demand
  and none they forbid, CR4.VMXE is on when the processor allows it, and the upper halves of both
  registers are zero: the fixed registers are read as 32 bit values, so bits 63 to 32 of the old
  values are lost.
\<close>

theorem control_registers_vmx_ready:
  assumes "fld (doc M) (Reg Cr4_vmx_enable) = (13, 1)"
    and "\<forall>n \<in> {IA32_VMX_CR0_FIXED0, IA32_VMX_CR4_FIXED0}. take_bit 32 (r_msr (cregs s) (msr_id (doc M) n)) =
           r_msr (cregs s) (msr_id (doc M) n)"
    and "\<forall>(n, k) \<in> {(IA32_VMX_CR0_FIXED0, IA32_VMX_CR0_FIXED1), (IA32_VMX_CR4_FIXED0, IA32_VMX_CR4_FIXED1)}.
           r_msr (cregs s) (msr_id (doc M) n) AND NOT (r_msr (cregs s) (msr_id (doc M) k)) = 0"
    and "bit (r_msr (cregs s) (msr_id (doc M) IA32_VMX_CR4_FIXED1)) 13"
  defines "r \<equiv> cregs (init_control_registers M s)"
    and "msr \<equiv> (\<lambda>n. r_msr (cregs s) (msr_id (doc M) n))"
  shows "msr IA32_VMX_CR0_FIXED0 AND NOT (r_cr0 r) = 0 \<and> r_cr0 r AND NOT (msr IA32_VMX_CR0_FIXED1) = 0
       \<and> msr IA32_VMX_CR4_FIXED0 AND NOT (r_cr4 r) = 0 \<and> r_cr4 r AND NOT (msr IA32_VMX_CR4_FIXED1) = 0
       \<and> bit (r_cr4 r) 13 \<and> drop_bit 32 (r_cr0 r) = 0 \<and> drop_bit 32 (r_cr4 r) = 0"
proof -
  have lo: "bit (msr n) i \<Longrightarrow> i < 32" if "n \<in> {IA32_VMX_CR0_FIXED0, IA32_VMX_CR4_FIXED0}" for n i
    using assms(2) that unfolding msr_def by (metis bit_take_bit_iff)
  have sub: "bit (msr IA32_VMX_CR0_FIXED0) i \<Longrightarrow> bit (msr IA32_VMX_CR0_FIXED1) i"
            "bit (msr IA32_VMX_CR4_FIXED0) i \<Longrightarrow> bit (msr IA32_VMX_CR4_FIXED1) i" for i
    using assms(3) unfolding msr_def by (auto simp: and_not_0)
  have r: "r_cr0 r = cpu_alter_control_register (r_msr (cregs s)) (r_cr0 (cregs s))
             (msr_id (doc M) IA32_VMX_CR0_FIXED0) (msr_id (doc M) IA32_VMX_CR0_FIXED1)"
          "r_cr4 r = cpu_alter_control_register (r_msr (cregs s)) (bf_set (13, 1) 1 (r_cr4 (cregs s)))
             (msr_id (doc M) IA32_VMX_CR4_FIXED0) (msr_id (doc M) IA32_VMX_CR4_FIXED1)"
    by (simp_all add: r_def init_control_registers_def Let_def assms(1))
  have b: "bit (r_cr0 r) i \<longleftrightarrow> i < 32 \<and> (bit (r_cr0 (cregs s)) i \<and> bit (msr IA32_VMX_CR0_FIXED1) i \<or>
             bit (msr IA32_VMX_CR0_FIXED0) i)"
          "bit (r_cr4 r) i \<longleftrightarrow> i < 32 \<and> ((i = 13 \<or> bit (r_cr4 (cregs s)) i) \<and>
             bit (msr IA32_VMX_CR4_FIXED1) i \<or> bit (msr IA32_VMX_CR4_FIXED0) i)" for i
    unfolding r bit_alter_cr msr_def bit_set_1 by auto
  have "bit (msr IA32_VMX_CR4_FIXED1) 13" using assms(4) by (simp add: msr_def)
  moreover have "drop_bit 32 (r_cr0 r) = 0" "drop_bit 32 (r_cr4 r) = 0"
    by (rule bit_word_eqI; simp add: bit_drop_bit_eq b)+
  ultimately show ?thesis
    unfolding and_not_0 b using lo sub by auto
qed





section \<open>Witnesses\<close>

text \<open>A processor whose VMCS is a plain map of the fields and whose guests never start.\<close>

definition map_vmx :: "(u64 \<Rightarrow> u64) vmx_ops" where
  "map_vmx =
     \<lparr>vmxon_op = (\<lambda>_ _ v. ((False, True), v)), vmclear_op = (\<lambda>_ _ v. ((False, False), v)),
      vmptrld_op = (\<lambda>_ _ v. ((False, False), v)), invept_op = (\<lambda>_ v. v), invvpid_op = (\<lambda>_ v. v),
      vmwrite_op = (\<lambda>e w v. ((False, False), v(e := take_bit (field_width e) w))),
      vmread_op = (\<lambda>e v. ((False, False), v e)),
      vmlaunch_op = (\<lambda>v. Launch_fails True False v)\<rparr>"

lemma map_vmx_laws: "vmcs_laws map_vmx (\<lambda>_. True)"
  by (simp add: vmcs_laws_def map_vmx_def)

definition sample_msr_values :: msr_file where
  "sample_msr_values m =
     (if m = 0x486 then 0x80000021 else if m = 0x487 then 0xFFFFFFFF
      else if m = 0x488 then 0x2000 else if m = 0x489 then 0x3767FF
      else 0xFFFFFFFF00000016)"

definition sample_regs :: regs where
  "sample_regs =
     \<lparr>r_cr0 = 0x80000013, r_cr3 = 0x1000, r_cr4 = 0x668, r_sel = (\<lambda>_. 0), r_rflags = 0x202,
      r_gdtr_base = 0x8000, r_gdtr_limit = 0x47, r_idtr_base = 0x9000, r_idtr_limit = 0xFFF,
      r_rsp = 0x7000, r_rip = 0x10FF0, r_msr = sample_msr_values\<rparr>"

definition sample_machine :: "(u64 \<Rightarrow> u64) machine" where
  "sample_machine =
     \<lparr>doc = sdm, isa = sample_x86, ops = map_vmx, pages = sample_pages, mem_types = sample_types_fn,
      cpu_states_at = 0x10000000, host_entry_at = 0x20000\<rparr>"

definition sample_cpu :: "(u64 \<Rightarrow> u64) cpu_env" where
  "sample_cpu = \<lparr>cmem = (\<lambda>a. if a = 0x10000000 then 1 else 0), cregs = sample_regs, vmx = (\<lambda>_. 0),
                 mallocs = 0, clog = []\<rparr>"

lemma sample_capability: "capability 0xFFFFFFFF00000016"
proof -
  have "(0xFFFFFFFF00000016 :: u64) = push_bit 32 (mask 32) OR 0x16"
    by (simp add: mask_numeral push_bit_eq_mult)
  then have "bit (0xFFFFFFFF00000016 :: u64) (32 + i)" if "i < 32" for i
    using that by (simp only: bit_or_iff bit_push_bit_iff bit_mask_iff) simp
  then show ?thesis by (simp add: capability_def)
qed

theorem vmx_controls_legal_witness:
  "legal_control 0xFFFFFFFF00000016 (procbased2_ctls (init_controls sdm sample_msr_values))"
  using vmx_controls_legal[of sdm sample_msr_values] sample_capability
  by (simp add: control_layout_def sample_msr_values_def)

theorem control_registers_vmx_ready_witness:
  "bit (r_cr4 (cregs (init_control_registers sample_machine sample_cpu))) 13"
  using control_registers_vmx_ready[of sample_machine sample_cpu]
  by (simp add: sample_machine_def sample_cpu_def sample_regs_def sample_msr_values_def)




end
