(* ===== verification/Visor.thy ===== *)
theory Visor
  imports Cpu
begin

text \<open>
  The entry points around \<open>cpu_init\<close>: \<^verbatim>\<open>hypervisor/main.cc\<close>, the VM exit handler of
  \<^verbatim>\<open>hypervisor/host.cc\<close> with the register saves of \<^verbatim>\<open>host.S\<close> and \<^verbatim>\<open>freestanding/macros.S\<close>, and the
  loader service \<^verbatim>\<open>ldr_call_on_all_cores\<close> of \<^verbatim>\<open>loader/efi/mp.cc\<close>.
\<close>

section \<open>hypervisor/main.cc\<close>

definition cpuid_vmx :: "u32 \<times> u32 \<times> u32 \<times> u32 \<Rightarrow> bool" where
  "cpuid_vmx r = (case r of (eax, ebx, ecx, edx) \<Rightarrow> bit ecx 5)"

text \<open>
  The members of the two capability registers and of the feature control register are changed in
  local copies only: the writes back are comments. \<open>ecx_in\<close> is the uninitialised sub-leaf.
\<close>

definition visor_is_vmx_supported :: "ia32 \<Rightarrow> x86 \<Rightarrow> msr_file \<Rightarrow> u32 \<Rightarrow> bool \<times> msr_file" where
  "visor_is_vmx_supported d x msrs ecx_in =
     (if \<not> cpuid_vmx (i_cpuid x (ucast (cst d CPUID_VERSION_INFORMATION)) ecx_in) then (False, msrs)
      else
        let vmx_basic = msrs (msr_id d IA32_VMX_BASIC);
            feature_control = msrs (msr_id d IA32_FEATURE_CONTROL);
            (vmx_basic, feature_control) =
              (if get_m d (Cap Basic_memory_type) vmx_basic \<noteq> cst d MEMORY_TYPE_WRITE_BACK \<or>
                  get_m d (Cap Feature_lock_bit) feature_control = 0 \<or>
                  get_m d (Cap Feature_enable_vmx_outside_smx) feature_control = 0
               then (set_m d (Cap Basic_memory_type) (cst d MEMORY_TYPE_WRITE_BACK) vmx_basic,
                     set_m d (Cap Feature_enable_vmx_outside_smx) 1
                       (set_m d (Cap Feature_lock_bit) 1 feature_control))
               else (vmx_basic, feature_control));
            needed = [Cap_page_walk_length_4, Cap_memory_type_write_back, Cap_invept,
                      Cap_invept_single_context, Cap_invept_all_contexts, Cap_invvpid,
                      Cap_invvpid_individual_address, Cap_invvpid_single_context,
                      Cap_invvpid_all_contexts, Cap_invvpid_single_context_retain_globals];
            ept_cap = msrs (msr_id d IA32_VMX_EPT_VPID_CAP);
            ept_cap = (if list_ex (\<lambda>c. get_m d (Cap c) ept_cap = 0) needed
                       then fold (\<lambda>c v. set_m d (Cap c) 1 v) needed ept_cap else ept_cap)
        in (True, msrs))"

definition visor_init_core :: "'v machine \<Rightarrow> u32 \<Rightarrow> u64 \<Rightarrow> 'v cpu_env \<Rightarrow> cpu_outcome option \<times> 'v cpu_env" where
  "visor_init_core M ecx_in whoami s =
     (case visor_is_vmx_supported (doc M) (isa M) (r_msr (cregs s)) ecx_in of
        (supported, msrs) \<Rightarrow>
          if \<not> supported then (None, s)
          else case cpu_init M whoami s of (out, s) \<Rightarrow> (Some out, s))"

text \<open>
  \<^verbatim>\<open>efi_mp_call_on_all_cores\<close>: the callback runs on the calling core; both paths return before
  the call of \<^verbatim>\<open>startup_all_aps\<close>.
\<close>

definition efi_mp_call_on_all_cores :: "('s \<Rightarrow> 'r \<times> 's) \<Rightarrow> u64 \<Rightarrow> 's \<Rightarrow> 'r list \<times> 's" where
  "efi_mp_call_on_all_cores proc core_count s =
     (case proc s of (r, s) \<Rightarrow> if core_count = 1 then ([r], s) else ([r], s))"

datatype visor_error = Mtrr_error mtrr_error

definition visor_init ::
    "'v machine \<Rightarrow> u32 \<Rightarrow> u64 \<Rightarrow> u64 \<Rightarrow> 'v cpu_env \<Rightarrow> visor_error + u64 \<times> cpu_outcome option list \<times> 'v cpu_env" where
  "visor_init M ecx_in whoami core_count s =
     (case ept_init_mtrr (doc M) (isa M) (r_msr (cregs s)) of
        Inl e \<Rightarrow> Inl (Mtrr_error e)
      | Inr mtrrs \<Rightarrow>
          let M = M\<lparr>mem_types := ept_get_memory_type (doc M) mtrrs\<rparr>
          in case efi_mp_call_on_all_cores (visor_init_core M ecx_in whoami) core_count s of
               (outs, s) \<Rightarrow> Inr (0, outs, s))"

definition visor_main ::
    "'v machine \<Rightarrow> u32 \<Rightarrow> u64 \<Rightarrow> u64 \<Rightarrow> 'v cpu_env \<Rightarrow> visor_error + u64 \<times> cpu_outcome option list \<times> 'v cpu_env" where
  "visor_main M ecx_in whoami core_count s = visor_init M ecx_in whoami core_count s"

section \<open>hypervisor/host.S and host.cc\<close>

definition push64 :: "u64 \<Rightarrow> mem \<times> u64 \<Rightarrow> mem \<times> u64" where
  "push64 v ms = (case ms of (m, rsp) \<Rightarrow> (store64 m (rsp - 8) v, rsp - 8))"

text \<open>The entry point up to the call: fifteen registers, 32 bytes of home space, the return address.\<close>

definition host_hv_entrypoint :: "u64 list \<Rightarrow> u64 \<Rightarrow> mem \<times> u64 \<Rightarrow> mem \<times> u64" where
  "host_hv_entrypoint gp_regs return_address ms =
     (case fold push64 gp_regs ms of (m, rsp) \<Rightarrow> push64 return_address (m, rsp - 0x20))"

definition host_vmexit :: "'v machine \<Rightarrow> 'v cpu_env \<Rightarrow> 'v cpu_env" where
  "host_vmexit M s =
     (let d = doc M;
          (reason, s) = cpu_vmxread M (Info VMCS_EXIT_REASON) s;
          basic = get_m d (Reg Reason_basic_exit_reason) reason;
          s = say (Exit_reason basic) s;
          s = (if get_m d (Reg Reason_vm_entry_failure) reason \<noteq> 0
               then let (q, s) = cpu_vmxread M (Info VMCS_EXIT_QUALIFICATION) s;
                        (i, s) = cpu_vmxread M (Info VMCS_VMEXIT_INSTRUCTION_INFO) s;
                        (c, s) = cpu_vmxread M (Info VMCS_VMEXIT_INTERRUPTION_ERROR_CODE) s
                    in say (Vm_entry_failure q i c) s
               else s);
          s = (if basic = cst d VMX_EXIT_REASON_EPT_MISCONFIGURATION
               then let (q, s) = cpu_vmxread M (Info VMCS_EXIT_QUALIFICATION) s;
                        (failed_address, s) = cpu_vmxread M (Info VMCS_EXIT_GUEST_LINEAR_ADDRESS) s;
                        (eptp, s) = cpu_vmxread M (Ctrl VMCS_CTRL_EPT_POINTER) s;
                        entries = ept_resolve_entries d (cmem s) eptp failed_address True True True True
                    in say (Ept_misconfigured failed_address) s
               else s)
      in case cpu_vmxcheck d (cpu_vmxread_value M (vmx s)) of
           Inr u \<Rightarrow> s | Inl msgs \<Rightarrow> say (Check_failed msgs) s)"


section \<open>The stack of the exit handler\<close>

text \<open>Distance of a byte below the stack pointer; pushes reach exactly the bytes at distance below
  eight times their number.\<close>

lemma push64_outside:
  assumes "8 \<le> unat (rsp - 1 - b)"
  shows "fst (push64 v (m, rsp)) b = m b"
proof -
  define x where "x = rsp - 1 - b"
  have e: "b - (rsp - 8) = 7 - x" by (simp add: x_def)
  have x: "8 \<le> unat x" using assms by (simp only: x_def)
  then have "unat (7 - x) = 7 + 2 ^ 64 - unat x"
    using unat_sub_if_size[of 7 x] by (simp add: word_size)
  then have "8 \<le> unat (b - (rsp - 8))"
    unfolding e using unat_lt64[of x] by linarith
  then show ?thesis by (simp add: push64_def store64_def store_bytes_def)
qed

lemma pushes_outside:
  assumes "8 * length vs < 2 ^ 32"
  shows "snd (fold push64 vs (m, rsp)) = rsp - of_nat (8 * length vs)
     \<and> (8 * length vs \<le> unat (rsp - 1 - b) \<longrightarrow> fst (fold push64 vs (m, rsp)) b = m b)"
  using assms
proof (induction vs arbitrary: m rsp)
  case (Cons v vs)
  have p: "push64 v (m, rsp) = (fst (push64 v (m, rsp)), rsp - 8)" by (simp add: push64_def)
  have IH: "snd (fold push64 vs (m', rsp - 8)) = rsp - 8 - of_nat (8 * length vs)
     \<and> (8 * length vs \<le> unat (rsp - 8 - 1 - b) \<longrightarrow> fst (fold push64 vs (m', rsp - 8)) b = m' b)" for m'
    using Cons.IH[of m' "rsp - 8"] Cons.prems by simp
  have "unat (rsp - 8 - 1 - b) = unat (rsp - 1 - b) - 8" if "8 \<le> unat (rsp - 1 - b)"
  proof -
    have "rsp - 8 - 1 - b = (rsp - 1 - b) - 8" by simp
    then show ?thesis using that unat_sub_if_size[of "rsp - 1 - b" 8] by (simp only:) (simp add: word_size)
  qed
  then have "8 * length (v # vs) \<le> unat (rsp - 1 - b) \<longrightarrow>
      fst (fold push64 (v # vs) (m, rsp)) b = m b"
    using IH[of "fst (push64 v (m, rsp))"] push64_outside[of rsp b v m] p by (auto simp del: One_nat_def)
  moreover have "snd (fold push64 (v # vs) (m, rsp)) = rsp - of_nat (8 * length (v # vs))"
    using IH[of "fst (push64 v (m, rsp))"] p by (simp add: algebra_simps)
  ultimately show ?case by blast
qed simp

definition struct_sizes :: "ia32 \<Rightarrow> bool" where
  "struct_sizes d \<longleftrightarrow> size_of d Vmxon_struct = 4096 \<and> size_of d Vmcs_struct = 4096 \<and>
     size_of d Vmx_msr_bitmap_struct = 4096"

lemma host_stack_above_bitmap:
  "struct_sizes d \<Longrightarrow> off_host_stack d = off_msr_bitmap d + 0x1000"
  by (simp add: struct_sizes_def cpu_state_layout align_page_def mask_numeral)


text \<open>A word at or above the stack pointer survives the pushes.\<close>

lemma far_above:
  assumes "i < 8" "k < 2 ^ 32"
  shows "2 ^ 32 \<le> unat (a - of_nat k - 1 - (a + of_nat i) :: u64)"
proof -
  have e: "a - of_nat k - 1 - (a + of_nat i) = - of_nat (Suc (k + i))" by simp
  have u: "unat (of_nat (Suc (k + i)) :: u64) = Suc (k + i)" using assms by (intro unat_of_nat_small) simp
  then have "(of_nat (Suc (k + i)) :: u64) \<noteq> 0" by (metis Zero_not_Suc unat_0)
  from unat_uminus[OF this] show ?thesis unfolding e u using assms by simp
qed

lemma pushes_keep_word:
  assumes "8 * length vs < 2 ^ 32"
  shows "load64 (fst (fold push64 vs (m, a))) a = load64 m a"
proof (rule load64_cong)
  fix i :: nat
  assume "i < 8"
  from far_above[OF this, of 0 a] show "fst (fold push64 vs (m, a)) (a + of_nat i) = m (a + of_nat i)"
    using pushes_outside[OF assms, of m a "a + of_nat i"] assms by simp
qed

lemma push_below_keeps_word:
  assumes "k < 2 ^ 32"
  shows "load64 (fst (push64 v (m, a - of_nat k))) a = load64 m a"
proof (rule load64_cong)
  fix i :: nat
  assume "i < 8"
  from far_above[OF this assms, of a] show "fst (push64 v (m, a - of_nat k)) (a + of_nat i) = m (a + of_nat i)"
    by (intro push64_outside) simp
qed

lemma entry_writes:
  assumes "length gp = 15"
  shows "case host_hv_entrypoint gp ret (m, bitmap + 0x1000) of (m', rsp') \<Rightarrow>
           rsp' = bitmap + 0x1000 - 160 \<and> (\<forall>b. 4096 \<le> unat (b - bitmap) \<longrightarrow> m' b = m b)
           \<and> load64 m' (bitmap + 0xFF8) = hd gp"
proof -
  define R where "R = bitmap + 0x1000"
  obtain m1 where f: "fold push64 gp (m, R) = (m1, R - 120)"
    using pushes_outside[of gp m R 0] assms by (cases "fold push64 gp (m, R)") simp
  let ?m' = "fst (push64 ret (m1, R - 152))"
  have h: "host_hv_entrypoint gp ret (m, R) = (?m', R - 160)"
    by (simp add: host_hv_entrypoint_def f push64_def)
  have "?m' b = m b" if "4096 \<le> unat (b - bitmap)" for b
  proof -
    have "R - 1 - b = 4095 - (b - bitmap)" by (simp add: R_def)
    then have far: "160 \<le> unat (R - 1 - b)"
      using that unat_sub_if_size[of 4095 "b - bitmap"] unat_lt64[of "b - bitmap"]
      by (simp only:) (simp add: word_size)
    have "R - 152 - 1 - b = R - 1 - b - 152" by simp
    then have "?m' b = m1 b"
      using far unat_sub_if_size[of "R - 1 - b" 152] by (intro push64_outside) (simp only:, simp add: word_size)
    then show ?thesis using far pushes_outside[of gp m R b] f assms by simp
  qed
  moreover have "load64 ?m' (R - 8) = hd gp"
  proof -
    obtain v vs where gp: "gp = v # vs" "length vs = 14" using assms by (cases gp) auto
    have "load64 ?m' (R - 8) = load64 m1 (R - 8)"
      using push_below_keeps_word[of 144 ret m1 "R - 8"] by simp
    also have "\<dots> = v"
      using pushes_keep_word[of vs "store64 m (R - 8) v" "R - 8"] f gp by (simp add: push64_def load_store_same)
    finally show ?thesis by (simp add: gp)
  qed
  moreover have "R - 8 = bitmap + 0xFF8" by (simp add: R_def)
  ultimately show ?thesis unfolding R_def[symmetric] h by simp
qed

lemma read_keeps [simp]:
  "cmem (snd (cpu_vmxread M f s)) = cmem s" "cregs (snd (cpu_vmxread M f s)) = cregs s"
  "vmx (snd (cpu_vmxread M f s)) = vmx s" "mallocs (snd (cpu_vmxread M f s)) = mallocs s"
  by (simp_all add: cpu_vmxread_def split: prod.splits)

section \<open>Properties\<close>


text \<open>
  The exit handler only reads and logs: whatever the exit reason, it leaves memory, registers,
  the VMCS and the page tables as they are, so the guest resumes at the instruction that caused the
  exit.
\<close>

theorem host_vmexit_changes_nothing:
  "cmem (host_vmexit M s) = cmem s \<and> cregs (host_vmexit M s) = cregs s \<and> vmx (host_vmexit M s) = vmx s
   \<and> mallocs (host_vmexit M s) = mallocs s"
  by (simp add: host_vmexit_def Let_def case_prod_unfold split: sum.splits)

text \<open>
  The test for hardware support answers true exactly when CPUID reports VMX, and it writes no
  register: the feature control lock, the memory type of VMX regions and the ten EPT capabilities
  it looks at do not influence the answer.
\<close>

theorem vmx_supported_iff_cpuid:
  "visor_is_vmx_supported d x msrs ecx_in =
     (bit (case i_cpuid x (ucast (cst d CPUID_VERSION_INFORMATION)) ecx_in of (_, _, ecx, _) \<Rightarrow> ecx) 5, msrs)"
  by (simp add: visor_is_vmx_supported_def cpuid_vmx_def Let_def case_prod_unfold)

text \<open>
  Once the memory type table is built, \<open>visor_main\<close> reports success to the loader no matter what
  happened, after it has run the set up on the calling core alone.
\<close>

theorem visor_main_status:
  assumes "ept_init_mtrr (doc M) (isa M) (r_msr (cregs s)) = Inr mtrrs"
  shows "\<exists>out s'. visor_main M ecx_in whoami core_count s = Inr (0, [out], s') \<and>
     (out, s') = visor_init_core (M\<lparr>mem_types := ept_get_memory_type (doc M) mtrrs\<rparr>) ecx_in whoami s"
  using assms
  by (simp add: visor_main_def visor_init_def efi_mp_call_on_all_cores_def Let_def case_prod_unfold)


section \<open>Witnesses\<close>


theorem visor_main_status_witness:
  "\<exists>out s'. visor_main sample_machine 0 0 4 (sample_cpu\<lparr>cregs := sample_regs\<lparr>r_msr := sample_msrs\<rparr>\<rparr>) =
     Inr (0, [out], s')"
  using visor_main_status[of sample_machine "sample_cpu\<lparr>cregs := sample_regs\<lparr>r_msr := sample_msrs\<rparr>\<rparr>"
      sample_state 0 0 4] sample_init
  by (auto simp: sample_machine_def)

end
