(* ===== verification/Loader.thy ===== *)
theory Loader
  imports Tables Console Elf Visor
begin

text \<open>
  The loader around the components: \<^verbatim>\<open>loader/efi/string_utils.cc\<close>, \<^verbatim>\<open>fs.cc\<close>, \<^verbatim>\<open>loader.cc\<close> and \<^verbatim>\<open>main.cc\<close>.
  It opens the volumes, reads the hypervisor file, maps and relocates it, calls its entry point and
  puts the descriptor tables of the firmware back. The hypervisor it calls is an argument, as are
  the addresses the linker and the compiler choose. A call through a null pointer, an index past
  the array of volumes and a loop without end are faults.
\<close>

section \<open>string_utils.cc\<close>

partial_function (option) efi_string_to_cstring :: "u64 \<Rightarrow> u64 \<Rightarrow> mem \<Rightarrow> mem option" where
  "efi_string_to_cstring source dest m =
     (if load16 m source \<noteq> 0
      then efi_string_to_cstring (source + 2) (dest + 1) (m(dest := ucast (load16 m source)))
      else Some (m(dest := 0)))"

section \<open>fs.cc\<close>

datatype ldr_fault = Null_call | Roots_out_of_bounds | No_return | Elf_fault elf_fault

definition efi_fp_mode_read :: u64 where "efi_fp_mode_read = 1"

text \<open>The local variables of \<open>efi_fs_init\<close> on the stack.\<close>

record fs_frame =
  label :: u64
  label_c :: u64

text \<open>The text \<open>log(label_c)\<close> prints; the array is cut at 511 before.\<close>

definition label_text :: "mem \<Rightarrow> u64 \<Rightarrow> string" where
  "label_text m a = map (char_of \<circ> unat) (takeWhile (\<lambda>c. c \<noteq> 0) (load_bytes m a 512))"

definition fs_open_root :: "'f efi \<Rightarrow> fs_frame \<Rightarrow> nat \<Rightarrow> 'f ldr \<Rightarrow> ldr_fault + 'f ldr" where
  "fs_open_root fw fr i s =
     (let (status, sfsp, f) = handle_protocol fw (fs_handles s i) sfsp_guid 0 (l_fw s);
          s = s\<lparr>l_fw := f\<rparr>
      in if status \<noteq> efi_success then Inr s
         else
           let (root, f) = open_volume fw sfsp (fs_roots s i) (l_fw s);
               s = s\<lparr>l_fw := f, fs_roots := (fs_roots s)(i := root)\<rparr>
           in if root = 0 then Inl Null_call
              else
                let (ws, f) = get_volume_label fw root (l_fw s);
                    s = s\<lparr>l_mem := store_bytes (l_mem s) (label fr) (concat (map (to_le 2) ws)), l_fw := f\<rparr>
                in case efi_string_to_cstring (label fr) (label_c fr) (l_mem s) of
                     None \<Rightarrow> Inl No_return
                   | Some m \<Rightarrow>
                       let s = s\<lparr>l_mem := m(label_c fr + 511 := 0)\<rparr>
                       in Inr (log (Log (''!'' @ endl)) (log (Log (label_text (l_mem s) (label_c fr)))
                            (log (Log ''found drive: '') s))))"

definition efi_fs_init :: "'f efi \<Rightarrow> fs_frame \<Rightarrow> 'f ldr \<Rightarrow> ldr_fault + 'f ldr" where
  "efi_fs_init fw fr s =
     (let (status, count, handles, f) = locate_handle_buffer fw sfsp_guid (fs_root_count s) (l_fw s);
          s = s\<lparr>l_fw := f, fs_handles := handles, fs_root_count := count\<rparr>
      in if status \<noteq> efi_success then Inr s
         else
           let s = log (Log (''Listing filesystems...'' @ endl)) s
           in for_each_ok [0..<min (unat (fs_root_count s)) 0x10] (fs_open_root fw fr) s)"

text \<open>All \<open>fs_root_count\<close> entries are tried, opened or not.\<close>

fun fs_find_from :: "'f efi \<Rightarrow> u16 list \<Rightarrow> u64 \<Rightarrow> u64 \<Rightarrow> nat list \<Rightarrow> u64 \<Rightarrow> 'f ldr \<Rightarrow> ldr_fault + u64 \<times> 'f ldr" where
  "fs_find_from fw path open_mode attributes [] output s = Inr (output, s)"
| "fs_find_from fw path open_mode attributes (i # is) output s =
     (if 64 \<le> i then Inl Roots_out_of_bounds
      else if fs_roots s i = 0 then Inl Null_call
      else
        let (status, output, f) = fp_open fw (fs_roots s i) output path open_mode attributes (l_fw s);
            s = s\<lparr>l_fw := f\<rparr>
        in if status = efi_success then Inr (output, s)
           else fs_find_from fw path open_mode attributes is output s)"

definition efi_fs_find_file :: "'f efi \<Rightarrow> u16 list \<Rightarrow> u64 \<Rightarrow> u64 \<Rightarrow> 'f ldr \<Rightarrow> ldr_fault + u64 \<times> 'f ldr" where
  "efi_fs_find_file fw path open_mode attributes s =
     fs_find_from fw path open_mode attributes [0..<unat (fs_root_count s)] 0 s"

section \<open>loader.cc\<close>

definition violet_path :: "u16 list" where
  "violet_path = map (\<lambda>c. of_nat (of_char c)) (CHR 0x5C # ''VIOLET'' @ CHR 0x5C # ''VIOLET.ELF'')"

definition efi_loader_init :: "'f efi \<Rightarrow> 'f ldr \<Rightarrow> ldr_fault + 'f ldr" where
  "efi_loader_init fw s =
     (case efi_fs_find_file fw violet_path efi_fp_mode_read 0 s of
        Inl e \<Rightarrow> Inl e
      | Inr (file, s) \<Rightarrow>
          let s = s\<lparr>visor_file := file\<rparr>
          in if file = 0 then Inr (log (Log (''couldn't find hypervisor on disk'' @ endl)) s)
             else
               let (status, file_size, f) = get_file_size fw file (l_fw s);
                   s = s\<lparr>l_fw := f\<rparr>
               in if status \<noteq> efi_success
                  then Inr (log (Log (''couldt get visor file size!'' @ endl)) s)
                  else
                    let (p, s) = operator_new fw file_size s;
                        s = s\<lparr>visor_real := p\<rparr>;
                        (status, bytes, f) = fp_read fw file file_size (l_fw s);
                        s = s\<lparr>l_mem := store_bytes (l_mem s) p bytes, l_fw := f\<rparr>
                    in if status \<noteq> efi_success
                       then Inr (log (Log (''failed to read hypervisor'' @ endl)) s)
                       else Inr s)"


text \<open>The functions the loader exports to the hypervisor. \<open>buff\<close> is the array of \<open>efi_console_hex\<close>.\<close>

definition imp_log :: "'f screen \<Rightarrow> u64 \<Rightarrow> 'f ldr \<Rightarrow> 'f ldr option" where
  "imp_log e msg s = efi_console_write e msg s"

definition imp_log_hex :: "'f screen \<Rightarrow> u64 \<Rightarrow> u64 \<Rightarrow> 'f ldr \<Rightarrow> 'f ldr option" where
  "imp_log_hex e buff val s = efi_console_hex e buff val s"

definition imp_core_whoami :: "'f efi \<Rightarrow> 'f ldr \<Rightarrow> u64" where
  "imp_core_whoami fw s = efi_mp_whoami fw s"

definition imp_core_count :: "'f efi \<Rightarrow> 'f ldr \<Rightarrow> u64" where
  "imp_core_count fw s = efi_mp_get_core_count fw s"

definition imp_call_on_all_cores :: "'f efi \<Rightarrow> ('f ldr \<Rightarrow> 'f ldr) \<Rightarrow> 'f ldr \<Rightarrow> 'f ldr" where
  "imp_call_on_all_cores fw func s =
     snd (efi_mp_call_on_all_cores (\<lambda>s. ((), func s)) (efi_mp_get_core_count fw (func s)) s)"

definition imp_malloc :: "'f efi \<Rightarrow> u64 \<Rightarrow> 'f ldr \<Rightarrow> u64 \<times> 'f ldr" where
  "imp_malloc fw sz s =
     (let (status, result, f) = allocate_pages fw allocate_any_pages runtime_services_code
            (NUM_PAGES sz) 0 (l_fw s);
          s = s\<lparr>l_fw := f\<rparr>
      in (result,
          if status \<noteq> efi_success \<or> result = 0 then log (Log_hex ''malloc err: '' status) s else s))"

datatype ldr_import =
    import_log | import_log_hex | import_core_whoami | import_core_count | import_call_on_all_cores
  | import_malloc

definition efi_loader_imports :: "(string \<times> ldr_import) list" where
  "efi_loader_imports =
     [(''ldr_log'', import_log), (''ldr_log_hex'', import_log_hex),
      (''ldr_core_whoami'', import_core_whoami), (''ldr_core_count'', import_core_count),
      (''ldr_call_on_all_cores'', import_call_on_all_cores), (''ldr_malloc'', import_malloc)]"

record hv_init_struct =
  loader_name :: string
  loader_version :: u64

text \<open>What linker and compiler decide: where the imports, literals, stubs, TSS and locals are.\<close>

record linkage =
  imports_at :: u64
  literals :: elf_literals
  stubs :: "idt_handler \<Rightarrow> u64"
  tss_at :: u64
  frame :: fs_frame

type_synonym 'f hypervisor = "u64 \<Rightarrow> hv_init_struct \<Rightarrow> 'f ldr \<Rightarrow> (u64 \<times> 'f ldr) option"

text \<open>
  The status of the allocation is not looked at, and neither is \<open>visor_real\<close>. The call of the
  entry point may not return.
\<close>

definition efi_loader_map :: "'f efi \<Rightarrow> linkage \<Rightarrow> 'f hypervisor \<Rightarrow> 'f ldr \<Rightarrow> ldr_fault + 'f ldr" where
  "efi_loader_map fw k hv s =
     (let mapper = elf_mapper_new (l_mem s) (visor_real s) (of_nat (length efi_loader_imports)) (imports_at k);
          (status, p, f) = allocate_pages fw allocate_any_pages runtime_services_code
            (NUM_PAGES (get_mapped_size mapper (l_mem s))) (visor_mapped s) (l_fw s);
          s = s\<lparr>l_fw := f, visor_mapped := p\<rparr>;
          s = log (Log_hex ''hypervisor mapped @ '' (visor_mapped s)) s
      in case map_to mapper (literals k) (visor_mapped s) (l_mem s, l_log s) of
           Inl e \<Rightarrow> Inl (Elf_fault e)
         | Inr (mapper, m, l) \<Rightarrow>
             let s = s\<lparr>l_mem := m, l_log := l\<rparr>;
                 s = s\<lparr>hypervisor_main := get_entrypoint mapper (l_mem s)\<rparr>;
                 init_struct = \<lparr>loader_name = ''TEST'', loader_version = 0x1\<rparr>;
                 s = log (Log (''passing control to hypervisor binary!'' @ endl)) s
             in case hv (hypervisor_main s) init_struct s of
                  None \<Rightarrow> Inl No_return
                | Some (result, s) \<Rightarrow> Inr (log (Log_hex ''result: '' result) s))"

section \<open>main.cc\<close>

definition bind_ok :: "'e + 'a \<Rightarrow> ('a \<Rightarrow> 'e + 'b) \<Rightarrow> 'e + 'b" where
  "bind_ok r f = (case r of Inl e \<Rightarrow> Inl e | Inr x \<Rightarrow> f x)"

definition of_option :: "'e \<Rightarrow> 'a option \<Rightarrow> 'e + 'a" where
  "of_option e r = (case r of None \<Rightarrow> Inl e | Some x \<Rightarrow> Inr x)"

text \<open>\<open>efi_gfx_init\<close> has no value when it uses the null \<open>gop\<close>.\<close>

definition efi_main ::
  "'f screen \<Rightarrow> ia32 \<Rightarrow> linkage \<Rightarrow> 'f hypervisor \<Rightarrow> 'f ldr \<Rightarrow> ldr_fault + efi_status \<times> 'f ldr" where
  "efi_main e d k hv s =
     (let fw = scr_fw e
      in bind_ok (of_option Null_call (efi_gfx_init fw (font e) (efi_mp_init fw s)))
      (\<lambda>s. let s = efi_console_init e s;
               s = efi_allocator_init fw s;
               s = efi_idt_init fw (stubs k) s;
               s = efi_gdt_init fw d (tss_at k) s
      in bind_ok (efi_fs_init fw (frame k) s)
      (\<lambda>s. bind_ok (efi_loader_init fw s)
      (\<lambda>s. bind_ok (efi_loader_map fw k hv s)
      (\<lambda>s. let s = efi_gdt_exit s;
               s = efi_idt_exit fw s;
               s = log (Log (''loader executed succesfully, press any key to continue...'' @ endl)) s
      in bind_ok (of_option No_return (efi_input_wait_for_key fw (stale_key e) s))
      (\<lambda>s. Inr (efi_success, s)))))))"


lemma bind_ok_Inr: "bind_ok r f = Inr y \<longleftrightarrow> (\<exists>x. r = Inr x \<and> f x = Inr y)"
  by (auto simp: bind_ok_def split: sum.splits)

lemma of_option_Inr: "of_option e r = Inr x \<longleftrightarrow> r = Some x"
  by (auto simp: of_option_def split: option.splits)

section \<open>The conversion of strings\<close>

primrec wcstr :: "mem \<Rightarrow> u64 \<Rightarrow> u16 list \<Rightarrow> bool" where
  "wcstr m a [] \<longleftrightarrow> load16 m a = 0"
| "wcstr m a (w # ws) \<longleftrightarrow> w \<noteq> 0 \<and> load16 m a = w \<and> wcstr m (a + 2) ws"

lemma load16_update: "unat (b - a) \<ge> 2 \<Longrightarrow> load16 (m(b := v)) a = load16 m a"
proof -
  assume b: "unat (b - a) \<ge> 2"
  have "load_bytes (m(b := v)) a 2 = load_bytes m a 2"
  proof (rule load_bytes_cong)
    fix i :: nat
    assume "i < 2"
    then have "a + of_nat i \<noteq> b" using b by (cases "i = 0") (auto simp: less_2_cases_iff)
    then show "(m(b := v)) (a + of_nat i) = m (a + of_nat i)" by simp
  qed
  then show ?thesis by (simp add: load16_def)
qed

lemma wcstr_update: "\<forall>i \<le> length ws. unat (b - (a + 2 * of_nat i)) \<ge> 2 \<Longrightarrow> wcstr (m(b := v)) a ws = wcstr m a ws"
proof (induction ws arbitrary: a)
  case Nil
  then have "unat (b - a) \<ge> 2" by simp
  then show ?case by (simp only: wcstr.simps load16_update)
next
  case (Cons w ws)
  have "\<forall>i \<le> length ws. unat (b - (a + 2 + 2 * of_nat i)) \<ge> 2"
  proof (intro allI impI)
    fix i
    assume "i \<le> length ws"
    then have "unat (b - (a + 2 * of_nat (Suc i))) \<ge> 2" using Cons.prems by (auto simp del: of_nat_Suc)
    then show "unat (b - (a + 2 + 2 * of_nat i)) \<ge> 2" by (simp add: algebra_simps)
  qed
  moreover have "unat (b - a) \<ge> 2" using Cons.prems[rule_format, of 0] by simp
  ultimately show ?case using Cons.IH[of "a + 2"] by (simp only: wcstr.simps load16_update)
qed

lemma store_bytes_Cons:
  assumes "length xs < 2 ^ 64 - 1"
  shows "store_bytes (m(a := x)) (a + 1) xs = store_bytes m a (x # xs)"
proof
  fix b
  show "store_bytes (m(a := x)) (a + 1) xs b = store_bytes m a (x # xs) b"
  proof (cases "b = a")
    case True
    have "b - (a + 1) = - 1" using True by simp
    then have "unat (b - (a + 1)) = 2 ^ 64 - 1" using unat_uminus[of "1 :: u64"] by simp
    then show ?thesis using assms True by (simp add: store_bytes_def)
  next
    case False
    have e: "b - (a + 1) = (b - a) - 1" by simp
    have "unat (b - (a + 1)) = unat (b - a) - 1" unfolding e using False unat_minus_one[of "b - a"] by simp
    moreover have "unat (b - a) \<noteq> 0" using False by (simp add: unat_eq_zero)
    ultimately show ?thesis using False by (cases "unat (b - a)") (simp_all add: store_bytes_def)
  qed
qed

text \<open>
  The destination gets the low byte of every character and a terminator, one byte per character and
  one more, however long the source is; nothing limits it to the 512 bytes of \<open>label_c\<close>.
\<close>

lemma efi_string_to_cstring_result:
  assumes "wcstr m source ws" and "length ws < 2 ^ 32" and "\<forall>i \<le> length ws. \<forall>j < length ws. unat (dest + of_nat j - (source + 2 * of_nat i)) \<ge> 2"
  shows "efi_string_to_cstring source dest m = Some (store_bytes m dest (map ucast ws @ [0]))"
  using assms
proof (induction ws arbitrary: source dest m)
  case Nil
  have "m(dest := 0) = store_bytes m dest [0]"
    by (rule ext) (auto simp: store_bytes_def unat_eq_zero)
  then show ?case using Nil.prems(1) by (subst efi_string_to_cstring.simps) simp
next
  case (Cons w ws)
  let ?m = "m(dest := ucast w)"
  have sep: "unat (dest + of_nat j - (source + 2 * of_nat i)) \<ge> 2" if "i \<le> Suc (length ws)" "j \<le> length ws" for i j
    using Cons.prems(3) that by (auto simp del: of_nat_Suc)
  have "\<forall>i \<le> length ws. unat (dest - (source + 2 + 2 * of_nat i)) \<ge> 2"
  proof (intro allI impI)
    fix i
    assume "i \<le> length ws"
    then show "unat (dest - (source + 2 + 2 * of_nat i)) \<ge> 2" using sep[of "Suc i" 0] by (simp add: algebra_simps)
  qed
  then have "wcstr ?m (source + 2) ws" using Cons.prems(1) by (simp only: wcstr.simps wcstr_update)
  moreover have "\<forall>i \<le> length ws. \<forall>j < length ws. unat (dest + 1 + of_nat j - (source + 2 + 2 * of_nat i)) \<ge> 2"
  proof (intro allI impI)
    fix i j
    assume "i \<le> length ws" "j < length ws"
    then show "unat (dest + 1 + of_nat j - (source + 2 + 2 * of_nat i)) \<ge> 2"
      using sep[of "Suc i" "Suc j"] by (simp add: algebra_simps)
  qed
  moreover have "length ws < 2 ^ 32" using Cons.prems(2) by simp
  ultimately have "efi_string_to_cstring (source + 2) (dest + 1) ?m = Some (store_bytes ?m (dest + 1) (map ucast ws @ [0]))"
    using Cons.IH by blast
  moreover have "load16 m source = w" "w \<noteq> 0" using Cons.prems(1) by simp_all
  ultimately have "efi_string_to_cstring source dest m = Some (store_bytes ?m (dest + 1) (map ucast ws @ [0]))"
    by (subst efi_string_to_cstring.simps) simp
  then show ?case using store_bytes_Cons[where m = m and a = dest and x = "ucast w" and xs = "map ucast ws @ [0]"] Cons.prems(2) by simp
qed

section \<open>What the steps leave alone\<close>

text \<open>The descriptor table registers and the loader's copies of the firmware's values.\<close>

definition tables_of :: "'f ldr \<Rightarrow> dtr \<times> dtr \<times> u16 \<times> dtr \<times> dtr" where
  "tables_of s = (reg_idtr s, reg_gdtr s, reg_tr s, efi_idtr s, efi_gdtr s)"

named_theorems tables_simps

lemma tables_of_log [tables_simps]: "tables_of (log x s) = tables_of s"
  by (simp add: tables_of_def)

lemma tables_of_update [tables_simps]:
  "tables_of (s\<lparr>l_mem := m\<rparr>) = tables_of s" "tables_of (s\<lparr>l_fw := f\<rparr>) = tables_of s"
  "tables_of (s\<lparr>l_log := l\<rparr>) = tables_of s" "tables_of (s\<lparr>gop := g\<rparr>) = tables_of s"
  "tables_of (s\<lparr>mp := p\<rparr>) = tables_of s" "tables_of (s\<lparr>ctx := c\<rparr>) = tables_of s"
  "tables_of (s\<lparr>efi_allocations := a\<rparr>) = tables_of s" "tables_of (s\<lparr>fs_handles := h\<rparr>) = tables_of s"
  "tables_of (s\<lparr>fs_roots := r\<rparr>) = tables_of s" "tables_of (s\<lparr>fs_root_count := n\<rparr>) = tables_of s"
  "tables_of (s\<lparr>visor_file := v\<rparr>) = tables_of s" "tables_of (s\<lparr>visor_real := v\<rparr>) = tables_of s"
  "tables_of (s\<lparr>visor_mapped := v\<rparr>) = tables_of s" "tables_of (s\<lparr>hypervisor_main := v\<rparr>) = tables_of s"
  "tables_of (s\<lparr>custom_idt := v\<rparr>) = tables_of s" "tables_of (s\<lparr>new_gdt := v\<rparr>) = tables_of s"
  "tables_of (s\<lparr>custom_idtr := w\<rparr>) = tables_of s"
  by (simp_all add: tables_of_def)

lemma tables_of_allocator [tables_simps]:
  "tables_of (efi_allocator_init fw s) = tables_of s"
  "tables_of (snd (operator_new fw n s)) = tables_of s"
  by (simp_all add: efi_allocator_init_def operator_new_def efi_allocate_def Let_def case_prod_unfold
      tables_simps split: option.splits)

lemma tables_of_delete [tables_simps]: "tables_of (operator_delete fw p s) = tables_of s"
  unfolding operator_delete_def efi_deallocate_def
  by (rule for_range_inv[where I = "\<lambda>_ s'. tables_of s' = tables_of s"])
    (simp_all add: efi_deallocate_entry_def Let_def tables_simps)

lemma tables_of_screen [tables_simps]:
  "tables_of (efi_mp_init fw s) = tables_of s"
  "tables_of (efi_console_init e s) = tables_of s"
  by (simp_all add: efi_mp_init_def efi_console_init_def Let_def case_prod_unfold tables_simps)

lemma tables_of_find_gop [tables_simps]: "tables_of (gfx_find_gop fw h is s) = tables_of s"
  by (induction "is" arbitrary: s) (simp_all add: Let_def case_prod_unfold tables_simps)

lemma tables_of_gfx_init: "efi_gfx_init fw fnt s = Some s' \<Longrightarrow> tables_of s' = tables_of s"
  by (auto simp: efi_gfx_init_def Let_def case_prod_unfold tables_simps split: if_splits)

lemma tables_of_input: "efi_input_wait_for_key fw key s = Some s' \<Longrightarrow> tables_of s' = tables_of s"
  by (auto simp: efi_input_wait_for_key_def tables_simps)

lemma tables_of_fs_open_root: "fs_open_root fw fr i s = Inr s' \<Longrightarrow> tables_of s' = tables_of s"
  by (auto simp: fs_open_root_def Let_def case_prod_unfold tables_simps split: if_splits option.splits)

lemma for_each_ok_keeps:
  assumes "\<And>i s s'. f i s = Inr s' \<Longrightarrow> g s' = g s"
  shows "for_each_ok is f s = Inr s' \<Longrightarrow> g s' = g s"
  using assms by (induction "is" arbitrary: s) (fastforce split: sum.splits)+

lemma tables_of_roots: "for_each_ok is (fs_open_root fw fr) s = Inr s' \<Longrightarrow> tables_of s' = tables_of s"
  by (rule for_each_ok_keeps[OF tables_of_fs_open_root])

lemma tables_of_fs_init:
  assumes "efi_fs_init fw fr s = Inr s'"
  shows "tables_of s' = tables_of s"
proof -
  obtain status n h f where l: "locate_handle_buffer fw sfsp_guid (fs_root_count s) (l_fw s) = (status, n, h, f)"
    by (cases "locate_handle_buffer fw sfsp_guid (fs_root_count s) (l_fw s)") auto
  show ?thesis
    using assms
    by (cases "status = efi_success") (auto simp: efi_fs_init_def l Let_def tables_simps dest: tables_of_roots)
qed

lemma tables_of_find_file:
  "fs_find_from fw path md at is out s = Inr (p, s') \<Longrightarrow> tables_of s' = tables_of s"
proof (induction "is" arbitrary: out s)
  case (Cons i js)
  obtain st q f where o: "fp_open fw (fs_roots s i) out path md at (l_fw s) = (st, q, f)"
    by (cases "fp_open fw (fs_roots s i) out path md at (l_fw s)") auto
  show ?case
    using Cons.prems Cons.IH[of q "s\<lparr>l_fw := f\<rparr>"]
    by (auto simp: o Let_def tables_simps split: if_splits)
qed simp

lemma tables_of_loader_init: "efi_loader_init fw s = Inr s' \<Longrightarrow> tables_of s' = tables_of s"
  by (auto simp: efi_loader_init_def efi_fs_find_file_def Let_def case_prod_unfold tables_simps
      split: if_splits sum.splits dest!: tables_of_find_file)


lemma fold_idt_hook_tables [tables_simps]: "tables_of (fold (idt_hook stub) hs s) = tables_of s"
  by (induction hs arbitrary: s) (simp_all add: idt_hook_def Let_def tables_simps)

lemma efi_idt_init_tables:
  "reg_gdtr (efi_idt_init fw stub s) = reg_gdtr s \<and> reg_tr (efi_idt_init fw stub s) = reg_tr s
   \<and> efi_gdtr (efi_idt_init fw stub s) = efi_gdtr s \<and> efi_idtr (efi_idt_init fw stub s) = reg_idtr s"
proof -
  define s1 where "s1 = log (Log (''initializing idt hooks'' @ endl)) s"
  define s2 where "s2 = log (Log_hex ''idt size: '' (ucast (dtr_limit (reg_idtr s)) div sizeof_idt_entry))
    (s1\<lparr>efi_idtr := reg_idtr s, custom_idtr := reg_idtr s\<rparr>)"
  obtain p s3 where new: "operator_new fw (ucast (dtr_limit (reg_idtr s)) div sizeof_idt_entry * sizeof_idt_entry) s2
      = (p, s3)" by fastforce
  have "tables_of s3 = tables_of s2"
    using new by (metis snd_conv tables_of_allocator(2))
  moreover have "tables_of s2 = (reg_idtr s, reg_gdtr s, reg_tr s, reg_idtr s, efi_gdtr s)"
    by (simp add: s2_def s1_def tables_of_def)
  moreover define s4 where "s4 = fold (idt_hook stub) hooks (log (Log (''hooking interesting entries'' @ endl))
    (s3\<lparr>custom_idt := p, l_mem := snd (memcpy (l_mem s3) p (dtr_base (reg_idtr s)) (ucast (dtr_limit (reg_idtr s))))\<rparr>))"
  moreover have "tables_of s4 = tables_of s3" by (simp add: s4_def tables_simps)
  ultimately have t: "tables_of s4 = (reg_idtr s, reg_gdtr s, reg_tr s, reg_idtr s, efi_gdtr s)" by simp
  have "efi_idtr s3 = reg_idtr s"
    using \<open>tables_of s3 = tables_of s2\<close> \<open>tables_of s2 = _\<close> by (simp add: tables_of_def)
  then have "efi_idt_init fw stub s = (let s = log (Log (''overwriting idtr'' @ endl)) s4;
      s = s\<lparr>custom_idtr := (custom_idtr s)\<lparr>dtr_base := custom_idt s\<rparr>\<rparr> in s\<lparr>reg_idtr := custom_idtr s\<rparr>)"
    using new by (simp add: efi_idt_init_def s1_def s2_def s4_def Let_def)
  then show ?thesis using t by (simp add: tables_of_def Let_def)
qed


definition tss_selector :: "ia32 \<Rightarrow> dtr \<Rightarrow> u16" where
  "tss_selector d gdtr = set_m d (Seg Sel_index)
     (ucast ((ucast (dtr_limit gdtr) + 1 :: u64) div size_of d Segment_descriptor_32_struct)) 0"

lemma tss_selector_value:
  assumes "selector_layout d" and "descriptor_layout d" and "(unat (dtr_limit g) + 1) mod 8 = 0"
    and "dtr_limit g \<noteq> 0xFFFF"
  shows "unat (tss_selector d g) = unat (dtr_limit g) + 1"
proof -
  define q where "q = (unat (dtr_limit g) + 1) div 8"
  have "unat (dtr_limit g) \<noteq> 65535" using assms(4) by (simp add: word_unat_eq_iff)
  then have L: "unat (dtr_limit g) + 1 = 8 * q" "q < 8192"
    using assms(3) unat_lt_power[of "dtr_limit g"] by (auto simp: q_def)
  have "unat ((ucast (dtr_limit g) + 1 :: u64) div 8) = q"
  proof -
    have "unat (ucast (dtr_limit g) + of_nat 1 :: u64) = unat (ucast (dtr_limit g) :: u64) + 1"
      by (rule unat_add_small) (use unat_lt_power[of "dtr_limit g"] in \<open>simp add: unat_ucast_16\<close>)
    then show ?thesis using L by (simp add: unat_div unat_ucast_16)
  qed
  then have "(ucast (dtr_limit g) + 1 :: u64) div 8 = of_nat q" by (metis of_nat_unat ucast_id)
  moreover have "ucast (of_nat q :: u64) = (of_nat q :: u16)"
    using L(2) by (simp add: unsigned_ucast_eq word_unat_eq_iff unat_of_nat take_bit_nat_eq_self)
  ultimately have "tss_selector d g = of_nat (8 * q)"
    using assms(2) tr_selector(1)[OF assms(1) L(2)] by (simp add: tss_selector_def descriptor_layout_def)
  moreover have "unat (of_nat (8 * q) :: u16) = 8 * q" by (rule unat_of_nat_small) (use L(2) in simp)
  ultimately show ?thesis using L(1) by simp
qed

lemma efi_gdt_init_tables:
  "reg_tr (efi_gdt_init fw d new_tss s) = tss_selector d (reg_gdtr s)
   \<and> efi_gdtr (efi_gdt_init fw d new_tss s) = reg_gdtr s \<and> efi_idtr (efi_gdt_init fw d new_tss s) = efi_idtr s"
proof -
  obtain p s1 where new: "operator_new fw (gdt_request_size d s) (gdt_request d s) = (p, s1)" by fastforce
  then have "tables_of s1 = tables_of (gdt_request d s)" by (metis snd_conv tables_of_allocator(2))
  then have "efi_gdtr s1 = reg_gdtr s \<and> efi_idtr s1 = efi_idtr s" by (simp add: tables_of_def gdt_request_def)
  moreover have "operator_new fw ((ucast (dtr_limit (reg_gdtr s)) + 1 div size_of d Segment_descriptor_64_struct + 1)
      * size_of d Segment_descriptor_64_struct)
    (log (Log_hex ''gdt size: '' (ucast (dtr_limit (reg_gdtr s)) + 1 div size_of d Segment_descriptor_64_struct))
       ((log (Log (''patching efi gdt'' @ endl)) s)\<lparr>efi_gdtr := reg_gdtr s\<rparr>)) = (p, s1)"
    using new by (simp only: gdt_request_def gdt_request_size_def)
  ultimately show ?thesis
    by (simp add: efi_gdt_init_def tss_selector_def write_tr_def Let_def del: append.simps)
qed

lemma efi_loader_map_call:
  assumes "efi_loader_map fw k hv s = Inr s'"
  shows "\<exists>a s1 result s2. hv a \<lparr>loader_name = ''TEST'', loader_version = 1\<rparr> s1 = Some (result, s2)
     \<and> tables_of s1 = tables_of s \<and> s' = log (Log_hex ''result: '' result) s2"
proof -
  define mapper where "mapper = elf_mapper_new (l_mem s) (visor_real s) (of_nat (length efi_loader_imports)) (imports_at k)"
  obtain st p f where alloc: "allocate_pages fw allocate_any_pages runtime_services_code
      (NUM_PAGES (get_mapped_size mapper (l_mem s))) (visor_mapped s) (l_fw s) = (st, p, f)"
    by (cases "allocate_pages fw allocate_any_pages runtime_services_code
      (NUM_PAGES (get_mapped_size mapper (l_mem s))) (visor_mapped s) (l_fw s)") auto
  define s0 where "s0 = log (Log_hex ''hypervisor mapped @ '' p) (s\<lparr>l_fw := f, visor_mapped := p\<rparr>)"
  obtain M m l where map: "map_to mapper (literals k) p (l_mem s0, l_log s0) = Inr (M, m, l)"
    using assms
    by (cases "map_to mapper (literals k) p (l_mem s0, l_log s0)")
      (auto simp: efi_loader_map_def mapper_def[symmetric] alloc s0_def Let_def)
  define s1 where "s1 = log (Log (''passing control to hypervisor binary!'' @ endl))
    (s0\<lparr>l_mem := m, l_log := l, hypervisor_main := get_entrypoint M m\<rparr>)"
  have t: "tables_of s1 = tables_of s" by (simp add: s1_def s0_def tables_simps)
  have h: "hypervisor_main s1 = get_entrypoint M m" by (simp add: s1_def)
  have "efi_loader_map fw k hv s = (case hv (get_entrypoint M m) \<lparr>loader_name = ''TEST'', loader_version = 1\<rparr> s1 of
      None \<Rightarrow> Inl No_return | Some (result, s) \<Rightarrow> Inr (log (Log_hex ''result: '' result) s))"
    using map by (simp add: efi_loader_map_def mapper_def[symmetric] alloc s0_def s1_def Let_def)
  then show ?thesis using assms t by (auto split: option.splits)
qed

text \<open>What the loader relies on: the hypervisor leaves TR and the loader's variables alone.\<close>

definition keeps_loader :: "'f hypervisor \<Rightarrow> bool" where
  "keeps_loader hv \<longleftrightarrow> (\<forall>a i s r s'. hv a i s = Some (r, s') \<longrightarrow>
     reg_tr s' = reg_tr s \<and> efi_idtr s' = efi_idtr s \<and> efi_gdtr s' = efi_gdtr s)"

lemma efi_exit_tables:
  "reg_idtr (efi_idt_exit fw (efi_gdt_exit s)) = efi_idtr s \<and> reg_gdtr (efi_idt_exit fw (efi_gdt_exit s)) = efi_gdtr s
   \<and> reg_tr (efi_idt_exit fw (efi_gdt_exit s)) = reg_tr s"
proof -
  have "tables_of (efi_idt_exit fw s') = (efi_idtr s', reg_gdtr s', reg_tr s', efi_idtr s', efi_gdtr s')" for s'
    by (simp add: efi_idt_exit_def Let_def tables_simps) (simp add: tables_of_def)
  from this[of "efi_gdt_exit s"] show ?thesis
    by (simp add: tables_of_def efi_gdt_exit_def clear_tr_def Let_def)
qed

text \<open>
  C7. The whole run of the loader, from \<open>efi_main\<close>'s first call to its return, with a hypervisor that
  leaves the task register and the loader's variables alone: the interrupt and global descriptor
  table registers are again what the firmware had loaded, whatever the steps between did and
  whichever of them failed. The task register is not: it keeps the selector of the task state
  segment, which lies behind the last descriptor of the table that was restored.
\<close>

theorem efi_main_restores_tables:
  assumes "keeps_loader hv" and "efi_main e d k hv s = Inr (status, s')"
    and "selector_layout d" and "descriptor_layout d" and "(unat (dtr_limit (reg_gdtr s)) + 1) mod 8 = 0"
    and "dtr_limit (reg_gdtr s) \<noteq> 0xFFFF"
  shows "reg_idtr s' = reg_idtr s \<and> reg_gdtr s' = reg_gdtr s \<and> status = efi_success
    \<and> unat (reg_tr s') = unat (dtr_limit (reg_gdtr s')) + 1"
proof -
  let ?fw = "scr_fw e"
  obtain s1 where g: "efi_gfx_init ?fw (font e) (efi_mp_init ?fw s) = Some s1"
    using assms(2) by (auto simp: efi_main_def bind_ok_Inr of_option_Inr Let_def)
  define s2 where "s2 = efi_allocator_init ?fw (efi_console_init e s1)"
  define s3 where "s3 = efi_gdt_init ?fw d (tss_at k) (efi_idt_init ?fw (stubs k) s2)"
  obtain s4 s5 s6 s7 where steps: "efi_fs_init ?fw (frame k) s3 = Inr s4" "efi_loader_init ?fw s4 = Inr s5"
    "efi_loader_map ?fw k hv s5 = Inr s6"
    "efi_input_wait_for_key ?fw (stale_key e) (log (Log (''loader executed succesfully, press any key to continue...'' @ endl))
       (efi_idt_exit ?fw (efi_gdt_exit s6))) = Some s7" "s' = s7" "status = efi_success"
    using assms(2) g by (auto simp: efi_main_def bind_ok_Inr of_option_Inr Let_def s2_def s3_def)
  have t2: "tables_of s2 = tables_of s"
    using tables_of_gfx_init[OF g] by (simp add: s2_def tables_simps)
  have t3: "efi_idtr s3 = reg_idtr s" "efi_gdtr s3 = reg_gdtr s" "reg_tr s3 = tss_selector d (reg_gdtr s)"
    using t2 efi_idt_init_tables[of ?fw "stubs k" s2] efi_gdt_init_tables[of ?fw d "tss_at k" "efi_idt_init ?fw (stubs k) s2"]
    by (simp_all add: s3_def tables_of_def)
  have "tables_of s5 = tables_of s3"
    using tables_of_fs_init[OF steps(1)] tables_of_loader_init[OF steps(2)] by simp
  moreover obtain a i sa r sb where "hv a i sa = Some (r, sb)" "tables_of sa = tables_of s5"
    "s6 = log (Log_hex ''result: '' r) sb" using efi_loader_map_call[OF steps(3)] by blast
  ultimately have t6: "reg_tr s6 = reg_tr s3" "efi_idtr s6 = efi_idtr s3" "efi_gdtr s6 = efi_gdtr s3"
    using assms(1) by (simp_all add: keeps_loader_def tables_of_def)
  have "reg_idtr s' = efi_idtr s6 \<and> reg_gdtr s' = efi_gdtr s6 \<and> reg_tr s' = reg_tr s6"
    using tables_of_input[OF steps(4)] efi_exit_tables[of ?fw s6] steps(5) by (simp add: tables_of_def)
  moreover have "unat (tss_selector d (reg_gdtr s)) = unat (dtr_limit (reg_gdtr s)) + 1"
    using tss_selector_value[OF assms(3-6)] .
  ultimately show ?thesis using t3 t6 steps(6) by simp
qed


section \<open>From the file to the call of the hypervisor\<close>

definition visor_mapper :: "linkage \<Rightarrow> mem \<Rightarrow> u64 \<Rightarrow> elf_mapper" where
  "visor_mapper k m file = elf_mapper_new m file (of_nat (length efi_loader_imports)) (imports_at k)"

lemma visor_mapper_sel [simp]:
  "m_file (visor_mapper k m file) = file" "m_ehdr (visor_mapper k m file) = file"
  by (simp_all add: visor_mapper_def elf_mapper_new_def)

text \<open>The state in which the hypervisor is entered: mapped at \<open>p\<close>, with the memory \<open>m\<close>.\<close>

definition handed_over :: "u64 \<Rightarrow> u64 \<Rightarrow> mem \<Rightarrow> 'f \<Rightarrow> 'f ldr \<Rightarrow> 'f ldr" where
  "handed_over p entry m f s = s\<lparr>l_mem := m, l_fw := f, visor_mapped := p, hypervisor_main := entry,
     l_log := l_log s @ [Log_hex ''hypervisor mapped @ '' p, Log_hex ''elf base @'' p,
       Log (''passing control to hypervisor binary!'' @ endl)]\<rparr>"

definition call_hypervisor :: "'f hypervisor \<Rightarrow> u64 \<Rightarrow> 'f ldr \<Rightarrow> ldr_fault + 'f ldr" where
  "call_hypervisor hv entry s =
     (case hv entry \<lparr>loader_name = ''TEST'', loader_version = 1\<rparr> s of
        None \<Rightarrow> Inl No_return
      | Some (result, s) \<Rightarrow> Inr (log (Log_hex ''result: '' result) s))"

lemma map_to_plain:
  assumes ok: "file_ok (M\<lparr>m_mapped := p\<rparr>) m n" and "e_shnum (rd_ehdr m (m_file M)) = 0"
  shows "\<exists>m'. map_to M L p (m, l) = Inr (M\<lparr>m_mapped := p\<rparr>, m', l @ [Log_hex ''elf base @'' p])
    \<and> rd_ehdr m' (m_file M) = rd_ehdr m (m_file M)
    \<and> (\<forall>b. m' b = image_byte (M\<lparr>m_mapped := p\<rparr>) m (phdr_list (M\<lparr>m_mapped := p\<rparr>) m) b)"
proof -
  let ?M = "M\<lparr>m_mapped := p\<rparr>"
  obtain m' where m': "map_segments ?M m = Inr m'" "\<forall>b. m' b = image_byte ?M m (phdr_list ?M m) b"
    using map_segments_image[OF ok] by blast
  have "agree (m_file M) n m m'"
    using m'(2) image_byte_file[OF ok _ subset_refl] by (simp add: agree_def)
  then have h: "rd_ehdr m' (m_file M) = rd_ehdr m (m_file M)"
    by (rule agree_ehdr) (use ok in \<open>simp add: file_ok_def\<close>)
  moreover have "m_ehdr M = m_file M" using ok by (simp add: file_ok_def)
  ultimately have "map_to M L p (m, l) = Inr (?M, m', l @ [Log_hex ''elf base @'' p])"
    using assms(2) m'(1) by (simp add: map_to_def Let_def find_symbols_def for_u16.simps[of _ _ 0])
  then show ?thesis using h m'(2) by blast
qed

lemma efi_loader_map_plain:
  defines "mapper \<equiv> \<lambda>k s p. (visor_mapper k (l_mem s) (visor_real s))\<lparr>m_mapped := p\<rparr>"
  assumes alloc: "allocate_pages fw allocate_any_pages runtime_services_code
      (NUM_PAGES (get_mapped_size (visor_mapper k (l_mem s) (visor_real s)) (l_mem s))) (visor_mapped s) (l_fw s) = (st, p, f)"
    and ok: "file_ok (mapper k s p) (l_mem s) n" and sh: "e_shnum (rd_ehdr (l_mem s) (visor_real s)) = 0"
  shows "\<exists>m'. efi_loader_map fw k hv s
        = call_hypervisor hv (p + e_entry (rd_ehdr (l_mem s) (visor_real s)))
            (handed_over p (p + e_entry (rd_ehdr (l_mem s) (visor_real s))) m' f s)
    \<and> (\<forall>b. m' b = image_byte (mapper k s p) (l_mem s) (phdr_list (mapper k s p) (l_mem s)) b)"
proof -
  let ?M = "visor_mapper k (l_mem s) (visor_real s)"
  obtain m' where m': "map_to ?M (literals k) p (l_mem s, l_log s @ [Log_hex ''hypervisor mapped @ '' p])
      = Inr (?M\<lparr>m_mapped := p\<rparr>, m', (l_log s @ [Log_hex ''hypervisor mapped @ '' p]) @ [Log_hex ''elf base @'' p])"
    "rd_ehdr m' (visor_real s) = rd_ehdr (l_mem s) (visor_real s)"
    "\<forall>b. m' b = image_byte (mapper k s p) (l_mem s) (phdr_list (mapper k s p) (l_mem s)) b"
    using map_to_plain[where M = ?M and p = p and m = "l_mem s" and n = n and L = "literals k"
        and l = "l_log s @ [Log_hex ''hypervisor mapped @ '' p]"] ok sh unfolding mapper_def by auto
  have "efi_loader_map fw k hv s = call_hypervisor hv (p + e_entry (rd_ehdr (l_mem s) (visor_real s)))
      (handed_over p (p + e_entry (rd_ehdr (l_mem s) (visor_real s))) m' f s)"
  proof -
    define s0 where "s0 = log (Log_hex ''hypervisor mapped @ '' p) (s\<lparr>l_fw := f, visor_mapped := p\<rparr>)"
    define s1 where "s1 = log (Log (''passing control to hypervisor binary!'' @ endl))
      (s0\<lparr>l_mem := m', l_log := (l_log s @ [Log_hex ''hypervisor mapped @ '' p]) @ [Log_hex ''elf base @'' p],
         hypervisor_main := p + e_entry (rd_ehdr (l_mem s) (visor_real s))\<rparr>)"
    have "s1 = handed_over p (p + e_entry (rd_ehdr (l_mem s) (visor_real s))) m' f s"
      unfolding s1_def s0_def handed_over_def log_def by (rule ldr.equality) simp_all
    moreover have "hypervisor_main s1 = p + e_entry (rd_ehdr (l_mem s) (visor_real s))" by (simp add: s1_def)
    moreover have "efi_loader_map fw k hv s = call_hypervisor hv (hypervisor_main s1) s1"
      using m'(1,2) alloc
      by (simp add: efi_loader_map_def visor_mapper_def[symmetric] call_hypervisor_def s0_def s1_def
          get_entrypoint_def Let_def)
    ultimately show ?thesis by simp
  qed
  then show ?thesis using m'(3) by blast
qed


lemma efi_loader_init_reads:
  assumes "efi_fs_find_file fw violet_path efi_fp_mode_read 0 s = Inr (file, s1)" and "file \<noteq> 0"
    and "get_file_size fw file (l_fw s1) = (efi_success, sz, f2)"
    and "operator_new fw sz (s1\<lparr>visor_file := file, l_fw := f2\<rparr>) = (r, s3)"
    and "fp_read fw file sz (l_fw s3) = (efi_success, bytes, f4)"
  shows "efi_loader_init fw s = Inr (s3\<lparr>visor_real := r, l_mem := store_bytes (l_mem s3) r bytes, l_fw := f4\<rparr>)"
  using assms by (simp add: efi_loader_init_def Let_def)


text \<open>
  C22. When no volume has the file, \<open>efi_loader_init\<close> logs it and returns, and the loader goes on: it
  takes what lies at address 0 for the file. If the two counts there are zero, it copies 64 bytes
  from address 0 to the pages it got and jumps to the word at address 24 relative to them.
\<close>

theorem loader_runs_without_file:
  assumes "efi_fs_find_file fw violet_path efi_fp_mode_read 0 s = Inr (0, s1)"
    and "visor_real s1 = 0" and "load16 (l_mem s1) 56 = 0" and "load16 (l_mem s1) 60 = 0"
    and "unat (load64 (l_mem s1) 32) \<le> 64"
    and "allocate_pages fw allocate_any_pages runtime_services_code 0 (visor_mapped s1) (l_fw s1) = (st, p, f)"
    and "64 \<le> unat p" and "unat p \<le> 2 ^ 64 - 64"
  shows "\<exists>m' l'. bind_ok (efi_loader_init fw s) (efi_loader_map fw k hv)
      = call_hypervisor hv (p + load64 (l_mem s1) 24)
          (handed_over p (p + load64 (l_mem s1) 24) m' f
            (log (Log (''couldn't find hypervisor on disk'' @ endl)) (s1\<lparr>visor_file := 0\<rparr>)))
    \<and> (\<forall>b. m' b = (if unat (b - p) < 64 then l_mem s1 (b - p) else l_mem s1 b))"
proof -
  let ?m = "l_mem s1" and ?s = "log (Log (''couldn't find hypervisor on disk'' @ endl)) (s1\<lparr>visor_file := 0\<rparr>)"
  let ?M = "visor_mapper k ?m 0"
  have init: "efi_loader_init fw s = Inr ?s" using assms(1) by (simp add: efi_loader_init_def Let_def)
  have h: "rd_ehdr ?m 0 = \<lparr>e_entry = load64 ?m 24, e_phoff = load64 ?m 32, e_shoff = load64 ?m 40,
      e_phnum = 0, e_shnum = 0, e_shstrndx = load16 ?m 62\<rparr>" using assms(3,4) by (simp add: rd_ehdr_def)
  have phs: "phdr_list (?M\<lparr>m_mapped := p\<rparr>) ?m = []" by (simp add: phdr_list_def h)
  have sz: "NUM_PAGES (get_mapped_size ?M ?m) = 0"
    by (simp add: get_mapped_size_def h NUM_PAGES_def PAGE_SIZE_def)
  have "m_phdrs ?M = e_phoff (rd_ehdr ?m 0)" by (simp add: visor_mapper_def elf_mapper_new_def)
  moreover have minus: "unat (- p) = 2 ^ 64 - unat p" using unat_uminus[of p] assms(7) by fastforce
  ultimately have ok: "file_ok (?M\<lparr>m_mapped := p\<rparr>) ?m 64"
    using assms(5,7,8) minus by (auto simp: file_ok_def phs h separate_def)
  show ?thesis
    using efi_loader_map_plain[of fw k ?s st p f 64 hv] init ok assms(2,6) phs sz h
    by (auto simp: bind_ok_def image_byte_def)
qed


section \<open>Witnesses\<close>

text \<open>
  A file of 124 bytes with one load segment (four bytes, at 0x100 of the image) and the entry point 0x104,
  and a firmware that finds it on its only volume, gives out pages at 0x100000 (0x200000 for code)
  and has a key pressed.
\<close>

definition boot_file :: "u8 list" where
  "boot_file =
     [0, 0, 0, 0, 0, 0, 0, 0, 0, 0, 0, 0, 0, 0, 0, 0, 0, 0, 0, 0, 0, 0, 0, 0, 4, 1, 0, 0, 0, 0, 0,
      0, 64, 0, 0, 0, 0, 0, 0, 0, 0, 0, 0, 0, 0, 0, 0, 0, 0, 0, 0, 0, 0, 0, 0, 0, 1, 0, 0, 0, 0, 0,
      0, 0, 1, 0, 0, 0, 0, 0, 0, 0, 120, 0, 0, 0, 0, 0, 0, 0, 0, 1, 0, 0, 0, 0, 0, 0, 0, 0, 0, 0, 0,
      0, 0, 0, 4, 0, 0, 0, 0, 0, 0, 0, 8, 0, 0, 0, 0, 0, 0, 0, 0, 0, 0, 0, 0, 0, 0, 0, 170, 187, 204, 221]"

definition boot_efi :: "unit efi" where
  "boot_efi = quiet_efi\<lparr>
     allocate_pages := (\<lambda>_ ty _ _ f. (efi_success, if ty = runtime_services_code then 0x200000 else 0x100000, f)),
     read_key_stroke := (\<lambda>_ f. (\<lparr>scan_code = 0, unicode_char = 32\<rparr>, f)),
     locate_handle_buffer := (\<lambda>g n f. if g = sfsp_guid then (efi_success, 1, (\<lambda>_. 5), f) else (efi_error, n, (\<lambda>_. 0), f)),
     handle_protocol := (\<lambda>_ _ _ f. (efi_success, 5, f)),
     open_volume := (\<lambda>_ _ f. (6, f)),
     get_volume_label := (\<lambda>_ f. ([0], f)),
     fp_open := (\<lambda>_ _ _ _ _ f. (efi_success, 7, f)),
     get_file_size := (\<lambda>_ f. (efi_success, 124, f)),
     fp_read := (\<lambda>_ _ f. (efi_success, boot_file, f))\<rparr>"

lemma length_boot_file [simp]: "length boot_file = 124"
  by (simp add: boot_file_def)

lemma boot_ehdr: "rd_ehdr (store_bytes m r boot_file) r =
   \<lparr>e_entry = 0x104, e_phoff = 64, e_shoff = 0, e_phnum = 1, e_shnum = 0, e_shstrndx = 0\<rparr>"
  using load_bytes_inner[of 24 8 boot_file m r] load_bytes_inner[of 32 8 boot_file m r]
    load_bytes_inner[of 40 8 boot_file m r] load_bytes_inner[of 56 2 boot_file m r]
    load_bytes_inner[of 60 2 boot_file m r] load_bytes_inner[of 62 2 boot_file m r]
  by (simp add: rd_ehdr_def load64_def load16_def) (simp add: boot_file_def)

lemma boot_phdr: "rd_phdr (store_bytes m r boot_file) (r + 64) 0 =
   \<lparr>p_type = 1, p_offset = 120, p_vaddr = 0x100, p_filesz = 4, p_memsz = 8\<rparr>"
  using load_bytes_inner[of 64 4 boot_file m r] load_bytes_inner[of 72 8 boot_file m r]
    load_bytes_inner[of 80 8 boot_file m r] load_bytes_inner[of 96 8 boot_file m r]
    load_bytes_inner[of 104 8 boot_file m r]
  by (simp add: rd_phdr_def load64_def load32_def add.commute) (simp add: boot_file_def)

lemma boot_image:
  defines "M \<equiv> \<lambda>k m r. (visor_mapper k (store_bytes m r boot_file) r)\<lparr>m_mapped := 0x200000\<rparr>"
  assumes "r = 0 \<or> r = 0x100000"
  shows "phdr_list (M k m r) (store_bytes m r boot_file) =
      [\<lparr>p_type = 1, p_offset = 120, p_vaddr = 0x100, p_filesz = 4, p_memsz = 8\<rparr>]"
    and "file_ok (M k m r) (store_bytes m r boot_file) 124"
    and "e_shnum (rd_ehdr (store_bytes m r boot_file) r) = 0"
proof -
  have p: "m_phdrs (M k m r) = r + 64"
    by (simp add: M_def visor_mapper_def elf_mapper_new_def boot_ehdr)
  show l: "phdr_list (M k m r) (store_bytes m r boot_file) =
      [\<lparr>p_type = 1, p_offset = 120, p_vaddr = 0x100, p_filesz = 4, p_memsz = 8\<rparr>]"
    unfolding phdr_list_def p by (simp add: M_def boot_ehdr boot_phdr)
  show "file_ok (M k m r) (store_bytes m r boot_file) 124"
    unfolding file_ok_def l p using assms(2)
    by (auto simp: M_def boot_ehdr is_load_def PT_LOAD_def seg_len_def separate_def)
  show "e_shnum (rd_ehdr (store_bytes m r boot_file) r) = 0" by (simp add: boot_ehdr)
qed

lemma boot_new:
  obtains r s' where "operator_new boot_efi n s = (r, s')" "r = 0 \<or> r = 0x100000" "fs_roots s' = fs_roots s"
    "fs_root_count s' = fs_root_count s"
proof -
  have "entry_address (store_entry t i a q m) t i = a" for t i a q m
    by (simp add: entry_address_def store_entry_def load64_store64_separate load_store_same separate_def)
  then have "fst (operator_new boot_efi n s) = 0 \<or> fst (operator_new boot_efi n s) = 0x100000"
    "fs_roots (snd (operator_new boot_efi n s)) = fs_roots s"
    "fs_root_count (snd (operator_new boot_efi n s)) = fs_root_count s"
    by (simp_all add: operator_new_def efi_allocate_def boot_efi_def Let_def split: option.splits)
  then show ?thesis using that by (cases "operator_new boot_efi n s") simp
qed


definition boot_linkage :: linkage where
  "boot_linkage = \<lparr>imports_at = 0x300000, literals = \<lparr>lit_dynstr = 0x310000, lit_got = 0x311000\<rparr>,
     stubs = (\<lambda>_. 0x400000), tss_at = 0x500000, frame = \<lparr>label = 0x600000, label_c = 0x601000\<rparr>\<rparr>"

definition boot_start :: "unit ldr" where
  "boot_start = ldr_start (\<lambda>_. 0) () \<lparr>dtr_limit = 0, dtr_base = 0x700000\<rparr> \<lparr>dtr_limit = 0x2F, dtr_base = 0x800000\<rparr> 0"

text \<open>A hypervisor that returns the address it was called at.\<close>

definition echo_hypervisor :: "'f hypervisor" where
  "echo_hypervisor = (\<lambda>a i s. Some (a, s))"

lemma boot_find:
  "fs_root_count s = 1 \<Longrightarrow> fs_roots s 0 = 6 \<Longrightarrow>
   efi_fs_find_file boot_efi violet_path efi_fp_mode_read 0 s = Inr (7, s)"
  by (simp add: efi_fs_find_file_def boot_efi_def Let_def)


theorem loader_runs_without_file_witness:
  "\<exists>s'. bind_ok (efi_loader_init boot_efi boot_start)
       (efi_loader_map boot_efi boot_linkage echo_hypervisor) = Inr s'
     \<and> hypervisor_main s' = 0x200000 \<and> l_mem s' 0x200018 = 0"
proof -
  have z: "efi_fs_find_file boot_efi violet_path efi_fp_mode_read 0 boot_start = Inr (0, boot_start)"
    "l_mem boot_start = (\<lambda>_. 0)" "visor_real boot_start = 0"
    by (simp_all add: efi_fs_find_file_def boot_start_def ldr_start_def Let_def)
  have l: "load16 (\<lambda>_. 0) a = 0" "load64 (\<lambda>_. 0) a = 0" for a
    by (simp_all add: load16_def load64_def load_bytes_def upt_rec)
  show ?thesis
    using loader_runs_without_file[OF z(1), where st = efi_success
        and p = "0x200000" and f = "()" and k = boot_linkage and hv = echo_hypervisor] z l
    by (auto simp: boot_efi_def call_hypervisor_def echo_hypervisor_def handed_over_def log_def)
qed


definition boot_screen :: "unit screen" where
  "boot_screen = (let img = \<lparr>image_data = 0x900000, image_width = 256, image_height = 128\<rparr>
     in \<lparr>scr_fw = boot_efi, font = img, logo = img, stale_key = \<lparr>scan_code = 0, unicode_char = 0\<rparr>\<rparr>)"

lemma boot_fs_init:
  "\<exists>s'. efi_fs_init boot_efi (frame boot_linkage) s = Inr s' \<and> fs_root_count s' = 1 \<and> fs_roots s' 0 = 6"
proof -
  have "load16 (store_bytes m a [0, 0]) a = 0" for m a
    using load_store_bytes_same[where m = m and a = a and bs = "[0, 0]" and n = 2] by (simp add: load16_def)
  then have "efi_string_to_cstring a b (store_bytes m a [0, 0]) = Some ((store_bytes m a [0, 0])(b := 0))" for a b m
    by (subst efi_string_to_cstring.simps) simp
  moreover have "to_le 2 (0 :: u16) = [0, 0]" by (simp add: numeral_2_eq_2)
  ultimately have "\<exists>s'. fs_open_root boot_efi fr 0 s = Inr s' \<and> fs_root_count s' = fs_root_count s \<and> fs_roots s' 0 = 6"
    for fr and s :: "unit ldr"
    by (simp add: fs_open_root_def boot_efi_def Let_def)
  then obtain g where g: "fs_open_root boot_efi fr 0 s = Inr (g fr s)" "fs_root_count (g fr s) = fs_root_count s"
    "fs_roots (g fr s) 0 = 6" for fr and s :: "unit ldr" by metis
  have "locate_handle_buffer boot_efi sfsp_guid n f = (efi_success, 1, (\<lambda>_. 5), f)" for n f
    by (simp add: boot_efi_def)
  then show ?thesis by (simp add: efi_fs_init_def g Let_def)
qed

lemma boot_loader:
  assumes "fs_root_count s = 1" and "fs_roots s 0 = 6"
  shows "\<exists>s5 s6. efi_loader_init boot_efi s = Inr s5
    \<and> efi_loader_map boot_efi boot_linkage echo_hypervisor s5 = Inr s6"
proof -
  obtain r s3 where new: "operator_new boot_efi 124 (s\<lparr>visor_file := 7, l_fw := ()\<rparr>) = (r, s3)"
    "r = 0 \<or> r = 0x100000" by (rule boot_new)
  let ?s5 = "s3\<lparr>visor_real := r, l_mem := store_bytes (l_mem s3) r boot_file, l_fw := ()\<rparr>"
  have init: "efi_loader_init boot_efi s = Inr ?s5"
    by (rule efi_loader_init_reads[OF boot_find[OF assms] _ _ new(1)]) (simp_all add: boot_efi_def)
  have "\<exists>m'. efi_loader_map boot_efi boot_linkage echo_hypervisor ?s5
      = call_hypervisor echo_hypervisor (0x200000 + 0x104) (handed_over 0x200000 (0x200000 + 0x104) m' () ?s5)"
    using efi_loader_map_plain[where fw = boot_efi and k = boot_linkage and s = ?s5 and st = efi_success
        and p = "0x200000" and f = "()" and n = 124 and hv = echo_hypervisor] boot_image(2)[OF new(2)]
    by (auto simp: boot_efi_def boot_ehdr)
  then show ?thesis using init by (auto simp: call_hypervisor_def echo_hypervisor_def)
qed

lemma boot_input: "efi_input_wait_for_key boot_efi key s = Some (s\<lparr>l_fw := ()\<rparr>)"
  by (subst efi_input_wait_for_key_def, subst input_loop.simps) (simp add: boot_efi_def Let_def)

lemma boot_main: "\<exists>s'. efi_main boot_screen sdm boot_linkage echo_hypervisor boot_start = Inr (efi_success, s')"
proof -
  let ?fw = boot_efi and ?e = boot_screen
  have fw: "scr_fw ?e = ?fw" by (simp add: boot_screen_def Let_def)
  obtain s1 where s1: "efi_gfx_init ?fw (font ?e) (efi_mp_init ?fw boot_start) = Some s1"
    by (simp add: efi_gfx_init_def boot_efi_def efi_success_def efi_error_def Let_def)
  define s3 where "s3 = efi_gdt_init ?fw sdm (tss_at boot_linkage)
    (efi_idt_init ?fw (stubs boot_linkage) (efi_allocator_init ?fw (efi_console_init ?e s1)))"
  obtain s4 where s4: "efi_fs_init ?fw (frame boot_linkage) s3 = Inr s4" "fs_root_count s4 = 1" "fs_roots s4 0 = 6"
    using boot_fs_init by blast
  obtain s5 s6 where s6: "efi_loader_init ?fw s4 = Inr s5"
    "efi_loader_map ?fw boot_linkage echo_hypervisor s5 = Inr s6" using boot_loader[OF s4(2,3)] by blast
  have "efi_main ?e sdm boot_linkage echo_hypervisor boot_start = bind_ok (efi_fs_init ?fw (frame boot_linkage) s3)
      (\<lambda>s. bind_ok (efi_loader_init ?fw s) (\<lambda>s. bind_ok (efi_loader_map ?fw boot_linkage echo_hypervisor s)
      (\<lambda>s. bind_ok (of_option No_return (efi_input_wait_for_key ?fw (stale_key ?e)
          (log (Log (''loader executed succesfully, press any key to continue...'' @ endl))
            (efi_idt_exit ?fw (efi_gdt_exit s))))) (\<lambda>s. Inr (efi_success, s)))))"
    by (simp only: efi_main_def fw s1 s3_def Let_def of_option_def bind_ok_def option.case sum.case)
  then show ?thesis by (simp add: s4(1) s6 boot_input bind_ok_def of_option_def)
qed

theorem efi_main_restores_tables_witness:
  "\<exists>s'. efi_main boot_screen sdm boot_linkage echo_hypervisor boot_start = Inr (efi_success, s')
     \<and> reg_idtr s' = \<lparr>dtr_limit = 0, dtr_base = 0x700000\<rparr> \<and> reg_gdtr s' = \<lparr>dtr_limit = 0x2F, dtr_base = 0x800000\<rparr>
     \<and> unat (reg_tr s') = 0x30"
proof -
  obtain s' where s': "efi_main boot_screen sdm boot_linkage echo_hypervisor boot_start = Inr (efi_success, s')"
    using boot_main by blast
  have "keeps_loader (echo_hypervisor :: unit hypervisor)" by (simp add: keeps_loader_def echo_hypervisor_def)
  moreover have "reg_idtr boot_start = \<lparr>dtr_limit = 0, dtr_base = 0x700000\<rparr>"
    "reg_gdtr boot_start = \<lparr>dtr_limit = 0x2F, dtr_base = 0x800000\<rparr>"
    by (simp_all add: boot_start_def ldr_start_def Let_def)
  ultimately show ?thesis
    using efi_main_restores_tables[OF _ s' sdm_layouts(2,3)] s' by simp
qed

end
