(* ===== verification/Llist.thy ===== *)
theory Llist
  imports Prelude
begin

text \<open>
  The intrusive list of \<^verbatim>\<open>freestanding/llist.h\<close>. The class is a template, so its layout depends on
  the element type; the nodes live in a store that maps an address to a node, with 0 for
  \<^verbatim>\<open>nullptr\<close>. \<open>head\<close> and \<open>tail\<close> follow pointers without a bound: they are partial functions, and
  \<open>None\<close> is a walk that never returns or that reads a pointer to no node.
\<close>

section \<open>The class lliste\<close>

record 't lliste =
  m_prev :: u64
  m_next :: u64
  m_data :: 't

type_synonym 't store = "u64 \<rightharpoonup> 't lliste"

definition lliste_new :: "'t \<Rightarrow> 't lliste" where
  "lliste_new data = \<lparr>m_prev = 0, m_next = 0, m_data = data\<rparr>"

definition lliste_new_after :: "'t \<Rightarrow> u64 \<Rightarrow> 't lliste" where
  "lliste_new_after data prev = \<lparr>m_prev = prev, m_next = 0, m_data = data\<rparr>"

partial_function (option) llist_head :: "'t store \<Rightarrow> u64 \<Rightarrow> u64 option" where
  "llist_head h cur =
     (case h cur of
        None \<Rightarrow> None
      | Some e \<Rightarrow> if m_prev e \<noteq> 0 then llist_head h (m_prev e) else Some cur)"

partial_function (option) llist_tail :: "'t store \<Rightarrow> u64 \<Rightarrow> u64 option" where
  "llist_tail h cur =
     (case h cur of
        None \<Rightarrow> None
      | Some e \<Rightarrow> if m_next e \<noteq> 0 then llist_tail h (m_next e) else Some cur)"

text \<open>\<open>new_entry\<close> is the address that \<open>operator new\<close> returned.\<close>

definition llist_append :: "u64 \<Rightarrow> u64 \<Rightarrow> 't \<Rightarrow> 't store \<Rightarrow> 't store option" where
  "llist_append new_entry this data h =
     (let h = h(new_entry \<mapsto> lliste_new_after data this)
      in case h this of
           None \<Rightarrow> None
         | Some e \<Rightarrow> Some (h(this \<mapsto> e\<lparr>m_next := new_entry\<rparr>)))"

section \<open>Chains of pointers\<close>

text \<open>The nodes from \<open>p\<close> on along one of the two links, up to the node whose link is null.\<close>

fun chain :: "('t lliste \<Rightarrow> u64) \<Rightarrow> 't store \<Rightarrow> u64 \<Rightarrow> u64 list \<Rightarrow> bool" where
  "chain link h p [] \<longleftrightarrow> False"
| "chain link h p [q] \<longleftrightarrow> q = p \<and> (\<exists>e. h p = Some e \<and> link e = 0)"
| "chain link h p (q # r # rs) \<longleftrightarrow>
     q = p \<and> (\<exists>e. h p = Some e \<and> link e = r \<and> r \<noteq> 0) \<and> chain link h r (r # rs)"

lemma chain_hd: "chain link h p ps \<Longrightarrow> ps \<noteq> [] \<and> hd ps = p"
  by (cases "(link, h, p, ps)" rule: chain.cases) auto

lemma chain_unique: "chain link h p ps \<Longrightarrow> chain link h p qs \<Longrightarrow> ps = qs"
proof (induction link h p ps arbitrary: qs rule: chain.induct)
  case (2 link h p q)
  then show ?case by (cases "(link, h, p, qs)" rule: chain.cases) auto
next
  case (3 link h p q r rs)
  from "3.prems"(2) show ?case
  proof (cases "(link, h, p, qs)" rule: chain.cases)
    case (3 link' h' p' q' r' rs')
    then show ?thesis using "3.IH"[of "r' # rs'"] "3.prems" by auto
  qed (use "3.prems" in auto)
qed simp

lemma chain_Cons:
  "h p = Some e \<Longrightarrow> link e \<noteq> 0 \<Longrightarrow> chain link h (link e) ps \<Longrightarrow> chain link h p (p # ps)"
  using chain_hd[of link h "link e" ps] by (cases ps) auto

text \<open>A chain visits no node twice, so it is no longer than the store is large.\<close>

lemma chain_suffix:
  "chain link h p (ps @ q # qs) \<Longrightarrow> chain link h q (q # qs)"
proof (induction ps arbitrary: p)
  case (Cons x ps)
  then show ?case by (cases ps) auto
next
  case Nil
  then show ?case by (cases qs) auto
qed

lemma chain_distinct: "chain link h p ps \<Longrightarrow> distinct ps"
proof (rule ccontr)
  assume c: "chain link h p ps" and "\<not> distinct ps"
  then obtain xs ys zs q where "ps = xs @ q # ys @ q # zs"
    using not_distinct_decomp[of ps] by auto
  then have "chain link h q (q # ys @ q # zs)" and "chain link h q (q # zs)"
    using chain_suffix[of link h p xs q "ys @ q # zs"] chain_suffix[of link h p "xs @ q # ys" q zs] c
    by auto
  from chain_unique[OF this] show False by (simp add: append_eq_Cons_conv Cons_eq_append_conv)
qed

section \<open>The locale of the two walks\<close>

text \<open>\<open>head\<close> and \<open>tail\<close> are the same walk along different links.\<close>

locale link_walk =
  fixes link :: "'t lliste \<Rightarrow> u64" and walk :: "'t store \<Rightarrow> u64 \<Rightarrow> u64 option"
  assumes walk_step: "walk h p = (case h p of None \<Rightarrow> None
      | Some e \<Rightarrow> if link e \<noteq> 0 then walk h (link e) else Some p)"
    and walk_induct: "walk h p = Some q \<Longrightarrow>
      (\<And>p e. h p = Some e \<Longrightarrow> link e = 0 \<Longrightarrow> P p p) \<Longrightarrow>
      (\<And>p e q. h p = Some e \<Longrightarrow> link e \<noteq> 0 \<Longrightarrow> P (link e) q \<Longrightarrow> P p q) \<Longrightarrow> P p q"
begin

lemma walk_chain: "chain link h p ps \<Longrightarrow> walk h p = Some (last ps)"
proof (induction ps arbitrary: p)
  case (Cons q ps)
  then show ?case by (cases ps) (auto simp: walk_step[of h p])
qed simp

lemma chain_walk: "walk h p = Some q \<Longrightarrow> \<exists>ps. chain link h p ps \<and> last ps = q"
proof (erule walk_induct)
  show "\<exists>ps. chain link h p ps \<and> last ps = p" if "h p = Some e" and "link e = 0" for p e
    using that by (intro exI[of _ "[p]"]) simp
next
  fix p e q
  assume e: "h p = Some e" "link e \<noteq> 0" and "\<exists>ps. chain link h (link e) ps \<and> last ps = q"
  then obtain ps where ps: "chain link h (link e) ps" "last ps = q" by blast
  then have "chain link h p (p # ps)" using e by (intro chain_Cons)
  then show "\<exists>ps. chain link h p ps \<and> last ps = q"
    using ps chain_hd[OF ps(1)] by (intro exI[of _ "p # ps"]) simp
qed

lemma walk_iff: "walk h p = Some q \<longleftrightarrow> (\<exists>ps. chain link h p ps \<and> last ps = q)"
  using walk_chain chain_walk by blast

end

interpretation to_head: link_walk m_prev llist_head
proof unfold_locales
  show "llist_head h p = (case h p of None \<Rightarrow> None
      | Some e \<Rightarrow> if m_prev e \<noteq> 0 then llist_head h (m_prev e) else Some p)"
    for h :: "'a store" and p
    by (rule llist_head.simps)
  show "P p q" if "llist_head h p = Some q"
    and "\<And>p e. h p = Some e \<Longrightarrow> m_prev e = 0 \<Longrightarrow> P p p"
    and "\<And>p e q. h p = Some e \<Longrightarrow> m_prev e \<noteq> 0 \<Longrightarrow> P (m_prev e) q \<Longrightarrow> P p q"
    for h :: "'a store" and p q P
    by (rule llist_head.raw_induct[where P = "\<lambda>h' p q. h' = h \<longrightarrow> P p q", THEN mp, OF _ that(1) refl])
      (auto split: option.splits if_splits intro: that(2,3))
qed

interpretation to_tail: link_walk m_next llist_tail
proof unfold_locales
  show "llist_tail h p = (case h p of None \<Rightarrow> None
      | Some e \<Rightarrow> if m_next e \<noteq> 0 then llist_tail h (m_next e) else Some p)"
    for h :: "'a store" and p
    by (rule llist_tail.simps)
  show "P p q" if "llist_tail h p = Some q"
    and "\<And>p e. h p = Some e \<Longrightarrow> m_next e = 0 \<Longrightarrow> P p p"
    and "\<And>p e q. h p = Some e \<Longrightarrow> m_next e \<noteq> 0 \<Longrightarrow> P (m_next e) q \<Longrightarrow> P p q"
    for h :: "'a store" and p q P
    by (rule llist_tail.raw_induct[where P = "\<lambda>h' p q. h' = h \<longrightarrow> P p q", THEN mp, OF _ that(1) refl])
      (auto split: option.splits if_splits intro: that(2,3))
qed

section \<open>Doubly linked lists\<close>

text \<open>The nodes \<open>ps\<close> in order, linked both ways, null at both ends.\<close>

definition dll :: "'t store \<Rightarrow> u64 list \<Rightarrow> bool" where
  "dll h ps \<longleftrightarrow> ps \<noteq> [] \<and> 0 \<notin> set ps \<and> chain m_next h (hd ps) ps \<and> chain m_prev h (last ps) (rev ps)"

lemma dll_ends:
  assumes "dll h ps" and "p \<in> set ps"
  shows "llist_head h p = Some (hd ps)" and "llist_tail h p = Some (last ps)"
proof -
  obtain xs ys where ps: "ps = xs @ p # ys" using assms(2) by (meson split_list)
  then have "rev ps = rev ys @ p # rev xs" by simp
  then have "chain m_next h p (p # ys)" and "chain m_prev h p (p # rev xs)"
    using assms(1) chain_suffix[of m_next h "hd ps" xs p ys]
      chain_suffix[of m_prev h "last ps" "rev ys" p "rev xs"] ps
    by (auto simp: dll_def)
  then have "llist_tail h p = Some (last (p # ys))" and "llist_head h p = Some (last (p # rev xs))"
    using to_tail.walk_chain to_head.walk_chain by blast+
  then show "llist_head h p = Some (hd ps)" and "llist_tail h p = Some (last ps)"
    using ps by (cases xs; simp add: last_rev)+
qed

lemma chain_update:
  "chain link h p ps \<Longrightarrow> a \<notin> set ps \<Longrightarrow> chain link (h(a := v)) p ps"
proof (induction ps arbitrary: p)
  case (Cons q ps)
  then show ?case by (cases ps) auto
qed simp

lemma chain_same_link:
  "chain link h p ps \<Longrightarrow> h a = Some e \<Longrightarrow> link e' = link e \<Longrightarrow> chain link (h(a \<mapsto> e')) p ps"
proof (induction ps arbitrary: p)
  case (Cons q ps)
  then show ?case by (cases ps) auto
qed simp

lemma chain_extend:
  "chain link h p ps \<Longrightarrow> a \<notin> set ps \<Longrightarrow> a \<noteq> 0 \<Longrightarrow> h a = Some n \<Longrightarrow> link n = 0 \<Longrightarrow>
   h (last ps) = Some e \<Longrightarrow> link e' = a \<Longrightarrow> chain link (h(last ps \<mapsto> e')) p (ps @ [a])"
proof (induction ps arbitrary: p)
  case (Cons q ps)
  show ?case
  proof (cases ps)
    case Nil
    then show ?thesis using Cons.prems by auto
  next
    case (Cons r rs)
    have "q \<noteq> last ps"
      using chain_distinct[OF Cons.prems(1)] Cons by auto
    then show ?thesis using Cons.prems Cons.IH[of r] Cons by auto
  qed
qed simp

text \<open>Appending to the last node extends the list.\<close>

lemma append_last:
  assumes "dll h ps" and "a \<notin> dom h" and "a \<noteq> 0"
  shows "\<exists>h'. llist_append a (last ps) d h = Some h' \<and> dll h' (ps @ [a]) \<and> map_option m_data (h' a) = Some d"
proof -
  let ?h = "h(a \<mapsto> lliste_new_after d (last ps))"
  have ch: "chain m_next h (hd ps) ps" "chain m_prev h (last ps) (rev ps)" "ps \<noteq> []"
    using assms(1) by (auto simp: dll_def)
  have "h q \<noteq> None" if "q \<in> set ps" for q
    using that ch(1) chain_suffix[of m_next h "hd ps"]
    by (metis chain.simps(2,3) neq_Nil_conv option.distinct(1) split_list)
  then have a: "a \<notin> set ps" and "h (last ps) \<noteq> None" using assms(2) ch(3) by auto
  then obtain e where e: "h (last ps) = Some e" "a \<noteq> last ps" using last_in_set[OF ch(3)] by auto
  let ?h' = "?h(last ps \<mapsto> e\<lparr>m_next := a\<rparr>)"
  have run: "llist_append a (last ps) d h = Some ?h'" using e by (simp add: llist_append_def)
  have "chain m_next ?h (hd ps) ps" "chain m_prev ?h (last ps) (rev ps)"
    using ch a by (auto intro: chain_update)
  then have "chain m_next ?h' (hd ps) (ps @ [a])" "chain m_prev ?h' (last ps) (rev ps)"
    using a assms(3) e chain_extend[of m_next ?h "hd ps" ps a "lliste_new_after d (last ps)" e]
      chain_same_link[of m_prev ?h "last ps" "rev ps" "last ps" e "e\<lparr>m_next := a\<rparr>"]
    by (auto simp: lliste_new_after_def)
  moreover have "last ps \<noteq> 0" using assms(1) last_in_set[OF ch(3)] unfolding dll_def by metis
  then have "chain m_prev ?h' a (a # rev ps)"
    using \<open>chain m_prev ?h' (last ps) (rev ps)\<close> e
      chain_Cons[of ?h' a "lliste_new_after d (last ps)" m_prev "rev ps"]
    by (simp add: lliste_new_after_def)
  ultimately have "dll ?h' (ps @ [a])" using assms(1,3) ch(3) by (simp add: dll_def)
  then show ?thesis using run e by (auto simp: lliste_new_after_def)
qed

text \<open>Appending to an inner node drops everything behind it.\<close>

lemma chain_cut:
  "chain link h s (xs @ p # rest) \<Longrightarrow> p \<notin> set xs \<Longrightarrow> a \<notin> set (xs @ [p]) \<Longrightarrow> a \<noteq> 0 \<Longrightarrow>
   link n = 0 \<Longrightarrow> link e' = a \<Longrightarrow> chain link (h(a \<mapsto> n, p \<mapsto> e')) s (xs @ [p, a])"
proof (induction xs arbitrary: s)
  case Nil
  then show ?case by (cases rest) auto
next
  case (Cons x xs)
  then show ?case by (cases xs) auto
qed

lemma append_inner:
  assumes "dll h (xs @ p # rest)" and "a \<notin> dom h" and "a \<noteq> 0"
  shows "\<exists>h'. llist_append a p d h = Some h'
    \<and> chain m_next h' (hd (xs @ p # rest)) (xs @ [p, a]) \<and> llist_tail h' p = Some a"
proof -
  have ch: "chain m_next h (hd (xs @ p # rest)) (xs @ p # rest)"
    using assms(1) by (simp add: dll_def)
  have nodes: "h q \<noteq> None" if q: "q \<in> set (xs @ p # rest)" for q
  proof -
    obtain us vs where "xs @ p # rest = us @ q # vs" using q by (meson split_list)
    then have "chain m_next h q (q # vs)"
      using ch chain_suffix[of m_next h "hd (xs @ p # rest)" us q vs] by simp
    then show ?thesis by (cases vs) auto
  qed
  then have a: "a \<notin> set (xs @ [p])" using assms(2) by auto
  obtain e where e: "h p = Some e" using nodes[of p] by auto
  let ?h' = "h(a \<mapsto> lliste_new_after d p, p \<mapsto> e\<lparr>m_next := a\<rparr>)"
  have "llist_append a p d h = Some ?h'" using a e by (auto simp: llist_append_def)
  moreover have "p \<notin> set xs" using chain_distinct[OF ch] by simp
  then have c: "chain m_next ?h' (hd (xs @ p # rest)) (xs @ [p, a])"
    using a ch assms(3) by (intro chain_cut) (auto simp: lliste_new_after_def)
  moreover have "chain m_next ?h' p [p, a]"
    using c chain_suffix[of m_next ?h' _ xs p "[a]"] by simp
  then have "llist_tail ?h' p = Some a" using to_tail.walk_chain by fastforce
  ultimately show ?thesis by blast
qed

section \<open>Properties\<close>

text \<open>
  C24. The walks of the list end exactly on the lists that end: \<open>tail\<close> (\<open>head\<close>) returns \<open>q\<close> if and
  only if following the next (previous) pointers from \<open>p\<close> leads over finitely many existing nodes to
  \<open>q\<close>, whose pointer is null. On a well linked list both return from every node, with its first
  and its last node. Appending a fresh node to the last node gives a well linked list with one more
  node; appending to any other node makes the new node the tail and the nodes behind it unreachable.
\<close>

theorem llist_walks_terminate:
  "(llist_tail h p = Some q \<longleftrightarrow> (\<exists>ps. chain m_next h p ps \<and> last ps = q))
   \<and> (llist_head h p = Some q \<longleftrightarrow> (\<exists>ps. chain m_prev h p ps \<and> last ps = q))
   \<and> (dll h (xs @ r # ys) \<and> a \<notin> dom h \<and> a \<noteq> 0 \<longrightarrow>
        llist_head h r = Some (hd (xs @ [r])) \<and> llist_tail h r = Some (last (r # ys))
        \<and> (\<exists>h'. llist_append a r d h = Some h' \<and> llist_tail h' r = Some a
             \<and> chain m_next h' (hd (xs @ [r])) (xs @ [r, a])
             \<and> (ys = [] \<longrightarrow> dll h' (xs @ [r, a]))))"
proof (intro conjI impI)
  show "llist_tail h p = Some q \<longleftrightarrow> (\<exists>ps. chain m_next h p ps \<and> last ps = q)"
    by (rule to_tail.walk_iff)
  show "llist_head h p = Some q \<longleftrightarrow> (\<exists>ps. chain m_prev h p ps \<and> last ps = q)"
    by (rule to_head.walk_iff)
next
  assume *: "dll h (xs @ r # ys) \<and> a \<notin> dom h \<and> a \<noteq> 0"
  have hd: "hd (xs @ r # ys) = hd (xs @ [r])" by (cases xs) auto
  show "llist_head h r = Some (hd (xs @ [r]))" "llist_tail h r = Some (last (r # ys))"
    using dll_ends[of h "xs @ r # ys" r] * hd by auto
  obtain h' where h': "llist_append a r d h = Some h'" "llist_tail h' r = Some a"
    "chain m_next h' (hd (xs @ [r])) (xs @ [r, a])"
    using append_inner[of h xs r ys a d] * hd by auto
  moreover have "dll h' (xs @ [r, a])" if "ys = []"
    using append_last[of h "xs @ [r]" a d] * that h' by auto
  ultimately show "\<exists>h'. llist_append a r d h = Some h' \<and> llist_tail h' r = Some a
      \<and> chain m_next h' (hd (xs @ [r])) (xs @ [r, a]) \<and> (ys = [] \<longrightarrow> dll h' (xs @ [r, a]))"
    by blast
qed

theorem llist_walks_terminate_witness:
  "\<exists>h'. llist_append 16 8 CHR ''y'' [8 \<mapsto> lliste_new CHR ''x''] = Some h'
     \<and> dll h' [8, 16] \<and> llist_tail h' 8 = Some 16"
proof -
  have "dll [8 \<mapsto> lliste_new CHR ''x''] [8]" by (simp add: dll_def lliste_new_def)
  then show ?thesis
    using llist_walks_terminate[of "[8 \<mapsto> lliste_new CHR ''x'']" 8 8 "[]" 8 "[]" 16 "CHR ''y''"]
    by auto
qed

end
