(* ===== verification/Services.thy ===== *)
theory Services
  imports Loader
begin

text \<open>
  The hypervisor on top of the loader's services: \<^verbatim>\<open>ldr_malloc\<close>, through which \<^verbatim>\<open>ept_init_core\<close> gets its
  pages, is the loader's \<^verbatim>\<open>imp_malloc\<close>, which forwards to the firmware. What the page table properties
  ask of the pages (\<open>fresh_pages\<close>) follows from what UEFI documents of its page service (\<open>page_service\<close>).
\<close>

section \<open>A source of pages\<close>

text \<open>The state after \<open>k\<close> requests of a page, and the answer to the next one.\<close>

primrec after_requests :: "('s \<Rightarrow> u64 \<times> 's) \<Rightarrow> 's \<Rightarrow> nat \<Rightarrow> 's" where
  "after_requests req s 0 = s"
| "after_requests req s (Suc k) = snd (req (after_requests req s k))"

definition answer :: "('s \<Rightarrow> u64 \<times> 's) \<Rightarrow> 's \<Rightarrow> nat \<Rightarrow> u64" where
  "answer req s k = fst (req (after_requests req s k))"

text \<open>
  What a builder of tables relies on: a request keeps what is given out, and an answer other than
  null is an aligned page that was not given out before and is from then on.
\<close>

locale page_source =
  fixes req :: "'s \<Rightarrow> u64 \<times> 's" and own :: "'s \<Rightarrow> u64 set" and sound :: "'s \<Rightarrow> bool"
  assumes keeps: "sound s \<Longrightarrow> sound (snd (req s)) \<and> own s \<subseteq> own (snd (req s))"
    and new_page: "sound s \<Longrightarrow> fst (req s) \<noteq> 0 \<Longrightarrow>
      page_aligned (fst (req s)) \<and> span (fst (req s)) 1 \<inter> own s = {} \<and> span (fst (req s)) 1 \<subseteq> own (snd (req s))"
begin

lemma after_sound: "sound s \<Longrightarrow> sound (after_requests req s k)"
  by (induction k) (simp_all add: keeps)

lemma after_own: "sound s \<Longrightarrow> j \<le> k \<Longrightarrow> own (after_requests req s j) \<subseteq> own (after_requests req s k)"
proof (induction k)
  case (Suc k)
  then show ?case using keeps[OF after_sound[OF Suc.prems(1), of k]] by (cases "j = Suc k") (simp, force)
qed simp

lemma answer_new:
  assumes "sound s" "answer req s k \<noteq> 0"
  shows "page_aligned (answer req s k)" "span (answer req s k) 1 \<inter> own (after_requests req s k) = {}"
    "span (answer req s k) 1 \<subseteq> own (after_requests req s (Suc k))"
  using new_page[OF after_sound[OF assms(1)]] assms(2) by (simp_all add: answer_def)

lemma answer_not_owned:
  assumes "sound s" "answer req s k \<noteq> 0" "b \<in> own s"
  shows "page_of b \<noteq> page_of (answer req s k)"
proof
  assume "page_of b = page_of (answer req s k)"
  then have "b \<in> span (answer req s k) 1"
    using page_offset[OF answer_new(1)[OF assms(1,2)], of b] by (simp add: span_def)
  then show False using answer_new(2)[OF assms(1,2)] after_own[OF assms(1), of 0 k] assms(3) by auto
qed

lemma answers_differ:
  assumes "sound s" "j < k" "answer req s j \<noteq> 0" "answer req s k \<noteq> 0"
  shows "answer req s j \<noteq> answer req s k"
proof -
  have "answer req s j \<in> span (answer req s j) 1" by (simp add: span_self)
  then have "answer req s j \<in> own (after_requests req s k)"
    using answer_new(3)[OF assms(1,3)] after_own[OF assms(1), of "Suc j" k] assms(2) by (meson Suc_leI subsetD)
  moreover have "answer req s k \<in> span (answer req s k) 1" by (simp add: span_self)
  ultimately show ?thesis using answer_new(2)[OF assms(1,4)] by (metis disjoint_iff)
qed

lemma answers_fresh:
  assumes "sound s" "\<forall>k < n. answer req s k \<noteq> 0 \<and> unat (answer req s k) < 2 ^ 48"
  shows "fresh_pages (answer req s) n"
proof -
  have "usable_page (answer req s k)" if "k < n" for k
    using answer_new(1)[OF assms(1)] assms(2) that by (simp add: usable_page_def)
  moreover have "inj_on (answer req s) {..<n}"
    by (rule linorder_inj_onI) (use assms(2) answers_differ[OF assms(1)] in auto)
  ultimately show ?thesis by (simp add: fresh_pages_def)
qed

end

section \<open>The pages the loader gives to the hypervisor\<close>

text \<open>One page from \<open>imp_malloc\<close>, for a loader on the firmware \<open>fw\<close>.\<close>

definition malloc_page :: "('f efi \<times> ('f \<Rightarrow> u64 set)) \<times> 'f ldr \<Rightarrow> u64 \<times> ('f efi \<times> ('f \<Rightarrow> u64 set)) \<times> 'f ldr" where
  "malloc_page x = (case x of (c, l) \<Rightarrow> case imp_malloc (fst c) 0x1000 l of (p, l) \<Rightarrow> (p, (c, l)))"

lemma num_pages_one: "NUM_PAGES 0x1000 = 1"
  by (simp add: NUM_PAGES_def PAGE_SIZE_def)

lemma imp_malloc_page:
  assumes "page_service fw owned" "imp_malloc fw 0x1000 l = (p, l')"
  shows "owned (l_fw l) \<subseteq> owned (l_fw l')"
    and "p \<noteq> 0 \<Longrightarrow> page_aligned p \<and> span p 1 \<inter> owned (l_fw l) = {} \<and> span p 1 \<subseteq> owned (l_fw l')"
proof -
  obtain st a g where c: "allocate_pages fw allocate_any_pages runtime_services_code 1 0 (l_fw l) = (st, a, g)"
    by (rule prod_cases3)
  have p: "p = a" "l_fw l' = g"
    using c assms(2) by (auto simp: imp_malloc_def num_pages_one Let_def log_def split: if_splits)
  have "if st = efi_success
      then a \<noteq> 0 \<and> page_aligned a \<and> unat a + unat (1 :: u64) * 4096 \<le> 2 ^ 64
        \<and> span a 1 \<inter> owned (l_fw l) = {} \<and> span a 1 \<union> owned (l_fw l) \<subseteq> owned g
      else a = 0 \<and> owned (l_fw l) \<subseteq> owned g"
    using assms(1) c unfolding page_service_def by blast
  then show "owned (l_fw l) \<subseteq> owned (l_fw l')"
    "p \<noteq> 0 \<Longrightarrow> page_aligned p \<and> span p 1 \<inter> owned (l_fw l) = {} \<and> span p 1 \<subseteq> owned (l_fw l')"
    unfolding p by (auto split: if_splits)
qed

interpretation imp_pages: page_source malloc_page "\<lambda>(c, l). snd c (l_fw l)" "\<lambda>(c, l). page_service (fst c) (snd c)"
proof unfold_locales
  fix x :: "('a efi \<times> ('a \<Rightarrow> u64 set)) \<times> 'a ldr"
  obtain c l where x: "x = (c, l)" by (rule prod.exhaust)
  obtain p l' where call: "imp_malloc (fst c) 0x1000 l = (p, l')" by (rule prod.exhaust)
  have page: "malloc_page (c, l) = (p, (c, l'))" by (simp add: malloc_page_def call)
  assume "case x of (c, l) \<Rightarrow> page_service (fst c) (snd c)"
  then have s: "page_service (fst c) (snd c)" by (simp add: x)
  note m = imp_malloc_page[OF s call]
  show "(case snd (malloc_page x) of (c, l) \<Rightarrow> page_service (fst c) (snd c))
      \<and> (case x of (c, l) \<Rightarrow> snd c (l_fw l)) \<subseteq> (case snd (malloc_page x) of (c, l) \<Rightarrow> snd c (l_fw l))"
    using s m(1) by (simp add: x page)
  assume "fst (malloc_page x) \<noteq> 0"
  then show "page_aligned (fst (malloc_page x)) \<and> span (fst (malloc_page x)) 1 \<inter> (case x of (c, l) \<Rightarrow> snd c (l_fw l)) = {}
      \<and> span (fst (malloc_page x)) 1 \<subseteq> (case snd (malloc_page x) of (c, l) \<Rightarrow> snd c (l_fw l))"
    using m(2) by (simp add: x page)
qed

text \<open>The loader's state after \<open>k\<close> calls for one page, and the answer to the next one.\<close>

primrec malloc_state :: "'f efi \<Rightarrow> 'f ldr \<Rightarrow> nat \<Rightarrow> 'f ldr" where
  "malloc_state fw l 0 = l"
| "malloc_state fw l (Suc k) = snd (imp_malloc fw 0x1000 (malloc_state fw l k))"

definition malloc_oracle :: "'f efi \<Rightarrow> 'f ldr \<Rightarrow> page_oracle" where
  "malloc_oracle fw l k = fst (imp_malloc fw 0x1000 (malloc_state fw l k))"

lemma malloc_answer: "answer malloc_page ((fw, owned), l) = malloc_oracle fw l"
proof
  fix k
  have "after_requests malloc_page ((fw, owned), l) k = ((fw, owned), malloc_state fw l k)"
    by (induction k) (simp_all add: malloc_page_def case_prod_unfold)
  then show "answer malloc_page ((fw, owned), l) k = malloc_oracle fw l k"
    by (simp add: answer_def malloc_oracle_def malloc_page_def case_prod_unfold)
qed

text \<open>\<open>n\<close> calls that were all answered, with physical memory below \<open>2 ^ 48\<close>.\<close>

definition pages_granted :: "'f efi \<Rightarrow> 'f ldr \<Rightarrow> nat \<Rightarrow> bool" where
  "pages_granted fw l n \<longleftrightarrow> (\<forall>k < n. malloc_oracle fw l k \<noteq> 0 \<and> unat (malloc_oracle fw l k) < 2 ^ 48)"

lemma malloc_fresh: "page_service fw owned \<Longrightarrow> pages_granted fw l n \<Longrightarrow> fresh_pages (malloc_oracle fw l) n"
  using imp_pages.answers_fresh[of "((fw, owned), l)" n] by (simp add: malloc_answer pages_granted_def)

lemma malloc_other_page:
  "page_service fw owned \<Longrightarrow> pages_granted fw l n \<Longrightarrow> k < n \<Longrightarrow> b \<in> owned (l_fw l) \<Longrightarrow>
     page_of b \<noteq> page_of (malloc_oracle fw l k)"
  using imp_pages.answer_not_owned[of "((fw, owned), l)" k b] by (simp add: malloc_answer pages_granted_def)

section \<open>Properties\<close>

text \<open>
  C6. The page tables of the hypervisor on the loader's service: when every request is answered with memory
  below \<open>2 ^ 48\<close>, \<^verbatim>\<open>imp_malloc\<close> hands out distinct aligned pages, so the tables are well formed. The
  construction changes no word of memory that the firmware had given out before (the image of the hypervisor,
  the core state, the allocations of the loader), and a guest physical address in a split block below
  512 GB is mapped to itself.
\<close>

theorem page_tables_from_firmware:
  assumes "page_service fw owned" "pages_granted fw l (pd_index d mt 512)"
    and "ept_layout d" "memory_types d" "allocs s = 0"
  defines "s' \<equiv> ept_init_core d mt (malloc_oracle fw l) s"
  shows "(aligned8 b \<and> b \<in> owned (l_fw l) \<longrightarrow> load64 (emem s') b = load64 (emem s) b)
    \<and> (unat a < 2 ^ 39 \<and> mt (a AND NOT (mask 21)) 0x200000 = cst d MEMORY_TYPE_INVALID \<longrightarrow>
         sdm_translate (emem s') (core_ept_ptr s') a = Some (a, take_bit 3 (mt (a AND NOT (mask 12)) 0x1000)))"
proof (intro conjI impI)
  note fresh = malloc_fresh[OF assms(1,2)]
  show "sdm_translate (emem s') (core_ept_ptr s') a = Some (a, take_bit 3 (mt (a AND NOT (mask 12)) 0x1000))"
    if "unat a < 2 ^ 39 \<and> mt (a AND NOT (mask 21)) 0x200000 = cst d MEMORY_TYPE_INVALID"
    unfolding s'_def using that by (intro split_identity[OF assms(3-5) fresh]) simp_all
  assume b: "aligned8 b \<and> b \<in> owned (l_fw l)"
  then have "page_of b \<notin> (page_of \<circ> malloc_oracle fw l) ` {..<pd_index d mt 512}"
    using malloc_other_page[OF assms(1,2)] by auto
  then show "load64 (emem s') b = load64 (emem s) b"
    using ept_init_core_image(5)[OF assms(3-5) fresh] b unfolding s'_def Ept.frame_def by blast
qed

text \<open>The firmware that grants pages upwards from 1 MB.\<close>

lemma bump_malloc:
  assumes "l_fw l = 0x100000" and "k < 0x200000"
  shows "l_fw (malloc_state (bump quiet_efi) l k) = 0x100000 + of_nat k * 4096"
    and "malloc_oracle (bump quiet_efi) l k = 0x100000 + of_nat k * 4096"
    and "unat (0x100000 + of_nat k * 4096 :: u64) = 0x100000 + k * 4096"
proof -
  have u: "unat (0x100000 + of_nat j * 4096 :: u64) = 0x100000 + j * 4096" if "j < 0x200000" for j
  proof -
    have "0x100000 + of_nat j * 4096 = (of_nat (0x100000 + j * 4096) :: u64)" by simp
    then show ?thesis using that by (simp only:) (rule unat_of_nat_small, simp)
  qed
  have step: "imp_malloc (bump quiet_efi) 0x1000 t = (l_fw t, t\<lparr>l_fw := l_fw t + 4096\<rparr>)"
    if "l_fw t = 0x100000 + of_nat j * 4096" "j < 0x200000" for t j
  proof -
    have "l_fw t \<noteq> 0" "unat (l_fw t) + 4096 < 2 ^ 64" "page_aligned (l_fw t)"
      using u[OF that(2)] that by (auto simp: that(1) word_unat_eq_iff page_aligned_dvd intro!: dvd_add)
    then show ?thesis
      by (simp add: imp_malloc_def bump_def num_pages_one Let_def)
  qed
  show e: "l_fw (malloc_state (bump quiet_efi) l k) = 0x100000 + of_nat k * 4096" using assms(2)
  proof (induction k)
    case (Suc k)
    then show ?case using step[of "malloc_state (bump quiet_efi) l k" k] by (simp add: algebra_simps)
  qed (simp add: assms(1))
  show "malloc_oracle (bump quiet_efi) l k = 0x100000 + of_nat k * 4096"
    using step[OF e assms(2)] by (simp add: malloc_oracle_def e)
  show "unat (0x100000 + of_nat k * 4096 :: u64) = 0x100000 + k * 4096" by (rule u[OF assms(2)])
qed

theorem page_tables_from_firmware_witness:
  "load64 (emem (ept_init_core sdm sample_types_fn (malloc_oracle (bump quiet_efi) (fresh_heap\<lparr>l_fw := 0x100000\<rparr>)) sample_env)) 0x8000 =
     load64 (emem sample_env) 0x8000"
proof -
  let ?l = "fresh_heap\<lparr>l_fw := 0x100000\<rparr>"
  have "pages_granted (bump quiet_efi) ?l (pd_index sdm sample_types_fn 512)"
    unfolding pages_granted_def
  proof (intro allI impI)
    fix k assume "k < pd_index sdm sample_types_fn 512"
    then have k: "k < 0x200000" using pd_index_le[of sdm sample_types_fn 512] by simp
    note b = bump_malloc(2,3)[of ?l, OF _ k]
    show "malloc_oracle (bump quiet_efi) ?l k \<noteq> 0 \<and> unat (malloc_oracle (bump quiet_efi) ?l k) < 2 ^ 48"
      using b k by (simp add: word_unat_eq_iff)
  qed
  then show ?thesis
    using page_tables_from_firmware[OF bump_service, of quiet_efi ?l sdm sample_types_fn sample_env "0x8000" 0]
    by (simp add: sample_env_def below_def aligned8_def)
qed

end
