(* ===== verification/Exits.thy ===== *)
theory Exits
  imports Visor
begin

text \<open>
  The exit handler as a whole: \<^verbatim>\<open>hypervisor/host.S\<close> around \<^verbatim>\<open>host_vmexit\<close>. An exit loads the stack
  pointer of the VMCS, the entry point pushes the guest's registers, calls the handler, pops the
  registers and resumes the guest. What the guest does between two exits, the VMRESUME instruction,
  the stack frames of the compiled handler and the addresses the linker chooses are parameters. The call
  goes through the pointer \<^verbatim>\<open>host_vmexit_ptr\<close>, which nothing in the sources sets.
\<close>

section \<open>The way back\<close>

definition pop64 :: "mem \<times> u64 \<Rightarrow> u64 \<times> (mem \<times> u64)" where
  "pop64 ms = (case ms of (m, rsp) \<Rightarrow> (load64 m rsp, (m, rsp + 8)))"

text \<open>The popped values in the order of the pops, which is the reverse of the pushes.\<close>

fun pop_regs :: "nat \<Rightarrow> mem \<times> u64 \<Rightarrow> u64 list \<times> (mem \<times> u64)" where
  "pop_regs 0 ms = ([], ms)"
| "pop_regs (Suc n) ms =
     (case pop64 ms of (v, ms) \<Rightarrow> case pop_regs n ms of (vs, ms) \<Rightarrow> (v # vs, ms))"

text \<open>
  What follows an exit: the guest runs again with its registers, the processor stays in the
  \<^verbatim>\<open>int 3; hlt\<close> loop behind a failed \<^verbatim>\<open>vmresume\<close>, or a call or return led to another address.
\<close>

datatype 'v exit_outcome = Resumed "u64 list" "'v cpu_env" | Halted "'v cpu_env" | Astray u64

record 'v exit_env =
  resume_op :: "'v \<Rightarrow> 'v launch"
  call_frame :: "u64 \<Rightarrow> mem \<Rightarrow> mem"
  return_to :: u64
  host_vmexit_ptr :: u64
  host_vmexit_at :: u64

definition host_stack_pointer :: "'v machine \<Rightarrow> 'v \<Rightarrow> u64" where
  "host_stack_pointer M v = cpu_vmxread_value M v (Host VMCS_HOST_RSP)"

definition host_exit :: "'v machine \<Rightarrow> 'v exit_env \<Rightarrow> u64 list \<Rightarrow> 'v cpu_env \<Rightarrow> 'v exit_outcome" where
  "host_exit M X gp_regs s =
     (let R = host_stack_pointer M (vmx s);
          target = load64 (fst (fold push64 gp_regs (cmem s, R))) (host_vmexit_ptr X)
      in if target \<noteq> host_vmexit_at X then Astray target
         else case host_hv_entrypoint gp_regs (return_to X) (cmem s, R) of (m, rsp) \<Rightarrow>
           let s = host_vmexit M (s\<lparr>cmem := m\<rparr>);
               s = s\<lparr>cmem := call_frame X rsp (cmem s)\<rparr>;
               (return_address, (m, rsp)) = pop64 (cmem s, rsp)
           in if return_address \<noteq> return_to X then Astray return_address
              else case pop_regs 15 (m, rsp + 0x20) of
                (regs, _) \<Rightarrow>
                  (case resume_op X (vmx s) of
                     Guest_runs v \<Rightarrow> Resumed (rev regs) (s\<lparr>vmx := v\<rparr>)
                   | Launch_fails zf cf v \<Rightarrow> Halted (s\<lparr>vmx := v\<rparr>)))"

section \<open>The stack\<close>

lemma push64_pair [simp]: "push64 v (m, rsp) = (store64 m (rsp - 8) v, rsp - 8)"
  by (simp add: push64_def)

lemma fold_push64_pointer: "snd (fold push64 vs (m, R)) = R - 8 * of_nat (length vs)"
proof (induction vs arbitrary: m R)
  case (Cons v vs)
  show ?case by (simp add: Cons.IH algebra_simps)
qed simp

text \<open>Pops undo pushes as long as the pushed words are still there.\<close>

lemma pop_push_regs:
  assumes "8 * length vs < 2 ^ 64"
    and "\<And>x. unat (x - (R - 8 * of_nat (length vs))) < 8 * length vs \<Longrightarrow> m' x = fst (fold push64 vs (m, R)) x"
  shows "pop_regs (length vs) (m', R - 8 * of_nat (length vs)) = (rev vs, (m', R))"
  using assms
proof (induction vs rule: rev_induct)
  case (snoc v vs)
  let ?n = "length vs" and ?P = "R - 8 * of_nat (length vs)"
  obtain m1 where f: "fold push64 vs (m, R) = (m1, ?P)"
    using fold_push64_pointer[of vs m R] by (cases "fold push64 vs (m, R)") simp
  have top: "R - 8 * of_nat (length (vs @ [v])) = ?P - 8" by (simp add: algebra_simps)
  have m': "m' x = store64 m1 (?P - 8) v x" if "unat (x - (?P - 8)) < 8 * ?n + 8" for x
    using snoc.prems(2)[of x, unfolded top] that f by simp
  have "load64 m' (?P - 8) = load64 (store64 m1 (?P - 8) v) (?P - 8)"
    by (rule load64_cong, rule m') (simp add: unat_of_nat_small)
  then have first: "load64 m' (?P - 8) = v" by (simp add: load_store_same)
  have "m' x = m1 x" if x: "unat (x - ?P) < 8 * ?n" for x
  proof -
    have e: "x - (?P - 8) = x - ?P + of_nat 8" by simp
    have "unat (x - ?P + of_nat 8) = unat (x - ?P) + 8"
      by (rule unat_add_of_nat_less[of _ 9]) (use x snoc.prems(1) in simp_all)
    then have u: "unat (x - (?P - 8)) = unat (x - ?P) + 8" unfolding e .
    then show ?thesis using m'[of x] x by (simp add: store64_def store_bytes_def)
  qed
  then have "pop_regs ?n (m', ?P) = (rev vs, (m', R))"
    using snoc.IH snoc.prems(1) f by simp
  then show ?case using first by (simp only: top) (simp add: pop64_def)
qed simp

section \<open>One exit\<close>

text \<open>
  What the calling convention says of the compiled handler: it keeps its return address and
  everything above the 32 bytes of home space that its caller left for it. It does not write the
  pointer either, since nothing in the sources does.
\<close>

definition frame_ok :: "'v exit_env \<Rightarrow> bool" where
  "frame_ok X \<longleftrightarrow>
     (\<forall>rsp m x. unat (x - rsp) < 8 \<or> 40 \<le> unat (x - rsp) \<and> unat (x - rsp) < 160 \<longrightarrow> call_frame X rsp m x = m x)
   \<and> (\<forall>rsp m. load64 (call_frame X rsp m) (host_vmexit_ptr X) = load64 m (host_vmexit_ptr X))"

text \<open>The pointer leads to the handler, and lies outside of the 160 bytes of stack that an exit uses.\<close>

definition pointer_set :: "'v exit_env \<Rightarrow> 'v cpu_env \<Rightarrow> bool" where
  "pointer_set X s \<longleftrightarrow> load64 (cmem s) (host_vmexit_ptr X) = host_vmexit_at X"

definition stack_clear :: "'v machine \<Rightarrow> 'v exit_env \<Rightarrow> 'v \<Rightarrow> bool" where
  "stack_clear M X v \<longleftrightarrow> separate (host_stack_pointer M v - 160) 160 (host_vmexit_ptr X) 8"

lemma outside_stack:
  assumes "separate (R - 160) 160 p 8"
  shows "length gp = 15 \<Longrightarrow> load64 (fst (fold push64 gp (m, R))) p = load64 m p"
    and "load64 (store64 m (R - 160) v) p = load64 m p"
proof -
  have b: "160 \<le> unat (p + of_nat i - (R - 160))" if "i < 8" for i by (rule separate_offset[OF assms that])
  show "load64 (store64 m (R - 160) v) p = load64 m p"
  proof (rule load64_cong)
    fix i :: nat assume "i < 8"
    then show "store64 m (R - 160) v (p + of_nat i) = m (p + of_nat i)" using b[of i] by (simp add: store64_def store_bytes_def)
  qed
  assume gp: "length gp = 15"
  show "load64 (fst (fold push64 gp (m, R))) p = load64 m p"
  proof (rule load64_cong)
    fix i :: nat assume "i < 8"
    let ?x = "p + of_nat i - (R - 160)"
    have e: "R - 1 - (p + of_nat i) = 159 - ?x" by simp
    have "unat (159 - ?x) = 159 + 2 ^ 64 - unat ?x"
      using unat_sub_if_size[of 159 ?x] b[OF \<open>i < 8\<close>] by (simp add: word_size)
    then have "120 \<le> unat (R - 1 - (p + of_nat i))" unfolding e using unat_lt64[of ?x] by linarith
    then show "fst (fold push64 gp (m, R)) (p + of_nat i) = m (p + of_nat i)"
      using pushes_outside[of gp m R "p + of_nat i"] gp by simp
  qed
qed

definition exit_reason :: "'v machine \<Rightarrow> 'v \<Rightarrow> u64" where
  "exit_reason M v = get_m (doc M) (Reg Reason_basic_exit_reason) (cpu_vmxread_value M v (Info VMCS_EXIT_REASON))"

lemma vmexit_keeps [simp]:
  "cmem (host_vmexit M s) = cmem s" "cregs (host_vmexit M s) = cregs s" "vmx (host_vmexit M s) = vmx s"
  "mallocs (host_vmexit M s) = mallocs s"
  by (simp_all add: host_vmexit_def Let_def case_prod_unfold split: sum.splits)

definition read_log :: "'v machine \<Rightarrow> vmcs_field \<Rightarrow> 'v \<Rightarrow> cpu_event list" where
  "read_log M f v = (case vmread_op (ops M) (vmcs_enc (doc M) f) v of
     ((zf, cf), _) \<Rightarrow> if vmx_error_tail zf cf \<noteq> 0 then [Vmxread_failed (vmcs_enc (doc M) f)] else [])"

lemma vmxread_logs [simp]:
  "clog (snd (cpu_vmxread M f s)) = clog s @ read_log M f (vmx s)"
  "fst (cpu_vmxread M f s) = cpu_vmxread_value M (vmx s) f"
  by (simp_all add: cpu_vmxread_def read_log_def say_def split: prod.splits)

lemma vmexit_logs: "\<exists>es fs. clog (host_vmexit M s) = clog s @ es @ Exit_reason (exit_reason M (vmx s)) # fs"
  by (rule exI[of _ "read_log M (Info VMCS_EXIT_REASON) (vmx s)"])
    (simp add: host_vmexit_def Let_def case_prod_unfold say_def exit_reason_def split: sum.splits)

text \<open>What happens on the stack, then the exit as a whole.\<close>

lemma host_exit_stack:
  assumes "frame_ok X" and "length gp = 15" and "separate (R - 160) 160 (host_vmexit_ptr X) 8"
  obtains m1 m2 where "host_hv_entrypoint gp (return_to X) (m, R) = (m1, R - 160)"
    and "m2 = call_frame X (R - 160) m1" and "load64 m2 (R - 160) = return_to X"
    and "pop_regs 15 (m2, R - 120) = (rev gp, (m2, R))"
    and "load64 m2 (host_vmexit_ptr X) = load64 m (host_vmexit_ptr X)"
proof -
  obtain m0 where f: "fold push64 gp (m, R) = (m0, R - 120)"
    using fold_push64_pointer[of gp m R] assms(2) by (cases "fold push64 gp (m, R)") simp
  let ?m = "store64 m0 (R - 160) (return_to X)"
  let ?m2 = "call_frame X (R - 160) ?m"
  have "load64 ?m2 (R - 160) = load64 ?m (R - 160)"
    by (rule load64_cong) (use assms(1) in \<open>simp add: frame_ok_def unat_of_nat_small\<close>)
  moreover have "?m2 x = fst (fold push64 gp (m, R)) x" if x: "unat (x - (R - 8 * of_nat (length gp))) < 8 * length gp" for x
  proof -
    have x': "unat (x - (R - 120)) < 120" using x by (simp add: assms(2))
    have "x - (R - 160) = x - (R - 120) + of_nat 40" by simp
    also have "unat \<dots> = unat (x - (R - 120)) + 40"
      by (rule unat_add_of_nat_less[of _ 41]) (use x' in simp_all)
    finally show ?thesis using assms(1) x' by (simp add: f frame_ok_def store64_def store_bytes_def)
  qed
  then have "pop_regs 15 (?m2, R - 120) = (rev gp, (?m2, R))"
    using pop_push_regs[of gp R ?m2 m] assms(2) by simp
  moreover have "load64 ?m2 (host_vmexit_ptr X) = load64 m (host_vmexit_ptr X)"
    using assms(1) outside_stack[OF assms(3)] outside_stack(1)[OF assms(3,2), of m] f by (simp add: frame_ok_def)
  ultimately show thesis by (intro that[of ?m ?m2]) (simp_all add: host_hv_entrypoint_def f load_store_same)
qed

lemma host_exit_resumes:
  assumes "frame_ok X" and "length gp = 15" and "resume_op X (vmx s) = Guest_runs v"
    and "stack_clear M X (vmx s)" and "pointer_set X s"
  shows "\<exists>m m'. host_exit M X gp s = Resumed gp ((host_vmexit M (s\<lparr>cmem := m\<rparr>))\<lparr>cmem := m', vmx := v\<rparr>)
     \<and> load64 m' (host_vmexit_ptr X) = host_vmexit_at X"
proof -
  define R where "R = host_stack_pointer M (vmx s)"
  have sep: "separate (R - 160) 160 (host_vmexit_ptr X) 8" using assms(4) by (simp add: stack_clear_def R_def)
  obtain m1 m2 where m: "host_hv_entrypoint gp (return_to X) (cmem s, R) = (m1, R - 160)"
    "m2 = call_frame X (R - 160) m1" "load64 m2 (R - 160) = return_to X"
    "pop_regs 15 (m2, R - 120) = (rev gp, (m2, R))" "load64 m2 (host_vmexit_ptr X) = host_vmexit_at X"
    using host_exit_stack[OF assms(1,2) sep, of "cmem s"] assms(5) by (metis pointer_set_def)
  have "load64 (fst (fold push64 gp (cmem s, R))) (host_vmexit_ptr X) = host_vmexit_at X"
    using outside_stack(1)[OF sep assms(2)] assms(5) by (simp add: pointer_set_def)
  then have "host_exit M X gp s = Resumed gp ((host_vmexit M (s\<lparr>cmem := m1\<rparr>))\<lparr>cmem := m2, vmx := v\<rparr>)"
    using assms(3) m(2)[symmetric] m(1,3,4) by (simp add: host_exit_def R_def[symmetric] pop64_def Let_def)
  then show ?thesis using m(5) by blast
qed

lemma host_exit_astray:
  assumes "length gp = 15" "stack_clear M X (vmx s)" "\<not> pointer_set X s"
  shows "host_exit M X gp s = Astray (load64 (cmem s) (host_vmexit_ptr X))"
  using assms(3) outside_stack(1)[OF assms(2)[unfolded stack_clear_def] assms(1)]
  by (simp add: host_exit_def pointer_set_def)

section \<open>The run of a guest\<close>

text \<open>
  The guest runs with its registers, the handler is about to run, or neither runs again. \<open>G\<close> relates
  the registers and the state at an entry into the guest to those at its next exit.
\<close>

datatype 'v hv_state = In_guest_mode "u64 list" "'v cpu_env" | At_exit "u64 list" "'v cpu_env"
  | In_hlt_loop "'v cpu_env" | Lost u64

inductive hv_step ::
    "'v machine \<Rightarrow> 'v exit_env \<Rightarrow> (u64 list \<times> 'v cpu_env \<Rightarrow> u64 list \<times> 'v cpu_env \<Rightarrow> bool) \<Rightarrow> 'v hv_state \<Rightarrow> 'v hv_state \<Rightarrow> bool"
  for M X G where
  guest_exits: "G (gp, s) (gp', s') \<Longrightarrow> length gp' = 15 \<Longrightarrow> hv_step M X G (In_guest_mode gp s) (At_exit gp' s')"
| resumes: "host_exit M X gp s = Resumed gp' s' \<Longrightarrow> hv_step M X G (At_exit gp s) (In_guest_mode gp' s')"
| resume_fails: "host_exit M X gp s = Halted s' \<Longrightarrow> hv_step M X G (At_exit gp s) (In_hlt_loop s')"
| goes_astray: "host_exit M X gp s = Astray a \<Longrightarrow> hv_step M X G (At_exit gp s) (Lost a)"
| waits: "hv_step M X G (In_hlt_loop s) (In_hlt_loop s)"

inductive_cases guest_step: "hv_step M X G (In_guest_mode gp s) t"
inductive_cases exit_step: "hv_step M X G (At_exit gp s) t"

text \<open>
  A guest whose next instruction exits and does not change what the VMCS holds about it, nor the
  pointer to the handler.
\<close>

definition exits_in_place ::
    "'v exit_env \<Rightarrow> (u64 list \<times> 'v cpu_env \<Rightarrow> u64 list \<times> 'v cpu_env \<Rightarrow> bool) \<Rightarrow> u64 list \<Rightarrow> 'v \<Rightarrow> bool" where
  "exits_in_place X G gp v \<longleftrightarrow>
     (\<forall>s. vmx s = v \<longrightarrow> (\<exists>x. G (gp, s) x) \<and>
       (\<forall>gp' s'. G (gp, s) (gp', s') \<longrightarrow> gp' = gp \<and> vmx s' = v \<and>
          load64 (cmem s') (host_vmexit_ptr X) = load64 (cmem s) (host_vmexit_ptr X)))"

fun stays_at :: "'v exit_env \<Rightarrow> u64 list \<Rightarrow> 'v \<Rightarrow> 'v hv_state \<Rightarrow> bool" where
  "stays_at X gp v (In_guest_mode gp' s) \<longleftrightarrow> gp' = gp \<and> vmx s = v \<and> pointer_set X s"
| "stays_at X gp v (At_exit gp' s) \<longleftrightarrow> gp' = gp \<and> vmx s = v \<and> pointer_set X s"
| "stays_at X gp v _ \<longleftrightarrow> False"

lemma resumes_in_place:
  assumes "frame_ok X" "length gp = 15" "resume_op X v = Guest_runs v" "stack_clear M X v" "stays_at X gp v (At_exit gp' s)"
  shows "\<exists>s'. host_exit M X gp' s = Resumed gp s' \<and> stays_at X gp v (In_guest_mode gp s')"
proof -
  have e: "gp' = gp" "vmx s = v" "pointer_set X s" using assms(5) by simp_all
  obtain m m' where "host_exit M X gp s = Resumed gp ((host_vmexit M (s\<lparr>cmem := m\<rparr>))\<lparr>cmem := m', vmx := v\<rparr>)"
    "load64 m' (host_vmexit_ptr X) = host_vmexit_at X"
    using host_exit_resumes[OF assms(1,2), of s v M] assms(3,4) e(2,3) by blast
  then show ?thesis unfolding e(1) by (intro exI conjI) (assumption, simp add: pointer_set_def)
qed

lemma stays_at_step:
  assumes "frame_ok X" "length gp = 15" "resume_op X v = Guest_runs v" "stack_clear M X v" "exits_in_place X G gp v"
    and "hv_step M X G \<sigma> \<tau>" and "stays_at X gp v \<sigma>"
  shows "stays_at X gp v \<tau>"
proof (cases \<sigma>)
  case (In_guest_mode gp' s)
  then have s: "gp' = gp" "vmx s = v" "pointer_set X s" using assms(7) by simp_all
  obtain gp'' s' where t: "\<tau> = At_exit gp'' s'" and "G (gp', s) (gp'', s')"
    using assms(6) unfolding In_guest_mode by (rule guest_step)
  then have "gp'' = gp \<and> vmx s' = v \<and> load64 (cmem s') (host_vmexit_ptr X) = load64 (cmem s) (host_vmexit_ptr X)"
    using assms(5) s(1,2) unfolding exits_in_place_def by blast
  then show ?thesis using s(3) by (simp add: t pointer_set_def)
next
  case (At_exit gp' s)
  obtain s' where "host_exit M X gp' s = Resumed gp s'" and st: "stays_at X gp v (In_guest_mode gp s')"
    using resumes_in_place[OF assms(1-4)] assms(7) unfolding At_exit by blast
  then have "\<tau> = In_guest_mode gp s'"
    using assms(6) unfolding At_exit by (elim exit_step) simp_all
  then show ?thesis using st by simp
qed (use assms(7) in simp_all)

lemma stays_at_moves:
  assumes "frame_ok X" "length gp = 15" "resume_op X v = Guest_runs v" "stack_clear M X v" "exits_in_place X G gp v"
    and "stays_at X gp v \<sigma>"
  shows "\<exists>\<tau>. hv_step M X G \<sigma> \<tau>"
proof (cases \<sigma>)
  case (In_guest_mode gp' s)
  then have e: "\<sigma> = In_guest_mode gp s" "vmx s = v" using assms(6) by simp_all
  then obtain x where "G (gp, s) x" using assms(5) unfolding exits_in_place_def by blast
  then obtain gp1 s1 where "G (gp, s) (gp1, s1)" by (cases x) simp
  moreover from this have "gp1 = gp" using assms(5) e(2) unfolding exits_in_place_def by blast
  ultimately have g: "G (gp, s) (gp, s1)" by simp
  show ?thesis unfolding e(1) by (rule exI, rule hv_step.guest_exits[where G = G, OF g assms(2)])
next
  case (At_exit gp' s)
  obtain s' where "host_exit M X gp' s = Resumed gp s'"
    using resumes_in_place[OF assms(1-4)] assms(6) unfolding At_exit by blast
  then show ?thesis unfolding At_exit by (intro exI) (rule hv_step.resumes)
qed (use assms(6) in simp_all)

section \<open>Properties\<close>

text \<open>
  C18. One exit, with a stack away from the pointer to the handler. When the pointer holds the
  handler's address the guest resumes with the registers it had at the exit and the processor
  state that VMRESUME makes of the unchanged VMCS; the exit reason is logged, the host's registers and
  the allocations are as before. When it does not (it is reserved without a value and never
  assigned) the call goes to whatever the eight bytes there hold.
\<close>

theorem exit_resumes_same_guest:
  assumes "frame_ok X" and "length gp = 15" and "resume_op X (vmx s) = Guest_runs v" and "stack_clear M X (vmx s)"
  shows "if pointer_set X s
    then \<exists>s'. host_exit M X gp s = Resumed gp s' \<and> vmx s' = v \<and> cregs s' = cregs s \<and> mallocs s' = mallocs s
       \<and> (\<exists>es fs. clog s' = clog s @ es @ Exit_reason (exit_reason M (vmx s)) # fs)
    else host_exit M X gp s = Astray (load64 (cmem s) (host_vmexit_ptr X))"
proof (cases "pointer_set X s")
  case True
  obtain m m' where "host_exit M X gp s = Resumed gp ((host_vmexit M (s\<lparr>cmem := m\<rparr>))\<lparr>cmem := m', vmx := v\<rparr>)"
    using host_exit_resumes[OF assms True] by blast
  then show ?thesis using vmexit_logs[of M "s\<lparr>cmem := m\<rparr>"] True by simp
qed (simp add: host_exit_astray assms)


section \<open>Witnesses\<close>

text \<open>A processor that always resumes, a handler with a small frame, a guest at CPUID.\<close>

definition sample_exit :: "(u64 \<Rightarrow> u64) exit_env" where
  "sample_exit = \<lparr>resume_op = Guest_runs,
     call_frame = (\<lambda>rsp m x. if 8 \<le> unat (x - rsp) \<and> unat (x - rsp) < 40 \<and> 8 \<le> unat (x - 0x30000) then 0x77 else m x),
     return_to = 0x20080, host_vmexit_ptr = 0x30000, host_vmexit_at = 0\<rparr>"

lemma sample_frame: "frame_ok sample_exit"
proof -
  have "load64 (call_frame sample_exit rsp m) 0x30000 = load64 m 0x30000" for rsp m
    by (rule load64_cong) (simp add: sample_exit_def unat_of_nat_small)
  then show ?thesis by (auto simp: frame_ok_def) (auto simp: sample_exit_def)
qed

lemma sample_clear: "stack_clear sample_machine sample_exit (vmx sample_cpu)"
  by (simp add: stack_clear_def sample_exit_def host_stack_pointer_def cpu_vmxread_value_def sample_machine_def map_vmx_def
      sample_cpu_def vmx_error_tail_def separate_def)

lemma sample_pointer: "pointer_set sample_exit sample_cpu"
  by (simp add: pointer_set_def sample_exit_def sample_cpu_def load64_def load_bytes_def upt_rec)

definition spinning :: "u64 list \<times> 'v cpu_env \<Rightarrow> u64 list \<times> 'v cpu_env \<Rightarrow> bool" where
  "spinning x y \<longleftrightarrow> y = x"

theorem exit_resumes_same_guest_witness:
  "\<exists>s'. host_exit sample_machine sample_exit [1, 2, 3, 4, 5, 6, 7, 8, 9, 10, 11, 12, 13, 14, 15] sample_cpu =
     Resumed [1, 2, 3, 4, 5, 6, 7, 8, 9, 10, 11, 12, 13, 14, 15] s'"
proof -
  have "resume_op sample_exit (vmx sample_cpu) = Guest_runs (vmx sample_cpu)" by (simp add: sample_exit_def)
  from exit_resumes_same_guest[OF sample_frame _ this sample_clear, of "[1, 2, 3, 4, 5, 6, 7, 8, 9, 10, 11, 12, 13, 14, 15]"]
  show ?thesis using sample_pointer by auto
qed


end
