(* ===== verification/Relocs.thy ===== *)
theory Relocs
  imports Elf
begin

text \<open>
  The relocation of a whole image: \<^verbatim>\<open>elf_mapper::map_to\<close> from the copied segments through all sections, for
  images as a linker makes them for position independent code without a \<^verbatim>\<open>.got\<close> section, whose
  relocations are all relative.
\<close>

section \<open>What relocations leave alone\<close>

lemma agree_shdr:
  assumes "agree f n m m'" and "off + 64 * i + 64 \<le> n"
  shows "rd_shdr m' (f + of_nat off) i = rd_shdr m (f + of_nat off) i"
proof -
  have a: "f + of_nat off + 64 * of_nat i = f + of_nat (off + 64 * i)" by (simp add: add.assoc)
  have b: "f + of_nat k + 4 = f + of_nat (k + 4)" "f + of_nat k + 16 = f + of_nat (k + 16)"
    "f + of_nat k + 24 = f + of_nat (k + 24)" "f + of_nat k + 32 = f + of_nat (k + 32)" for k
    by (simp_all add: add.assoc)
  show ?thesis
    unfolding rd_shdr_def Let_def a b using assms(2)
    by (simp add: agree_loads[OF assms(1)] del: of_nat_add)
qed

lemma agree_cstr:
  "agree f n m m' \<Longrightarrow> cstr m (f + of_nat k) xs \<Longrightarrow> k + length xs < n \<Longrightarrow> cstr m' (f + of_nat k) xs"
proof (induction xs arbitrary: k)
  case Nil
  then show ?case by (simp add: agree_def)
next
  case (Cons x xs)
  have "f + of_nat k + 1 = f + of_nat (Suc k)" by simp
  then show ?case using Cons.IH[of "Suc k"] Cons.prems by (simp add: agree_def ac_simps)
qed

lemma agree_trans: "agree f n m m1 \<Longrightarrow> agree f n m1 m2 \<Longrightarrow> agree f n m m2"
  by (simp add: agree_def)

lemma rebased_agree:
  assumes "rebased base cs m m'" "\<forall>c \<in> set cs. separate c 8 f n"
  shows "agree f n m m'"
  unfolding agree_def
proof (intro allI impI)
  fix i assume "i < n"
  then have "\<forall>c \<in> set cs. 8 \<le> unat (f + of_nat i - c)" using assms(2) separate_offset by blast
  then show "m' (f + of_nat i) = m (f + of_nat i)" using assms(1) by (simp add: rebased_def)
qed

lemma rebased_append:
  assumes "rebased base cs m m1" "rebased base ds m1 m2" "\<forall>c \<in> set cs. \<forall>d \<in> set ds. separate c 8 d 8"
  shows "rebased base (cs @ ds) m m2"
proof -
  have keep: "load64 m' a = load64 m0 a" if "rebased base xs m0 m'" "\<forall>x \<in> set xs. separate x 8 a 8" for xs m0 m' a
    using agree_loads(3)[OF rebased_agree[OF that], of 0] by simp
  have "load64 m2 a = load64 m a + base" if "a \<in> set cs" for a
  proof -
    have "load64 m2 a = load64 m1 a"
      using keep[OF assms(2)] assms(3) that separate_sym by blast
    then show ?thesis using assms(1) that by (simp add: rebased_def)
  qed
  moreover have "load64 m2 d = load64 m d + base" if "d \<in> set ds" for d
  proof -
    have "load64 m1 d = load64 m d" using keep[OF assms(1)] assms(3) that by blast
    then show ?thesis using assms(2) that by (simp add: rebased_def)
  qed
  ultimately show ?thesis using assms(1,2) by (auto simp: rebased_def)
qed

section \<open>All sections\<close>

text \<open>The words a section relocates, and those of the first \<open>k\<close> sections.\<close>

definition reloc_count :: "elf64_shdr \<Rightarrow> nat" where
  "reloc_count section = (if sh_type section = sht_rela then unat (sh_size section div 24) else 0)"

definition section_cells :: "elf_mapper \<Rightarrow> mem \<Rightarrow> nat \<Rightarrow> u64 list" where
  "section_cells M m i =
     (let section = rd_shdr m (m_shdrs M) i
      in map (reloc_cell M m (unat (sh_offset section))) [0..<reloc_count section])"

definition image_cells :: "elf_mapper \<Rightarrow> mem \<Rightarrow> nat \<Rightarrow> u64 list" where
  "image_cells M m k = concat (map (section_cells M m) [0..<k])"

definition cells_apart :: "u64 list \<Rightarrow> bool" where
  "cells_apart cs \<longleftrightarrow> (\<forall>i < length cs. \<forall>j < i. separate (cs ! i) 8 (cs ! j) 8)"

text \<open>
  The \<open>n\<close> bytes of the file hold \<open>N\<close> section headers, the names of the sections and the relocation
  tables; no section has the name \<open>got\<close> of the literal, every relocation is relative, and its target
  overlaps neither the file, the literal nor another target.
\<close>

definition relative_section :: "elf_mapper \<Rightarrow> mem \<Rightarrow> nat \<Rightarrow> u8 list \<Rightarrow> elf64_shdr \<Rightarrow> elf64_shdr \<Rightarrow> bool" where
  "relative_section M m n got strings section \<longleftrightarrow>
     (\<exists>off xs. section_name M strings section = m_file M + of_nat off \<and> off + length xs < n
        \<and> cstr m (m_file M + of_nat off) xs \<and> xs \<noteq> got)
     \<and> unat (sh_offset section) + 24 * reloc_count section \<le> n
     \<and> (\<forall>j < reloc_count section.
          elf64_r_get_type (r_info (rd_rela m (m_file M + sh_offset section) j)) = x86_64_relative)"

definition relative_image :: "elf_mapper \<Rightarrow> elf_literals \<Rightarrow> mem \<Rightarrow> nat \<Rightarrow> nat \<Rightarrow> u8 list \<Rightarrow> bool" where
  "relative_image M L m n N got \<longleftrightarrow>
     m_ehdr M = m_file M \<and> 64 \<le> n \<and> n < 2 ^ 64 \<and> N = unat (e_shnum (rd_ehdr m (m_file M)))
     \<and> m_shdrs M = m_file M + e_shoff (rd_ehdr m (m_file M))
     \<and> unat (e_shoff (rd_ehdr m (m_file M))) + 64 * N \<le> n
     \<and> cstr m (lit_got L) got
     \<and> (let strings = rd_shdr m (m_shdrs M) (unat (e_shstrndx (rd_ehdr m (m_file M))))
        in \<forall>i < N. relative_section M m n got strings (rd_shdr m (m_shdrs M) i))
     \<and> (\<forall>c \<in> set (image_cells M m N). separate c 8 (m_file M) n \<and> separate c 8 (lit_got L) (Suc (length got)))
     \<and> cells_apart (image_cells M m N)"

lemma image_cells_Suc: "image_cells M m (Suc k) = image_cells M m k @ section_cells M m k"
  by (simp add: image_cells_def)

lemma image_cells_prefix: "k \<le> N \<Longrightarrow> \<exists>ys. image_cells M m N = image_cells M m k @ ys"
proof (induction N)
  case (Suc N)
  then show ?case by (cases "k = Suc N") (auto simp: image_cells_Suc)
qed (simp add: image_cells_def)

lemma cells_apart_append:
  assumes "cells_apart (cs @ ds)"
  shows "cells_apart cs" "cells_apart ds" "\<forall>c \<in> set cs. \<forall>d \<in> set ds. separate c 8 d 8"
proof -
  have all: "separate ((cs @ ds) ! i) 8 ((cs @ ds) ! j) 8" if "i < length cs + length ds" "j < i" for i j
    using assms that by (simp add: cells_apart_def)
  show "cells_apart cs" unfolding cells_apart_def
  proof (intro allI impI)
    fix i j assume "i < length cs" "j < i"
    then show "separate (cs ! i) 8 (cs ! j) 8" using all[of i j] by (simp add: nth_append)
  qed
  show "cells_apart ds" unfolding cells_apart_def
  proof (intro allI impI)
    fix i j assume "i < length ds" "j < i"
    then show "separate (ds ! i) 8 (ds ! j) 8" using all[of "length cs + i" "length cs + j"] by (simp add: nth_append)
  qed
  have "separate (cs ! i) 8 (ds ! j) 8" if "i < length cs" "j < length ds" for i j
    using all[of "length cs + j" i] that separate_sym by (simp add: nth_append)
  then show "\<forall>c \<in> set cs. \<forall>d \<in> set ds. separate c 8 d 8" by (metis in_set_conv_nth)
qed

lemma relocate_section_step:
  assumes ok: "relative_image M L m n N got" and i: "i < N" and dyn: "dynsyms \<noteq> 0"
    and st: "rebased (m_mapped M) (image_cells M m i) m m'"
  defines "strings \<equiv> rd_shdr m (m_shdrs M) (unat (e_shstrndx (rd_ehdr m (m_file M))))"
  shows "\<exists>m''. relocate_section M L strings (Some dynstr) dynsyms i (m', l) = Inr (m'', l)
     \<and> rebased (m_mapped M) (image_cells M m (Suc i)) m m''"
proof -
  let ?sec = "rd_shdr m (m_shdrs M) i" and ?f = "m_file M"
  let ?off = "unat (sh_offset ?sec)" and ?cnt = "reloc_count ?sec"
  obtain ys where ys: "image_cells M m N = image_cells M m (Suc i) @ ys" using image_cells_prefix[of "Suc i" N] i by force
  have cells: "\<forall>c \<in> set (image_cells M m (Suc i)). separate c 8 ?f n \<and> separate c 8 (lit_got L) (Suc (length got))"
    using ok ys by (simp add: relative_image_def)
  have apart: "cells_apart (image_cells M m i @ section_cells M m i)"
    using ok cells_apart_append(1)[of "image_cells M m (Suc i)" ys] ys by (simp add: relative_image_def image_cells_Suc)
  have ag: "agree ?f n m m'" and lit: "agree (lit_got L) (Suc (length got)) m m'"
    using cells by (auto intro!: rebased_agree[OF st] simp: image_cells_Suc)
  have sec: "rd_shdr m' (m_shdrs M) i = ?sec"
    using agree_shdr[OF ag, of "unat (e_shoff (rd_ehdr m ?f))" i] ok i by (simp add: relative_image_def)
  have rel: "relative_section M m n got strings ?sec" using ok i unfolding relative_image_def strings_def Let_def by blast
  then obtain off xs where nm: "section_name M strings ?sec = ?f + of_nat off" "off + length xs < n"
      "cstr m (?f + of_nat off) xs" "xs \<noteq> got" by (auto simp: relative_section_def)
  have "cstr m' (lit_got L) got"
    using agree_cstr[OF lit, of 0 got] ok by (simp add: relative_image_def)
  with agree_cstr[OF ag nm(3,2)] nm(1,4) have name: "cmp_is_zero m' (section_name M strings ?sec) (lit_got L) = Inr False"
    using cmp_is_zero_cstr by fastforce
  have off: "?off + 24 * ?cnt \<le> n" and types: "j < ?cnt \<Longrightarrow>
      elf64_r_get_type (r_info (rd_rela m (?f + sh_offset ?sec) j)) = x86_64_relative" for j
    using rel by (simp_all add: relative_section_def)
  have rela: "rd_rela m' (?f + of_nat ?off) j = rd_rela m (?f + of_nat ?off) j" if "j < ?cnt" for j
    using that off by (intro agree_rela[OF ag]) simp
  have cell: "reloc_cell M m' ?off j = section_cells M m i ! j" if "j < ?cnt" for j
    using rela[OF that] that by (simp add: reloc_cell_def section_cells_def Let_def)
  have len: "length (section_cells M m i) = ?cnt" by (simp add: section_cells_def Let_def)
  have tab: "relative_table M m' ?off ?cnt n"
    unfolding relative_table_def
  proof (intro conjI allI impI)
    fix j assume j: "j < ?cnt"
    show "elf64_r_get_type (r_info (rd_rela m' (?f + of_nat ?off) j)) = x86_64_relative"
      using types[OF j] rela[OF j] by simp
    have "section_cells M m i ! j \<in> set (image_cells M m (Suc i))" using j len by (simp add: image_cells_Suc)
    then show "separate (reloc_cell M m' ?off j) 8 ?f n" using cells cell[OF j] by simp
    fix k assume k: "k < j"
    show "separate (reloc_cell M m' ?off j) 8 (reloc_cell M m' ?off k) 8"
      using cells_apart_append(2)[OF apart] j k len cell by (simp add: cells_apart_def)
  qed (rule off)
  obtain m'' where m'': "for_each_ok [0..<?cnt] (apply_rela M (Some dynstr) dynsyms i (?f + of_nat ?off)) (m', l) = Inr (m'', l)"
      "rebased (m_mapped M) (map (reloc_cell M m' ?off) [0..<?cnt]) m' m''"
    using relative_table_applied[OF tab dyn order_refl] by blast
  have "map (reloc_cell M m' ?off) [0..<?cnt] = section_cells M m i"
    by (rule nth_equalityI) (simp_all add: len cell)
  then have "rebased (m_mapped M) (image_cells M m (Suc i)) m m''"
    using rebased_append[OF st _ cells_apart_append(3)[OF apart]] m''(2) by (simp add: image_cells_Suc)
  moreover have "relocate_section M L strings (Some dynstr) dynsyms i (m', l) = Inr (m'', l)"
    using m''(1) by (simp add: relocate_section_def sec name reloc_count_def split: if_splits)
  ultimately show ?thesis by blast
qed

lemma relocate_all:
  assumes ok: "relative_image M L m n N got" and dyn: "dynsyms \<noteq> 0"
  defines "strings \<equiv> rd_shdr m (m_shdrs M) (unat (e_shstrndx (rd_ehdr m (m_file M))))"
  shows "\<exists>m'. for_u16 (\<lambda>ml. e_shnum (rd_ehdr (fst ml) (m_ehdr M)))
        (relocate_section M L strings (Some dynstr) dynsyms) 0 (m, l) = Inr (m', l)
     \<and> rebased (m_mapped M) (image_cells M m N) m m'"
proof -
  define I where "I = (\<lambda>i (ml :: mem \<times> log_event list). snd ml = l \<and> i \<le> N \<and> rebased (m_mapped M) (image_cells M m i) m (fst ml))"
  have "unat (e_shnum (rd_ehdr (fst ml) (m_ehdr M))) = N" if I: "I i ml" for i ml
  proof -
    obtain ys where "image_cells M m N = image_cells M m i @ ys" using image_cells_prefix[of i N] I by (auto simp: I_def)
    then have "agree (m_file M) n m (fst ml)"
      using I ok by (intro rebased_agree[of "m_mapped M" "image_cells M m i"]) (auto simp: I_def relative_image_def)
    then show ?thesis using agree_ehdr[of "m_file M" n m "fst ml"] ok by (simp add: relative_image_def)
  qed
  moreover have "\<exists>s'. relocate_section M L strings (Some dynstr) dynsyms i ml = Inr s' \<and> I (Suc i) s'"
    if "i < N" "I i ml" for i ml
    using relocate_section_step[OF ok that(1) dyn, of "fst ml" dynstr l] that
    by (cases ml) (auto simp: I_def strings_def)
  moreover have "I 0 (m, l)" by (simp add: I_def image_cells_def rebased_def)
  ultimately have "\<exists>s'. for_u16 (\<lambda>ml. e_shnum (rd_ehdr (fst ml) (m_ehdr M)))
        (relocate_section M L strings (Some dynstr) dynsyms) 0 (m, l) = Inr s' \<and> I N s'"
    by (intro for_u16_inv[of I 0 "(m, l)" N]) auto
  then show ?thesis by (auto simp: I_def)
qed

section \<open>Properties\<close>

text \<open>The memory after the copy of the segments.\<close>

definition segment_image :: "elf_mapper \<Rightarrow> mem \<Rightarrow> mem" where
  "segment_image M m = image_byte M m (phdr_list M m)"

text \<open>
  C9. Mapping and relocating an image at the address \<open>t\<close>, for a file whose relocations are all relative and
  whose sections do not include \<^verbatim>\<open>.got\<close>: it does not fail, logs the base only, adds the load address once to
  every word that a relocation names, whatever the addend of its entry, and leaves every other byte as
  the segments put it.
\<close>

theorem map_to_relocates_image:
  fixes M t
  defines "M' \<equiv> M\<lparr>m_mapped := t\<rparr>"
  assumes "file_ok M' m n" and "relative_image M' L (segment_image M' m) k N got"
    and "find_dynstr M' L (segment_image M' m) (rd_shdr (segment_image M' m) (m_shdrs M)
            (unat (e_shstrndx (rd_ehdr (segment_image M' m) (m_file M))))) [0..<N] = Inr (Some dynstr)"
    and "snd (find_symbols M' (segment_image M' m) sht_dynsym) \<noteq> 0"
  shows "\<exists>m'. map_to M L t (m, l) = Inr (M', m', l @ [Log_hex ''elf base @'' t])
    \<and> (\<forall>c \<in> set (image_cells M' (segment_image M' m) N). load64 m' c = load64 (segment_image M' m) c + t)
    \<and> (\<forall>b. (\<forall>c \<in> set (image_cells M' (segment_image M' m) N). 8 \<le> unat (b - c)) \<longrightarrow> m' b = segment_image M' m b)"
proof -
  let ?img = "segment_image M' m" and ?l = "l @ [Log_hex ''elf base @'' t]"
  obtain m1 where m1: "map_segments M' m = Inr m1" "\<forall>b. m1 b = image_byte M' m (phdr_list M' m) b"
    using map_segments_image[OF assms(2)] by blast
  then have "map_segments M' m = Inr ?img" by (simp add: segment_image_def ext)
  moreover have "m_ehdr M' = m_file M" "m_shdrs M' = m_shdrs M" "m_file M' = m_file M" "m_mapped M' = t"
    "N = unat (e_shnum (rd_ehdr ?img (m_file M)))"
    using assms(3) by (simp_all add: relative_image_def M'_def)
  moreover obtain c dynsyms where "find_symbols M' ?img sht_dynsym = (c, dynsyms)" by fastforce
  moreover obtain m' where "for_u16 (\<lambda>ml. e_shnum (rd_ehdr (fst ml) (m_ehdr M')))
        (relocate_section M' L (rd_shdr ?img (m_shdrs M') (unat (e_shstrndx (rd_ehdr ?img (m_file M')))))
          (Some dynstr) dynsyms) 0 (?img, ?l) = Inr (m', ?l)" "rebased (m_mapped M') (image_cells M' ?img N) ?img m'"
    using relocate_all[OF assms(3), of dynsyms dynstr ?l] assms(5) calculation by auto
  ultimately show ?thesis
    using assms(4) by (intro exI[of _ m']) (simp add: map_to_def Let_def case_prod_unfold rebased_def flip: M'_def)
qed

section \<open>A small image\<close>

text \<open>
  Header, one load segment of eight bytes, the sections \<^verbatim>\<open>.dynstr\<close> (also the section names), a table of
  dynamic symbols and one relative relocation of the word that the segment holds.
\<close>

definition small_elf :: mem where
  "small_elf a =
     (case map_of
        (if a < 0x1040 then [(0x1020, 0x40), (0x1029, 1), (0x1038, 1), (0x103C, 3)]
         else if a < 0x1100 then [(0x1040, 1), (0x1048, 0x20), (0x1049, 2), (0x1051, 1), (0x1060, 8), (0x1068, 8)]
         else if a < 0x1140 then [(0x1100, 1), (0x1104, 3), (0x1118, 0xC0), (0x1119, 1), (0x1120, 9)]
         else if a < 0x1180 then [(0x1144, 11), (0x1158, 0xD0), (0x1159, 1), (0x1160, 24)]
         else if a < 0x11C0 then [(0x1184, 4), (0x1198, 0xF0), (0x1199, 1), (0x11A0, 24)]
         else if a < 0x11F0 then [(0x11C1, 0x2E), (0x11C2, 0x64), (0x11C3, 0x79), (0x11C4, 0x6E), (0x11C5, 0x73),
            (0x11C6, 0x74), (0x11C7, 0x72)]
         else if a < 0x4000 then [(0x11F1, 1), (0x11F8, 8), (0x1220, 0x34)]
         else [(0x4000, 0x2E), (0x4001, 0x64), (0x4002, 0x79), (0x4003, 0x6E), (0x4004, 0x73), (0x4005, 0x74),
            (0x4006, 0x72), (0x4010, 0x2E), (0x4011, 0x67), (0x4012, 0x6F), (0x4013, 0x74)]) a of
      Some v \<Rightarrow> v | None \<Rightarrow> 0)"

definition small_mapper :: elf_mapper where
  "small_mapper = \<lparr>m_file = 0x1000, m_imports = 0, m_import_count = 0, m_ehdr = 0x1000, m_phdrs = 0x1040,
     m_shdrs = 0x1100, m_mapped = 0x100000\<rparr>"

lemmas small_loads = load64_def load32_def load16_def load_bytes_def upt_rec

lemma small_phdrs: "phdr_list small_mapper small_elf =
    [\<lparr>p_type = 1, p_offset = 0x220, p_vaddr = 0x100, p_filesz = 8, p_memsz = 8\<rparr>]"
proof -
  have "rd_phdr small_elf 0x1040 0 = \<lparr>p_type = 1, p_offset = 0x220, p_vaddr = 0x100, p_filesz = 8, p_memsz = 8\<rparr>"
    by (simp add: rd_phdr_def small_loads, simp add: small_elf_def)
  moreover have "e_phnum (rd_ehdr small_elf 0x1000) = 1"
    by (simp add: rd_ehdr_def small_loads, simp add: small_elf_def)
  ultimately show ?thesis by (simp add: phdr_list_def small_mapper_def)
qed

lemma small_file_ok: "file_ok small_mapper small_elf 0x228"
proof -
  have "e_phoff (rd_ehdr small_elf 0x1000) = 0x40" by (simp add: rd_ehdr_def small_loads, simp add: small_elf_def)
  then show ?thesis unfolding file_ok_def small_phdrs
    by (simp add: small_mapper_def is_load_def PT_LOAD_def seg_len_def separate_def)
qed

text \<open>The file reads the same after the copy of the segment.\<close>

lemma small_agree: "agree 0x1000 0x228 small_elf (segment_image small_mapper small_elf)"
  using image_byte_file[OF small_file_ok _ order_refl] by (simp add: agree_def segment_image_def) (simp add: small_mapper_def)

lemma small_image_ehdr:
  "e_shnum (rd_ehdr (segment_image small_mapper small_elf) 0x1000) = 3"
  "e_shoff (rd_ehdr (segment_image small_mapper small_elf) 0x1000) = 0x100"
  "e_shstrndx (rd_ehdr (segment_image small_mapper small_elf) 0x1000) = 0"
proof -
  have e: "rd_ehdr (segment_image small_mapper small_elf) 0x1000 = rd_ehdr small_elf 0x1000"
    by (rule agree_ehdr[OF small_agree]) simp
  show "e_shnum (rd_ehdr (segment_image small_mapper small_elf) 0x1000) = 3"
    "e_shoff (rd_ehdr (segment_image small_mapper small_elf) 0x1000) = 0x100"
    "e_shstrndx (rd_ehdr (segment_image small_mapper small_elf) 0x1000) = 0"
    unfolding e by (simp_all add: rd_ehdr_def small_loads, simp_all add: small_elf_def)
qed

lemma small_sections:
  "rd_shdr (segment_image small_mapper small_elf) 0x1100 0 = \<lparr>sh_name = 1, sh_type = sht_strtab, sh_addr = 0, sh_offset = 0x1C0, sh_size = 9\<rparr>"
  "rd_shdr (segment_image small_mapper small_elf) 0x1100 1 = \<lparr>sh_name = 0, sh_type = sht_dynsym, sh_addr = 0, sh_offset = 0x1D0, sh_size = 24\<rparr>"
  "rd_shdr (segment_image small_mapper small_elf) 0x1100 2 = \<lparr>sh_name = 0, sh_type = sht_rela, sh_addr = 0, sh_offset = 0x1F0, sh_size = 24\<rparr>"
proof -
  have "rd_shdr (segment_image small_mapper small_elf) (0x1000 + of_nat 256) i = rd_shdr small_elf (0x1000 + of_nat 256) i"
    if "i < 3" for i
    by (rule agree_shdr[OF small_agree]) (use that in simp)
  then have e: "rd_shdr (segment_image small_mapper small_elf) 0x1100 i = rd_shdr small_elf 0x1100 i" if "i < 3" for i
    using that by simp
  show "rd_shdr (segment_image small_mapper small_elf) 0x1100 0 = \<lparr>sh_name = 1, sh_type = sht_strtab, sh_addr = 0, sh_offset = 0x1C0, sh_size = 9\<rparr>"
    by (subst e, simp) (simp add: rd_shdr_def small_loads, simp add: small_elf_def section_type_def)
  show "rd_shdr (segment_image small_mapper small_elf) 0x1100 1 = \<lparr>sh_name = 0, sh_type = sht_dynsym, sh_addr = 0, sh_offset = 0x1D0, sh_size = 24\<rparr>"
    by (subst e, simp) (simp add: rd_shdr_def small_loads, simp add: small_elf_def section_type_def)
  show "rd_shdr (segment_image small_mapper small_elf) 0x1100 2 = \<lparr>sh_name = 0, sh_type = sht_rela, sh_addr = 0, sh_offset = 0x1F0, sh_size = 24\<rparr>"
    by (subst e, simp) (simp add: rd_shdr_def small_loads, simp add: small_elf_def section_type_def)
qed

lemma small_rela: "rd_rela (segment_image small_mapper small_elf) 0x11F0 0 = \<lparr>r_offset = 0x100, r_info = 8, r_addend = 0\<rparr>"
proof -
  have "rd_rela (segment_image small_mapper small_elf) (0x1000 + of_nat 0x1F0) 0 = rd_rela small_elf (0x1000 + of_nat 0x1F0) 0"
    by (rule agree_rela[OF small_agree]) simp
  moreover have "rd_rela small_elf 0x11F0 0 = \<lparr>r_offset = 0x100, r_info = 8, r_addend = 0\<rparr>"
    by (simp add: rd_rela_def small_loads, simp add: small_elf_def)
  ultimately show ?thesis by simp
qed

lemma small_strings:
  "cstr (segment_image small_mapper small_elf) 0x11C1 [0x2E, 0x64, 0x79, 0x6E, 0x73, 0x74, 0x72]"
  "cstr (segment_image small_mapper small_elf) 0x11C0 []"
  "cstr (segment_image small_mapper small_elf) 0x4000 [0x2E, 0x64, 0x79, 0x6E, 0x73, 0x74, 0x72]"
  "cstr (segment_image small_mapper small_elf) 0x4010 [0x2E, 0x67, 0x6F, 0x74]"
  unfolding segment_image_def image_byte_def small_phdrs cstr.simps
  by (simp_all add: small_mapper_def seg_covers_def seg_len_def is_load_def PT_LOAD_def) (simp_all add: small_elf_def)

lemma small_sel [simp]:
  "m_file small_mapper = 0x1000" "m_ehdr small_mapper = 0x1000" "m_shdrs small_mapper = 0x1100" "m_mapped small_mapper = 0x100000"
  by (simp_all add: small_mapper_def)

abbreviation small_literals :: elf_literals where
  "small_literals \<equiv> \<lparr>lit_dynstr = 0x4000, lit_got = 0x4010\<rparr>"

lemma small_cells: "image_cells small_mapper (segment_image small_mapper small_elf) 3 = [0x100100]"
proof -
  have "[0..<3 :: nat] = [0, 1, 2]" by (simp add: upt_rec)
  moreover have "section_cells small_mapper (segment_image small_mapper small_elf) 0 = []"
    "section_cells small_mapper (segment_image small_mapper small_elf) 1 = []"
    "section_cells small_mapper (segment_image small_mapper small_elf) 2 = [0x100100]"
    using small_sections small_rela by (simp_all add: section_cells_def reloc_count_def reloc_cell_def)
  ultimately show ?thesis by (simp add: image_cells_def)
qed

lemma small_relative:
  "relative_image small_mapper small_literals (segment_image small_mapper small_elf) 0x228 3 [0x2E, 0x67, 0x6F, 0x74]"
proof -
  let ?img = "segment_image small_mapper small_elf" and ?got = "[0x2E, 0x67, 0x6F, 0x74]"
  let ?str = "\<lparr>sh_name = 1, sh_type = sht_strtab, sh_addr = 0, sh_offset = 0x1C0, sh_size = 9\<rparr>"
  have "relative_section small_mapper ?img 0x228 ?got ?str ?str"
    unfolding relative_section_def
    using small_strings(1) by (intro conjI exI[of _ "0x1C1"] exI[of _ "[0x2E, 0x64, 0x79, 0x6E, 0x73, 0x74, 0x72]"])
      (simp_all add: section_name_def reloc_count_def del: cstr.simps)
  moreover have "relative_section small_mapper ?img 0x228 ?got ?str sec"
    if "sec = \<lparr>sh_name = 0, sh_type = sht_dynsym, sh_addr = 0, sh_offset = 0x1D0, sh_size = 24\<rparr>
      \<or> sec = \<lparr>sh_name = 0, sh_type = sht_rela, sh_addr = 0, sh_offset = 0x1F0, sh_size = 24\<rparr>" for sec
    unfolding relative_section_def
    using that small_strings(2) small_rela by (intro conjI exI[of _ "0x1C0"] exI[of _ "[]"])
      (auto simp: section_name_def reloc_count_def elf64_r_get_type_def x86_64_relative_def)
  moreover have "i < 3 \<Longrightarrow> i = 0 \<or> i = 1 \<or> i = 2" for i :: nat by auto
  ultimately have "\<forall>i < 3. relative_section small_mapper ?img 0x228 ?got ?str (rd_shdr ?img 0x1100 i)"
    using small_sections by metis
  then show ?thesis
    using small_image_ehdr small_sections(1) small_strings(4)
    by (simp add: relative_image_def small_cells cells_apart_def separate_def del: cstr.simps)
qed

theorem map_to_relocates_image_witness:
  "\<exists>m'. map_to small_mapper small_literals 0x100000 (small_elf, []) =
       Inr (small_mapper, m', [Log_hex ''elf base @'' 0x100000]) \<and> load64 m' 0x100100 = 0x100034"
proof -
  let ?img = "segment_image small_mapper small_elf"
  let ?str = "\<lparr>sh_name = 1, sh_type = sht_strtab, sh_addr = 0, sh_offset = 0x1C0, sh_size = 9\<rparr>"
  have M: "small_mapper\<lparr>m_mapped := 0x100000\<rparr> = small_mapper" by (simp add: small_mapper_def)
  have "cmp_is_zero ?img 0x11C1 0x4000 = Inr True"
    using cmp_is_zero_cstr[OF small_strings(1,3)] by simp
  then have dynstr: "find_dynstr small_mapper small_literals ?img ?str [0..<3] = Inr (Some ?str)"
    using small_sections(1) by (simp add: upt_rec section_name_def Let_def)
  have "find_symbols small_mapper ?img sht_dynsym = (1, 0x11D0)"
    using small_sections small_image_ehdr
    by (simp add: find_symbols_def upt_rec)
  moreover have "load64 ?img 0x100100 = 0x34"
    unfolding segment_image_def image_byte_def small_phdrs
    by (simp add: small_loads seg_covers_def seg_len_def is_load_def PT_LOAD_def, simp add: seg_value_def
       is_load_def PT_LOAD_def, simp add: small_elf_def)
  ultimately show ?thesis
    using map_to_relocates_image[where M = small_mapper and t = "0x100000", unfolded M, OF small_file_ok small_relative,
        where dynstr = ?str and l = "[]"] dynstr small_sections(1) small_image_ehdr
    by (simp add: small_cells) blast
qed

end
