(* ===== verification/Asm.thy ===== *)
theory Asm
  imports Cpu
begin

text \<open>
  The assembly wrappers of \<^verbatim>\<open>freestanding/x86utils.S\<close>: an instruction set with the instructions the file
  uses, the wrappers as instruction lists, and what each of them does as seen by its C++ caller. The
  other theories use the functional versions (\<open>call_lar\<close>, \<open>vmx_error_tail\<close>, reads of \<open>r_msr\<close>, ...); the
  properties here say that the code computes these under the System V calling convention.
\<close>

section \<open>Instructions\<close>

datatype gpr_name = RAX | RBX | RCX | RDX | RSI | RDI | RBP | RSP

datatype cr_name = CR0 | CR1 | CR2 | CR3 | CR4 | DR7

text \<open>
  Jumps are forward and skip a number of instructions; a far return carries the address of the
  instruction behind it. \<^verbatim>\<open>[r]\<close> operands have a displacement.
\<close>

datatype instr =
    Mov gpr_name gpr_name | Mov_imm gpr_name u64 | Mov32 gpr_name gpr_name
  | Load64 gpr_name gpr_name u64 | Load32 gpr_name gpr_name u64 | Store32 gpr_name u64 gpr_name
  | Push gpr_name | Pop gpr_name | Pushfq | Leave | Add_imm gpr_name u64
  | Shl gpr_name nat | Shr gpr_name nat | Or_reg gpr_name gpr_name | Xor_reg gpr_name gpr_name
  | Jz nat | Jc nat | Clc | Cli | Sti | Ret
  | Mov_from_cr gpr_name cr_name | Mov_to_cr cr_name gpr_name
  | Mov_from_seg gpr_name segreg | Mov_to_seg segreg gpr_name
  | Sgdt gpr_name | Lgdt gpr_name | Sidt gpr_name | Lidt gpr_name | Str gpr_name | Sldt gpr_name
  | Rdmsr | Wrmsr | Cpuid | Lsl gpr_name gpr_name | Lar gpr_name gpr_name | Bsf gpr_name gpr_name
  | Vmxon gpr_name | Vmclear gpr_name | Vmptrld gpr_name | Vmwrite gpr_name gpr_name
  | Vmread gpr_name gpr_name | Vmlaunch | Far_ret u64

record 'v core =
  gpr :: "gpr_name \<Rightarrow> u64"
  zf :: bool
  cf :: bool
  core_mem :: mem
  sregs :: regs
  reg_cr2 :: u64
  reg_dr7 :: u64
  core_vmx :: 'v

text \<open>
  How a wrapper ends: it returns to an address, it raises an invalid opcode exception, the guest
  runs instead, or it runs past its last instruction.
\<close>

datatype 'v outcome = Returns u64 "'v core" | Invalid_opcode | In_guest 'v | Runs_on

definition set_gpr :: "gpr_name \<Rightarrow> u64 \<Rightarrow> 'v core \<Rightarrow> 'v core" where
  "set_gpr r v s = s\<lparr>gpr := (gpr s)(r := v)\<rparr>"

text \<open>A write of the low 16 bits keeps the others; a write of the low 32 bits clears them.\<close>

definition set_gpr16 :: "gpr_name \<Rightarrow> u16 \<Rightarrow> 'v core \<Rightarrow> 'v core" where
  "set_gpr16 r v s = set_gpr r ((gpr s r AND NOT (mask 16)) OR ucast v) s"

definition set_gpr32 :: "gpr_name \<Rightarrow> u32 \<Rightarrow> 'v core \<Rightarrow> 'v core" where
  "set_gpr32 r v s = set_gpr r (ucast v) s"

definition result_flags :: "u64 \<Rightarrow> bool \<Rightarrow> 'v core \<Rightarrow> 'v core" where
  "result_flags v carry s = s\<lparr>zf := (v = 0), cf := carry\<rparr>"

definition set_flags :: "bool \<times> bool \<Rightarrow> 'v core \<Rightarrow> 'v core" where
  "set_flags f s = s\<lparr>zf := fst f, cf := snd f\<rparr>"

definition push_value :: "u64 \<Rightarrow> 'v core \<Rightarrow> 'v core" where
  "push_value v s = set_gpr RSP (gpr s RSP - 8) (s\<lparr>core_mem := store64 (core_mem s) (gpr s RSP - 8) v\<rparr>)"

definition pop_value :: "'v core \<Rightarrow> u64 \<times> 'v core" where
  "pop_value s = (load64 (core_mem s) (gpr s RSP), set_gpr RSP (gpr s RSP + 8) s)"

text \<open>The flags register: ZF and CF are kept apart from the rest.\<close>

definition flags_word :: "'v core \<Rightarrow> u64" where
  "flags_word s = (r_rflags (sregs s) AND NOT 0x41) OR (if zf s then 0x40 else 0) OR (if cf s then 1 else 0)"

text \<open>CR1 does not exist.\<close>

fun read_cr :: "cr_name \<Rightarrow> 'v core \<Rightarrow> u64 option" where
  "read_cr CR0 s = Some (r_cr0 (sregs s))"
| "read_cr CR1 s = None"
| "read_cr CR2 s = Some (reg_cr2 s)"
| "read_cr CR3 s = Some (r_cr3 (sregs s))"
| "read_cr CR4 s = Some (r_cr4 (sregs s))"
| "read_cr DR7 s = Some (reg_dr7 s)"

fun write_cr :: "cr_name \<Rightarrow> u64 \<Rightarrow> 'v core \<Rightarrow> 'v core option" where
  "write_cr CR0 v s = Some (s\<lparr>sregs := (sregs s)\<lparr>r_cr0 := v\<rparr>\<rparr>)"
| "write_cr CR1 v s = None"
| "write_cr CR2 v s = Some (s\<lparr>reg_cr2 := v\<rparr>)"
| "write_cr CR3 v s = Some (s\<lparr>sregs := (sregs s)\<lparr>r_cr3 := v\<rparr>\<rparr>)"
| "write_cr CR4 v s = Some (s\<lparr>sregs := (sregs s)\<lparr>r_cr4 := v\<rparr>\<rparr>)"
| "write_cr DR7 v s = Some (s\<lparr>reg_dr7 := v\<rparr>)"


text \<open>
  The instructions that neither jump nor return; no result is the invalid opcode exception (CR1,
  a write of CS, LDTR or TR by \<^verbatim>\<open>mov\<close>).
\<close>

fun step :: "'v machine \<Rightarrow> instr \<Rightarrow> 'v core \<Rightarrow> 'v core option" where
  "step M (Mov d r) s = Some (set_gpr d (gpr s r) s)"
| "step M (Mov_imm d v) s = Some (set_gpr d v s)"
| "step M (Mov32 d r) s = Some (set_gpr32 d (ucast (gpr s r)) s)"
| "step M (Load64 d b k) s = Some (set_gpr d (load64 (core_mem s) (gpr s b + k)) s)"
| "step M (Load32 d b k) s = Some (set_gpr32 d (load32 (core_mem s) (gpr s b + k)) s)"
| "step M (Store32 b k r) s = Some (s\<lparr>core_mem := store32 (core_mem s) (gpr s b + k) (ucast (gpr s r))\<rparr>)"
| "step M (Push r) s = Some (push_value (gpr s r) s)"
| "step M (Pop r) s = (let (v, s) = pop_value s in Some (set_gpr r v s))"
| "step M Pushfq s = Some (push_value (flags_word s) s)"
| "step M Leave s = (let (v, s) = pop_value (set_gpr RSP (gpr s RBP) s) in Some (set_gpr RBP v s))"
| "step M (Add_imm d v) s =
     (let w = gpr s d + v in Some (result_flags w (w < v) (set_gpr d w s)))"
| "step M (Shl d k) s =
     (let w = push_bit k (gpr s d) in Some (result_flags w (bit (gpr s d) (64 - k)) (set_gpr d w s)))"
| "step M (Shr d k) s =
     (let w = drop_bit k (gpr s d) in Some (result_flags w (bit (gpr s d) (k - 1)) (set_gpr d w s)))"
| "step M (Or_reg d r) s = (let w = gpr s d OR gpr s r in Some (result_flags w False (set_gpr d w s)))"
| "step M (Xor_reg d r) s = (let w = gpr s d XOR gpr s r in Some (result_flags w False (set_gpr d w s)))"
| "step M Clc s = Some (s\<lparr>cf := False\<rparr>)"
| "step M Cli s = Some (s\<lparr>sregs := (sregs s)\<lparr>r_rflags := unset_bit 9 (r_rflags (sregs s))\<rparr>\<rparr>)"
| "step M Sti s = Some (s\<lparr>sregs := (sregs s)\<lparr>r_rflags := set_bit 9 (r_rflags (sregs s))\<rparr>\<rparr>)"
| "step M (Mov_from_cr d c) s = map_option (\<lambda>v. set_gpr d v s) (read_cr c s)"
| "step M (Mov_to_cr c r) s = write_cr c (gpr s r) s"
| "step M (Mov_from_seg d g) s =
     (if g \<in> {LDTR, TR} then None else Some (set_gpr16 d (r_sel (sregs s) g) s))"
| "step M (Mov_to_seg g r) s =
     (if g \<in> {CS, LDTR, TR} then None
      else Some (s\<lparr>sregs := (sregs s)\<lparr>r_sel := (r_sel (sregs s))(g := ucast (gpr s r))\<rparr>\<rparr>))"
| "step M (Sgdt b) s = Some (s\<lparr>core_mem :=
     store64 (store16 (core_mem s) (gpr s b) (r_gdtr_limit (sregs s))) (gpr s b + 2) (r_gdtr_base (sregs s))\<rparr>)"
| "step M (Lgdt b) s = Some (s\<lparr>sregs := (sregs s)\<lparr>r_gdtr_base := load64 (core_mem s) (gpr s b + 2),
     r_gdtr_limit := load16 (core_mem s) (gpr s b)\<rparr>\<rparr>)"
| "step M (Sidt b) s = Some (s\<lparr>core_mem :=
     store64 (store16 (core_mem s) (gpr s b) (r_idtr_limit (sregs s))) (gpr s b + 2) (r_idtr_base (sregs s))\<rparr>)"
| "step M (Lidt b) s = Some (s\<lparr>sregs := (sregs s)\<lparr>r_idtr_base := load64 (core_mem s) (gpr s b + 2),
     r_idtr_limit := load16 (core_mem s) (gpr s b)\<rparr>\<rparr>)"
| "step M (Str d) s = Some (set_gpr16 d (r_sel (sregs s) TR) s)"
| "step M (Sldt d) s = Some (set_gpr16 d (r_sel (sregs s) LDTR) s)"
| "step M Rdmsr s =
     (let v = r_msr (sregs s) (ucast (gpr s RCX))
      in Some (set_gpr32 RDX (ucast (drop_bit 32 v)) (set_gpr32 RAX (ucast v) s)))"
| "step M Wrmsr s =
     (let v = push_bit 32 (gpr s RDX) OR take_bit 32 (gpr s RAX)
      in Some (s\<lparr>sregs := (sregs s)\<lparr>r_msr := (r_msr (sregs s))(ucast (gpr s RCX) := v)\<rparr>\<rparr>))"
| "step M Cpuid s =
     (case i_cpuid (isa M) (ucast (gpr s RAX)) (ucast (gpr s RCX)) of (a, b, c, d) \<Rightarrow>
        Some (set_gpr32 RDX d (set_gpr32 RCX c (set_gpr32 RBX b (set_gpr32 RAX a s)))))"
| "step M (Lsl d r) s =
     (case i_lsl (isa M) (ucast (gpr s r)) of
        Some v \<Rightarrow> Some ((set_gpr d v s)\<lparr>zf := True\<rparr>) | None \<Rightarrow> Some (s\<lparr>zf := False\<rparr>))"
| "step M (Lar d r) s =
     (case i_lar (isa M) (ucast (gpr s r)) of
        Some v \<Rightarrow> Some ((set_gpr d v s)\<lparr>zf := True\<rparr>) | None \<Rightarrow> Some (s\<lparr>zf := False\<rparr>))"
| "step M (Bsf d r) s =
     (if gpr s r = 0 then Some (s\<lparr>zf := True\<rparr>)
      else Some ((set_gpr d (of_nat (hd (filter (bit (gpr s r)) [0..<64]))) s)\<lparr>zf := False\<rparr>))"
| "step M (Vmxon b) s =
     (case vmxon_op (ops M) (core_mem s) (load64 (core_mem s) (gpr s b)) (core_vmx s) of
        (f, v) \<Rightarrow> Some (set_flags f (s\<lparr>core_vmx := v\<rparr>)))"
| "step M (Vmclear b) s =
     (case vmclear_op (ops M) (core_mem s) (load64 (core_mem s) (gpr s b)) (core_vmx s) of
        (f, v) \<Rightarrow> Some (set_flags f (s\<lparr>core_vmx := v\<rparr>)))"
| "step M (Vmptrld b) s =
     (case vmptrld_op (ops M) (core_mem s) (load64 (core_mem s) (gpr s b)) (core_vmx s) of
        (f, v) \<Rightarrow> Some (set_flags f (s\<lparr>core_vmx := v\<rparr>)))"
| "step M (Vmwrite r q) s =
     (case vmwrite_op (ops M) (gpr s r) (gpr s q) (core_vmx s) of
        (f, v) \<Rightarrow> Some (set_flags f (s\<lparr>core_vmx := v\<rparr>)))"
| "step M (Vmread b r) s =
     (case vmread_op (ops M) (gpr s r) (core_vmx s) of
        (f, w) \<Rightarrow> Some (set_flags f
          (if f = (False, False) then s\<lparr>core_mem := store64 (core_mem s) (gpr s b) w\<rparr> else s)))"
| "step M (Jz k) s = Some s" | "step M (Jc k) s = Some s" | "step M Ret s = Some s" | "step M Vmlaunch s = Some s"
| "step M (Far_ret a) s = Some s"

function exec :: "'v machine \<Rightarrow> instr list \<Rightarrow> 'v core \<Rightarrow> 'v outcome" where
  "exec M [] s = Runs_on"
| "exec M (i # is) s =
     (case i of
        Ret \<Rightarrow> (let (a, s) = pop_value s in Returns a s)
      | Far_ret next \<Rightarrow>
          (let (a, s) = pop_value s; (sel, s) = pop_value s;
               s = s\<lparr>sregs := (sregs s)\<lparr>r_sel := (r_sel (sregs s))(CS := ucast sel)\<rparr>\<rparr>
           in if a = next then exec M is s else Returns a s)
      | Jz k \<Rightarrow> exec M (if zf s then drop k is else is) s
      | Jc k \<Rightarrow> exec M (if cf s then drop k is else is) s
      | Vmlaunch \<Rightarrow> (case vmlaunch_op (ops M) (core_vmx s) of
                       Guest_runs v \<Rightarrow> In_guest v
                     | Launch_fails z c v \<Rightarrow> exec M is (set_flags (z, c) (s\<lparr>core_vmx := v\<rparr>)))
      | i \<Rightarrow> (case step M i s of None \<Rightarrow> Invalid_opcode | Some s \<Rightarrow> exec M is s))"
  by pat_completeness auto

termination
  by (relation "measure (\<lambda>(M, is, s). length is)") auto

section \<open>The wrappers\<close>

definition vmx_error_tail_code :: "instr list" where
  "vmx_error_tail_code = [Jz 3, Jc 4, Xor_reg RAX RAX, Ret, Mov_imm RAX 1, Ret, Mov_imm RAX 2, Ret]"

definition read_cr_code :: "cr_name \<Rightarrow> instr list" where "read_cr_code c = [Mov_from_cr RAX c, Ret]"
definition write_cr_code :: "cr_name \<Rightarrow> instr list" where "write_cr_code c = [Mov_to_cr c RDI, Ret]"
definition read_seg_code :: "segreg \<Rightarrow> instr list" where "read_seg_code g = [Mov_from_seg RAX g, Ret]"
definition write_seg_code :: "segreg \<Rightarrow> instr list" where "write_seg_code g = [Mov_to_seg g RDI, Ret]"
definition read_gdtr_code :: "instr list" where "read_gdtr_code = [Sgdt RDI, Ret]"
definition write_gdtr_code :: "instr list" where "write_gdtr_code = [Lgdt RDI, Ret]"
definition read_idtr_code :: "instr list" where "read_idtr_code = [Sidt RDI, Ret]"
definition write_idtr_code :: "instr list" where "write_idtr_code = [Cli, Lidt RDI, Sti, Ret]"
definition read_tr_code :: "instr list" where "read_tr_code = [Str RAX, Ret]"
definition read_ldtr_code :: "instr list" where "read_ldtr_code = [Sldt RAX, Ret]"
definition read_rflags_code :: "instr list" where "read_rflags_code = [Pushfq, Pop RAX, Ret]"
definition get_rsp_code :: "instr list" where "get_rsp_code = [Mov RAX RSP, Add_imm RAX 8, Ret]"
definition get_rip_code :: "instr list" where "get_rip_code = [Load64 RAX RSP 0, Ret]"
definition call_lsl_code :: "instr list" where "call_lsl_code = [Lsl RAX RDI, Ret]"
definition call_bsf_code :: "instr list" where "call_bsf_code = [Bsf RAX RDI, Ret]"

definition set_cs_code :: "u64 \<Rightarrow> instr list" where
  "set_cs_code done_at = [Mov_imm RAX done_at, Push RDI, Push RAX, Far_ret done_at, Ret]"

definition call_lar_code :: "instr list" where
  "call_lar_code = [Mov_imm RAX 0, Lar RAX RDI, Jz 1, Xor_reg RAX RAX, Ret]"

definition read_msr_code :: "instr list" where
  "read_msr_code = [Push RBP, Mov RBP RSP, Mov RCX RDI, Rdmsr, Shl RDX 32, Or_reg RAX RDX, Leave, Ret]"

definition write_msr_code :: "instr list" where
  "write_msr_code = [Mov32 RCX RDI, Mov32 RAX RSI, Shr RSI 32, Mov32 RDX RSI, Wrmsr, Ret]"

definition call_cpuid_code :: "instr list" where
  "call_cpuid_code = [Push RBX, Load32 RAX RDI 0, Load32 RCX RDI 8, Cpuid, Store32 RDI 0 RAX, Store32 RDI 4 RBX,
     Store32 RDI 8 RCX, Store32 RDI 12 RDX, Pop RBX, Ret]"

definition call_vmxon_code :: "instr list" where
  "call_vmxon_code = [Push RDI, Clc, Vmxon RSP, Pop RDI] @ vmx_error_tail_code"
definition call_vmclear_code :: "instr list" where
  "call_vmclear_code = [Push RDI, Vmclear RSP, Pop RDI] @ vmx_error_tail_code"
definition call_vmptrld_code :: "instr list" where
  "call_vmptrld_code = [Push RDI, Vmptrld RSP, Pop RDI] @ vmx_error_tail_code"
definition call_vmwrite_code :: "instr list" where
  "call_vmwrite_code = [Vmwrite RDI RSI] @ vmx_error_tail_code"
definition call_vmread_code :: "instr list" where
  "call_vmread_code = [Vmread RSI RDI] @ vmx_error_tail_code"
definition call_vmlaunch_code :: "instr list" where
  "call_vmlaunch_code = [Vmlaunch] @ vmx_error_tail_code"

section \<open>Calls\<close>

text \<open>A call from C++: the first two arguments in \<^verbatim>\<open>rdi\<close> and \<^verbatim>\<open>rsi\<close>, the return address on the stack.\<close>

definition sysv_call :: "'v machine \<Rightarrow> instr list \<Rightarrow> u64 \<Rightarrow> u64 \<Rightarrow> u64 \<Rightarrow> 'v core \<Rightarrow> 'v outcome" where
  "sysv_call M code ret a b s = exec M code (push_value ret (set_gpr RSI b (set_gpr RDI a s)))"

text \<open>What the calling convention promises to the caller: \<^verbatim>\<open>rbx\<close>, \<^verbatim>\<open>rbp\<close> and \<^verbatim>\<open>rsp\<close> are back.\<close>

definition sysv_keeps :: "'v core \<Rightarrow> 'v core \<Rightarrow> bool" where
  "sysv_keeps s t \<longleftrightarrow> gpr t RBX = gpr s RBX \<and> gpr t RBP = gpr s RBP \<and> gpr t RSP = gpr s RSP"

text \<open>The memory of a caller whose two top stack words were used.\<close>

definition stack_use :: "mem \<Rightarrow> u64 \<Rightarrow> u64 \<Rightarrow> u64 \<Rightarrow> mem" where
  "stack_use m sp v w = store64 (store64 m (sp - 8) v) (sp - 16) w"

lemma stack_apart [simp]:
  "load64 (store64 m (sp - 16) v) (sp - 8) = load64 m (sp - 8)"
proof -
  have "sp - 8 - (sp - 16) = (8 :: u64)" "sp - 16 - (sp - 8) = (- 8 :: u64)" by simp_all
  then have "separate (sp - 16) 8 (sp - 8) 8" by (simp only: separate_def) simp
  then show ?thesis by (rule load64_store64_separate)
qed

lemma push_word_below: "load64 (store64 m (sp - 16) v) sp = load64 m sp" for sp :: u64
proof -
  have "sp - (sp - 16) = (16 :: u64)" "sp - 16 - sp = (- 16 :: u64)" by simp_all
  then have "separate (sp - 16) 8 sp 8" by (simp only: separate_def) simp
  then show ?thesis by (rule load64_store64_separate)
qed

lemma load64_stack_use [simp]:
  "load64 (stack_use m sp v w) (sp - 8) = v" "load64 (stack_use m sp v w) (sp - 16) = w"
  by (simp_all add: stack_use_def load_store_same)

lemmas call_simps = sysv_call_def push_value_def pop_value_def set_gpr_def set_gpr16_def set_gpr32_def
  set_flags_def result_flags_def Let_def load_store_same sysv_keeps_def

lemma join_halves [simp]:
  fixes v :: u64
  shows "ucast (ucast v :: u32) OR push_bit 32 (ucast (ucast (drop_bit 32 v) :: u32)) = v"
    and "push_bit 32 (ucast (ucast (drop_bit 32 v) :: u32)) OR take_bit 32 (ucast (ucast v :: u32)) = v"
  by (rule bit_word_eqI, auto simp: bit_simps dest: bit_imp_le_length)+

lemma ucast_wide [simp]: "ucast (ucast a :: u64) = a" for a :: u32
  by (rule bit_word_eqI) (auto simp: bit_simps)

lemma msr_write_call:
  fixes msr :: u32
  shows "\<exists>t. sysv_call M write_msr_code ret (ucast msr) v s = Returns ret t \<and> sysv_keeps s t
     \<and> sregs t = (sregs s)\<lparr>r_msr := (r_msr (sregs s))(msr := v)\<rparr>"
  by (simp add: write_msr_code_def call_simps)

lemma msr_read_call:
  fixes msr :: u32
  shows "\<exists>t. sysv_call M read_msr_code ret (ucast msr) b s = Returns ret t \<and> sysv_keeps s t
     \<and> sregs t = sregs s \<and> gpr t RAX = r_msr (sregs s) msr"
  by (simp add: read_msr_code_def call_simps)

text \<open>The record of four 32 bit words that \<^verbatim>\<open>cpuid\<close> fills.\<close>

definition cpuid_bytes :: "u32 \<times> u32 \<times> u32 \<times> u32 \<Rightarrow> u8 list" where
  "cpuid_bytes r = (case r of (a, b, c, d) \<Rightarrow> to_le 4 a @ to_le 4 b @ to_le 4 c @ to_le 4 d)"

lemma store_cpuid:
  "store32 (store32 (store32 (store32 m p a) (p + 4) b) (p + 8) c) (p + 12) d = store_bytes m p (cpuid_bytes (a, b, c, d))"
proof -
  have "store_bytes (store_bytes m p xs) (p + 4) ys = store_bytes m p (xs @ ys)"
    if "length xs = 4" "length ys = 4" for xs ys :: "u8 list"
    using store_bytes_append[of xs ys m p] that by simp
  moreover have "store_bytes (store_bytes m p xs) (p + 8) ys = store_bytes m p (xs @ ys)"
    if "length xs = 8" "length ys = 4" for xs ys :: "u8 list"
    using store_bytes_append[of xs ys m p] that by simp
  moreover have "store_bytes (store_bytes m p xs) (p + 12) ys = store_bytes m p (xs @ ys)"
    if "length xs = 12" "length ys = 4" for xs ys :: "u8 list"
    using store_bytes_append[of xs ys m p] that by simp
  ultimately show ?thesis by (simp add: store32_def cpuid_bytes_def)
qed

lemma load_cpuid:
  "load32 (store_bytes m p (cpuid_bytes (a, b, c, d))) p = a"
  "load32 (store_bytes m p (cpuid_bytes (a, b, c, d))) (p + 4) = b"
  "load32 (store_bytes m p (cpuid_bytes (a, b, c, d))) (p + 8) = c"
  "load32 (store_bytes m p (cpuid_bytes (a, b, c, d))) (p + 12) = d"
  using load_bytes_inner[of 0 4 "cpuid_bytes (a, b, c, d)" m p] load_bytes_inner[of 4 4 "cpuid_bytes (a, b, c, d)" m p]
    load_bytes_inner[of 8 4 "cpuid_bytes (a, b, c, d)" m p] load_bytes_inner[of 12 4 "cpuid_bytes (a, b, c, d)" m p]
  by (simp_all add: load32_def cpuid_bytes_def)

lemma load64_store_bytes_separate:
  "separate p (length xs) q 8 \<Longrightarrow> load64 (store_bytes m p xs) q = load64 m q"
  by (simp add: load64_def load_store_bytes_separate)

lemma stack_use_outside:
  assumes "16 \<le> unat (x - (sp - 16))"
  shows "stack_use m sp v w x = m x"
proof -
  have "x - (sp - 8) = x - (sp - 16) - of_nat 8" by simp
  moreover have "unat (x - (sp - 16) - of_nat 8) = unat (x - (sp - 16)) - 8"
    using assms by (intro unat_sub_less(2)[of 8 0]) simp_all
  ultimately have "8 \<le> unat (x - (sp - 8))" using assms by (simp only:)
  then show ?thesis using assms by (simp add: stack_use_def store64_def store_bytes_def)
qed

lemma load32_stack_use:
  assumes "separate p 16 (sp - 16) 16" and "k \<le> 12"
  shows "load32 (stack_use m sp v w) (p + of_nat k) = load32 m (p + of_nat k)"
proof -
  have "stack_use m sp v w (p + of_nat k + of_nat i) = m (p + of_nat k + of_nat i)" if "i < 4" for i
  proof (rule stack_use_outside)
    have "separate (sp - 16) 16 p 16" using assms(1) separate_sym by blast
    from separate_offset[OF this, of "k + i"] show "16 \<le> unat (p + of_nat k + of_nat i - (sp - 16))"
      using that assms(2) by (simp add: add.assoc)
  qed
  then show ?thesis unfolding load32_def by (simp cong: load_bytes_cong)
qed

lemma cpuid_call:
  assumes p: "separate p 16 (gpr s RSP - 16) 16"
  shows "\<exists>t. sysv_call M call_cpuid_code ret p b s = Returns ret t \<and> sysv_keeps s t \<and> sregs t = sregs s
     \<and> core_mem t = store_bytes (stack_use (core_mem s) (gpr s RSP) ret (gpr s RBX)) p
         (cpuid_bytes (i_cpuid (isa M) (load32 (core_mem s) p) (load32 (core_mem s) (p + 8))))"
proof -
  let ?m = "stack_use (core_mem s) (gpr s RSP) ret (gpr s RBX)"
  have same: "load32 ?m p = load32 (core_mem s) p" "load32 ?m (p + 8) = load32 (core_mem s) (p + 8)"
    using load32_stack_use[OF p, of 0] load32_stack_use[OF p, of 8] by simp_all
  obtain a bb c d where r: "i_cpuid (isa M) (load32 (core_mem s) p) (load32 (core_mem s) (p + 8)) = (a, bb, c, d)"
    using prod_cases4 by blast
  have stk: "load64 (store_bytes ?m p (cpuid_bytes (a, bb, c, d))) (gpr s RSP - 16) = gpr s RBX"
    "load64 (store_bytes ?m p (cpuid_bytes (a, bb, c, d))) (gpr s RSP - 8) = ret"
    using separate_part[OF p, of 0 8] separate_part[OF p, of 8 8]
    by (simp_all add: load64_store_bytes_separate cpuid_bytes_def)
  show ?thesis
    by (simp add: call_cpuid_code_def call_simps same stack_use_def[symmetric] r store_cpuid stk)
qed

text \<open>
  A VMX wrapper that returns with the status of the flags \<open>f\<close> in \<^verbatim>\<open>rax\<close> and the processor's state
  \<open>v\<close>; the registers the caller relies on are kept.
\<close>

definition reports :: "'v machine \<Rightarrow> instr list \<Rightarrow> u64 \<Rightarrow> u64 \<Rightarrow> u64 \<Rightarrow> 'v core \<Rightarrow> (bool \<times> bool) \<times> 'v \<Rightarrow> bool" where
  "reports M code ret a b s fv \<longleftrightarrow>
     (\<exists>t. sysv_call M code ret a b s = Returns ret t \<and> sysv_keeps s t \<and> sregs t = sregs s
        \<and> gpr t RAX = vmx_error_tail (fst (fst fv)) (snd (fst fv)) \<and> core_vmx t = snd fv)"

lemmas vmx_call_simps = reports_def call_simps vmx_error_tail_code_def vmx_error_tail_def stack_use_def case_prod_unfold

lemma vmx_register_calls:
  "reports M call_vmwrite_code ret a b s (vmwrite_op (ops M) a b (core_vmx s))"
  by (simp add: call_vmwrite_code_def vmx_call_simps)

lemma vmx_memory_calls:
  "reports M call_vmxon_code ret a b s (vmxon_op (ops M) (stack_use (core_mem s) (gpr s RSP) ret a) a (core_vmx s))"
  "reports M call_vmclear_code ret a b s (vmclear_op (ops M) (stack_use (core_mem s) (gpr s RSP) ret a) a (core_vmx s))"
  "reports M call_vmptrld_code ret a b s (vmptrld_op (ops M) (stack_use (core_mem s) (gpr s RSP) ret a) a (core_vmx s))"
  by (simp_all add: call_vmxon_code_def call_vmclear_code_def call_vmptrld_code_def vmx_call_simps)

lemma vmlaunch_call:
  "case vmlaunch_op (ops M) (core_vmx s) of
     Guest_runs v \<Rightarrow> sysv_call M call_vmlaunch_code ret a b s = In_guest v
   | Launch_fails z c v \<Rightarrow> reports M call_vmlaunch_code ret a b s ((z, c), v)"
  by (simp add: call_vmlaunch_code_def vmx_call_simps split: launch.splits)

text \<open>\<^verbatim>\<open>call_vmread\<close> stores the value only on success, so the caller's variable keeps what it held.\<close>

lemma vmread_call:
  assumes "separate b 8 (gpr s RSP - 8) 8" and "vmread_op (ops M) a (core_vmx s) = (fl, w)"
  shows "\<exists>t. sysv_call M call_vmread_code ret a b s = Returns ret t \<and> sysv_keeps s t \<and> sregs t = sregs s
     \<and> gpr t RAX = vmx_error_tail (fst fl) (snd fl) \<and> core_vmx t = core_vmx s
     \<and> load64 (core_mem t) b = (if fl = (False, False) then w else load64 (core_mem s) b)"
  using assms
  by (simp add: call_vmread_code_def vmx_call_simps load64_store64_separate separate_sym)

text \<open>The instructions whose result the C++ code uses through the functions of \<^verbatim>\<open>x86utils.cc\<close>.\<close>

lemma result_calls:
  "\<exists>t. sysv_call M call_lar_code ret a b s = Returns ret t \<and> sysv_keeps s t \<and> gpr t RAX = call_lar (isa M) (ucast a)"
  "i_stale (isa M) = gpr s RAX \<Longrightarrow>
     \<exists>t. sysv_call M call_lsl_code ret a b s = Returns ret t \<and> sysv_keeps s t \<and> gpr t RAX = call_lsl (isa M) (ucast a)"
  "i_stale (isa M) = gpr s RAX \<Longrightarrow>
     \<exists>t. sysv_call M call_bsf_code ret a b s = Returns ret t \<and> sysv_keeps s t \<and> gpr t RAX = call_bsf (isa M) a"
  by (auto simp: call_lar_code_def call_lsl_code_def call_bsf_code_def call_simps call_lar_def call_lsl_def
      call_bsf_def split: option.splits)

text \<open>The wrappers around one register move. \<^verbatim>\<open>write_idtr\<close> leaves interrupts on whatever they were before.\<close>

lemma read_cr_push [simp]: "read_cr c (push_value v (set_gpr q w (set_gpr r x s))) = read_cr c s"
  by (cases c) (simp_all add: push_value_def set_gpr_def)

lemma cr_calls:
  "read_cr c s = Some v \<Longrightarrow>
     \<exists>t. sysv_call M (read_cr_code c) ret a b s = Returns ret t \<and> sysv_keeps s t \<and> sregs t = sregs s \<and> gpr t RAX = v"
  "c \<noteq> CR1 \<Longrightarrow> \<exists>t. sysv_call M (write_cr_code c) ret v b s = Returns ret t \<and> sysv_keeps s t \<and> read_cr c t = Some v
     \<and> (\<forall>c'. c' \<noteq> c \<longrightarrow> read_cr c' t = read_cr c' s)"
proof -
  show "\<exists>t. sysv_call M (read_cr_code c) ret a b s = Returns ret t \<and> sysv_keeps s t \<and> sregs t = sregs s \<and> gpr t RAX = v"
    if "read_cr c s = Some v"
    using that by (simp add: read_cr_code_def sysv_call_def)
      (simp add: call_simps)
  show "\<exists>t. sysv_call M (write_cr_code c) ret v b s = Returns ret t \<and> sysv_keeps s t \<and> read_cr c t = Some v
     \<and> (\<forall>c'. c' \<noteq> c \<longrightarrow> read_cr c' t = read_cr c' s)" if "c \<noteq> CR1"
    using that
    by (cases c; simp add: write_cr_code_def call_simps; intro allI; case_tac c'; simp)
qed

lemma low16 [simp]: "ucast ((x AND NOT (mask 16)) OR ucast v) = v" for x :: u64 and v :: u16
  by (rule bit_word_eqI) (auto simp: bit_simps)

lemma seg_calls:
  "g \<notin> {LDTR, TR} \<Longrightarrow> \<exists>t. sysv_call M (read_seg_code g) ret a b s = Returns ret t \<and> sysv_keeps s t
     \<and> ucast (gpr t RAX) = r_sel (sregs s) g"
  "g \<notin> {CS, LDTR, TR} \<Longrightarrow> \<exists>t. sysv_call M (write_seg_code g) ret a b s = Returns ret t \<and> sysv_keeps s t
     \<and> r_sel (sregs t) = (r_sel (sregs s))(g := ucast a)"
  by (cases g; simp add: read_seg_code_def call_simps)
    (cases g; simp add: write_seg_code_def call_simps)

lemma faulting_calls:
  "sysv_call M (read_cr_code CR1) ret a b s = Invalid_opcode"
  "sysv_call M (write_cr_code CR1) ret a b s = Invalid_opcode"
  "sysv_call M (write_seg_code CS) ret a b s = Invalid_opcode"
  by (simp_all add: read_cr_code_def write_cr_code_def write_seg_code_def sysv_call_def)

lemma system_calls:
  "\<exists>t. sysv_call M read_rflags_code ret a b s = Returns ret t \<and> sysv_keeps s t \<and> gpr t RAX = flags_word s"
  "\<exists>t. sysv_call M get_rsp_code ret a b s = Returns ret t \<and> sysv_keeps s t \<and> gpr t RAX = gpr s RSP"
  "\<exists>t. sysv_call M get_rip_code ret a b s = Returns ret t \<and> sysv_keeps s t \<and> gpr t RAX = ret"
  "\<exists>t. sysv_call M read_tr_code ret a b s = Returns ret t \<and> sysv_keeps s t \<and> ucast (gpr t RAX) = r_sel (sregs s) TR"
  "\<exists>t. sysv_call M read_ldtr_code ret a b s = Returns ret t \<and> sysv_keeps s t \<and> ucast (gpr t RAX) = r_sel (sregs s) LDTR"
  by (simp_all add: read_rflags_code_def get_rsp_code_def get_rip_code_def read_tr_code_def read_ldtr_code_def
      call_simps flags_word_def)

text \<open>\<^verbatim>\<open>set_cs\<close> goes through a far return to its own last instruction.\<close>

lemma stack_apart_24 [simp]:
  "load64 (store64 m (sp - 24) v) (sp - 16) = load64 m (sp - 16)"
  "load64 (store64 m (sp - 24) v) (sp - 8) = load64 m (sp - 8)"
  using stack_apart[of m "sp - 8" v] push_word_below[of m "sp - 8" v] by (simp_all add: diff_diff_eq)

lemma set_cs_call:
  "\<exists>t. sysv_call M (set_cs_code done_at) ret sel b s = Returns ret t \<and> sysv_keeps s t
     \<and> r_sel (sregs t) = (r_sel (sregs s))(CS := ucast sel)"
  by (simp add: set_cs_code_def call_simps)

text \<open>The descriptor table registers: ten bytes, the limit first.\<close>

definition dtr_bytes :: "u16 \<Rightarrow> u64 \<Rightarrow> u8 list" where
  "dtr_bytes limit base = to_le 2 limit @ to_le 8 base"

lemma store_dtr: "store64 (store16 m p limit) (p + 2) base = store_bytes m p (dtr_bytes limit base)"
  using store_bytes_append[of "to_le 2 limit" "to_le 8 base" m p] by (simp add: store16_def store64_def dtr_bytes_def)

lemma length_dtr_bytes [simp]: "length (dtr_bytes limit base) = 10"
  by (simp add: dtr_bytes_def)

lemma load_dtr:
  "load16 (store_bytes m p (dtr_bytes limit base)) p = limit"
  "load64 (store_bytes m p (dtr_bytes limit base)) (p + 2) = base"
  using load_bytes_inner[of 0 2 "dtr_bytes limit base" m p] load_bytes_inner[of 2 8 "dtr_bytes limit base" m p]
  by (simp_all add: load16_def load64_def dtr_bytes_def)

lemma load_dtr_stack:
  assumes "separate b 10 q 8"
  shows "load16 (store64 m q v) b = load16 m b" "load64 (store64 m q v) (b + 2) = load64 m (b + 2)"
proof -
  have "store64 m q v (b + of_nat i) = m (b + of_nat i)" if "i < 10" for i
    using separate_offset[OF assms[unfolded separate_sym[of b]] that] by (simp add: store64_def store_bytes_def)
  then have e: "load_bytes (store64 m q v) (b + of_nat k) n = load_bytes m (b + of_nat k) n" if "k + n \<le> 10" for k n
    using that by (intro load_bytes_cong) (simp add: add.assoc flip: of_nat_add)
  show "load16 (store64 m q v) b = load16 m b" "load64 (store64 m q v) (b + 2) = load64 m (b + 2)"
    using e[of 0 2] e[of 2 8] by (simp_all add: load16_def load64_def)
qed

lemma set_unset_bit [simp]: "set_bit 9 (unset_bit 9 x) = set_bit 9 x" for x :: u64
  by (rule bit_word_eqI) (auto simp: bit_simps)

lemma dtr_write_calls:
  assumes "separate b 10 (gpr s RSP - 8) 8"
  shows "\<exists>t. sysv_call M write_gdtr_code ret b c s = Returns ret t \<and> sysv_keeps s t
     \<and> sregs t = (sregs s)\<lparr>r_gdtr_base := load64 (core_mem s) (b + 2), r_gdtr_limit := load16 (core_mem s) b\<rparr>"
    and "\<exists>t. sysv_call M write_idtr_code ret b c s = Returns ret t \<and> sysv_keeps s t
     \<and> sregs t = (sregs s)\<lparr>r_rflags := set_bit 9 (r_rflags (sregs s)),
          r_idtr_base := load64 (core_mem s) (b + 2), r_idtr_limit := load16 (core_mem s) b\<rparr>"
  by (simp_all add: write_gdtr_code_def write_idtr_code_def call_simps load_dtr_stack[OF assms])

lemma dtr_read_calls:
  assumes "separate b 10 (gpr s RSP - 8) 8"
  shows "\<exists>t. sysv_call M read_gdtr_code ret b c s = Returns ret t \<and> sysv_keeps s t \<and> sregs t = sregs s
     \<and> load64 (core_mem t) (b + 2) = r_gdtr_base (sregs s) \<and> load16 (core_mem t) b = r_gdtr_limit (sregs s)"
    and "\<exists>t. sysv_call M read_idtr_code ret b c s = Returns ret t \<and> sysv_keeps s t \<and> sregs t = sregs s
     \<and> load64 (core_mem t) (b + 2) = r_idtr_base (sregs s) \<and> load16 (core_mem t) b = r_idtr_limit (sregs s)"
  using assms
  by (simp_all add: read_gdtr_code_def read_idtr_code_def call_simps store_dtr load_dtr load64_store_bytes_separate)

section \<open>Properties\<close>


text \<open>
  C19. Every VMX wrapper reports the flags of its instruction: 1 for a failure with an error number
  (ZF), 2 for one without (CF), 0 for success, with the processor in the state the instruction left.
  The instruction gets the argument of the call, through the stack where it takes a memory operand;
  \<^verbatim>\<open>call_vmlaunch\<close> returns exactly when no guest runs; \<^verbatim>\<open>call_vmread\<close> stores a value only on success.
\<close>

theorem vmx_wrappers_report_status:
  assumes "separate b 8 (gpr s RSP - 8) 8"
  shows "reports M call_vmwrite_code ret a b s (vmwrite_op (ops M) a b (core_vmx s))
    \<and> (let m = stack_use (core_mem s) (gpr s RSP) ret a
       in reports M call_vmxon_code ret a b s (vmxon_op (ops M) m a (core_vmx s))
        \<and> reports M call_vmclear_code ret a b s (vmclear_op (ops M) m a (core_vmx s))
        \<and> reports M call_vmptrld_code ret a b s (vmptrld_op (ops M) m a (core_vmx s)))
    \<and> (case vmread_op (ops M) a (core_vmx s) of (flags, w) \<Rightarrow>
         \<exists>t. sysv_call M call_vmread_code ret a b s = Returns ret t \<and> sysv_keeps s t
           \<and> gpr t RAX = vmx_error_tail (fst flags) (snd flags) \<and> core_vmx t = core_vmx s
           \<and> load64 (core_mem t) b = (if flags = (False, False) then w else load64 (core_mem s) b))
    \<and> (case vmlaunch_op (ops M) (core_vmx s) of
         Guest_runs v \<Rightarrow> sysv_call M call_vmlaunch_code ret a b s = In_guest v
       | Launch_fails z c v \<Rightarrow> reports M call_vmlaunch_code ret a b s ((z, c), v))"
proof -
  have "case vmread_op (ops M) a (core_vmx s) of (flags, w) \<Rightarrow>
       \<exists>t. sysv_call M call_vmread_code ret a b s = Returns ret t \<and> sysv_keeps s t
         \<and> gpr t RAX = vmx_error_tail (fst flags) (snd flags) \<and> core_vmx t = core_vmx s
         \<and> load64 (core_mem t) b = (if flags = (False, False) then w else load64 (core_mem s) b)"
  proof -
    obtain fl w where r: "vmread_op (ops M) a (core_vmx s) = (fl, w)" by (rule prod.exhaust)
    show ?thesis using vmread_call[OF assms r, of ret] unfolding r prod.case by blast
  qed
  then show ?thesis by (simp add: vmx_register_calls vmx_memory_calls vmlaunch_call)
qed

text \<open>
  C21. \<^verbatim>\<open>call_cpuid\<close> fills the caller's record with the four result registers for the leaf and
  subleaf the record held, in the order \<^verbatim>\<open>eax ebx ecx edx\<close>, and changes no other memory but the
  sixteen bytes below the stack pointer; \<^verbatim>\<open>rbx\<close>, which the instruction overwrites, is restored.
\<close>

theorem cpuid_wrapper_fills_record:
  assumes "separate p 16 (gpr s RSP - 16) 16"
  shows "\<exists>t. sysv_call M call_cpuid_code ret p b s = Returns ret t \<and> sysv_keeps s t \<and> sregs t = sregs s
     \<and> i_cpuid (isa M) (load32 (core_mem s) p) (load32 (core_mem s) (p + 8)) =
         (load32 (core_mem t) p, load32 (core_mem t) (p + 4), load32 (core_mem t) (p + 8), load32 (core_mem t) (p + 12))
     \<and> (\<forall>x. 16 \<le> unat (x - p) \<and> 16 \<le> unat (x - (gpr s RSP - 16)) \<longrightarrow> core_mem t x = core_mem s x)"
proof -
  obtain t where t: "sysv_call M call_cpuid_code ret p b s = Returns ret t" "sysv_keeps s t" "sregs t = sregs s"
      "core_mem t = store_bytes (stack_use (core_mem s) (gpr s RSP) ret (gpr s RBX)) p
         (cpuid_bytes (i_cpuid (isa M) (load32 (core_mem s) p) (load32 (core_mem s) (p + 8))))"
    using cpuid_call[OF assms] by blast
  obtain a bb c d where r: "i_cpuid (isa M) (load32 (core_mem s) p) (load32 (core_mem s) (p + 8)) = (a, bb, c, d)"
    using prod_cases4 by blast
  have "length (cpuid_bytes (a, bb, c, d)) = 16" by (simp add: cpuid_bytes_def)
  then have "core_mem t x = core_mem s x" if "16 \<le> unat (x - p)" "16 \<le> unat (x - (gpr s RSP - 16))" for x
    using that by (simp add: t(4) r store_bytes_def stack_use_outside)
  then show ?thesis using t by (intro exI[of _ t]) (simp add: r load_cpuid)
qed

section \<open>Witnesses\<close>

definition sample_core :: "(u64 \<Rightarrow> u64) core" where
  "sample_core = \<lparr>gpr = (\<lambda>r. if r = RSP then 0x8000 else 0), zf = False, cf = True, core_mem = (\<lambda>_. 0),
     sregs = sample_regs, reg_cr2 = 0, reg_dr7 = 0x400, core_vmx = (\<lambda>_. 7)\<rparr>"

theorem vmx_wrappers_report_status_witness:
  "\<exists>t. sysv_call sample_machine call_vmread_code 0x20000 0x4402 0x7000 sample_core = Returns 0x20000 t
     \<and> gpr t RAX = 0 \<and> load64 (core_mem t) 0x7000 = 7"
  using vmx_wrappers_report_status[where s = sample_core and b = "0x7000" and M = sample_machine and a = "0x4402"
      and ret = "0x20000"]
  by (auto simp: sample_core_def sample_machine_def map_vmx_def separate_def vmx_error_tail_def)

theorem cpuid_wrapper_fills_record_witness:
  "\<exists>t. sysv_call sample_machine call_cpuid_code 0x20000 0x7000 0 sample_core = Returns 0x20000 t
     \<and> gpr t RBX = 0 \<and> load32 (core_mem t) (0x7000 + 4) = fst (snd (i_cpuid sample_x86 0 0))"
proof -
  have z: "load32 (\<lambda>_. 0) a = 0" for a by (simp add: load32_def load_bytes_def upt_rec)
  have "separate 0x7000 16 (gpr sample_core RSP - 16) 16" by (simp add: sample_core_def separate_def)
  from cpuid_wrapper_fills_record[OF this, of sample_machine "0x20000" 0]
  show ?thesis by (auto simp: sample_core_def sample_machine_def z sysv_keeps_def)
qed

end
