(* ===== verification/Spec2Isabelle.thy ===== *)
theory Spec2Isabelle
  imports Loader Llist Services Exits Relocs Abi Asm
begin

text \<open>
  \<^bold>\<open>A model of the violet hypervisor and its loader.\<close>

  The program is a small type 2 style hypervisor for Intel processors (\<^verbatim>\<open>src/hypervisor\<close>), a UEFI
  loader that maps it into memory and gives it six services (\<^verbatim>\<open>src/loader\<close>), and freestanding
  support code for both (\<^verbatim>\<open>src/freestanding\<close>). The loader starts the hypervisor through
  \<^verbatim>\<open>visor_main\<close>; this reads the memory type registers (\<^verbatim>\<open>ept_init_mtrr\<close>) and runs \<^verbatim>\<open>cpu_init\<close> on the
  core: it enters VMX operation, builds page tables for guest physical memory (\<^verbatim>\<open>ept_init_core\<close>),
  fills the VMCS so that the guest is the running system itself, checks the guest state
  (\<^verbatim>\<open>cpu_vmxcheck\<close>) and launches it. Exits of the guest arrive in \<^verbatim>\<open>host_vmexit\<close>.

  \<^bold>\<open>Theories and sources.\<close>

  \<^item> \<open>Prelude\<close>: machine words, bit-fields (\<open>bf_get\<close>, \<open>bf_set\<close>), little endian bytes, counted loops with
    and without errors.
  \<^item> \<open>Memory\<close>: the flat 64 bit memory with loads and stores; \<^verbatim>\<open>freestanding/libc/memfuncs.{S,cc}\<close>
    (\<open>memset\<close>, \<open>memcpy\<close> on the byte loops of \<^verbatim>\<open>rep stosb\<close> and \<^verbatim>\<open>rep movsb\<close>). The locale \<open>cell_memory\<close> is
    what builders of tables rely on (aligned 8 byte cells, slots of a page).
  \<^item> \<open>Libc\<close>: \<^verbatim>\<open>freestanding/libc/{string,itoa}.cc\<close>.
  \<^item> \<open>Ia32\<close>: the names of \<^verbatim>\<open>external/ia32-doc/out/ia32.hpp\<close>, a header that is not part of the sources.
    Every number and bit position of it is a parameter \<open>d :: ia32\<close>; what a property needs of it is a named
    hypothesis (\<open>ept_layout\<close>, \<open>memory_types\<close>, \<open>vmcs_encodings\<close>, ...) that states the layout the Intel
    SDM documents. \<open>sdm\<close> is the value with the SDM's numbers; the witnesses use it.
  \<^item> \<open>X86utils\<close>: \<^verbatim>\<open>freestanding/x86utils.{h,cc,S}\<close>: page table indices, segment bases, limits and access
    rights. The locale \<open>page_index\<close> is the contract of splitting and joining an address.
  \<^item> \<open>Mtrr\<close>: \<^verbatim>\<open>hypervisor/ept.cc\<close>, lines 1 to 173: the table of memory type ranges and its lookup.
  \<^item> \<open>Ept\<close>: \<^verbatim>\<open>hypervisor/ept.cc\<close>, lines 175 to 334: the four level page tables in memory.
  \<^item> \<open>Vmxcheck\<close>: \<^verbatim>\<open>hypervisor/vmxcheck.cc\<close>: the guest state checks with the messages they log.
  \<^item> \<open>Cpu\<close>: \<^verbatim>\<open>hypervisor/cpu.{h,cc}\<close>: \<open>cpu_init\<close> from the reset of the core state to the launch, cut
    at the points where the source has comments or early returns.
  \<^item> \<open>Visor\<close>: \<^verbatim>\<open>hypervisor/main.cc\<close>, the way into the exit handler of \<^verbatim>\<open>hypervisor/host.{cc,S}\<close> and the
    multiprocessor call of \<^verbatim>\<open>loader/efi/mp.cc\<close>. \<open>Exits\<close>: the way back of \<^verbatim>\<open>host.S\<close> and the run of a
    guest through its exits as the step relation \<open>hv_step\<close>.
  \<^item> \<open>Asm\<close>: the wrappers of \<^verbatim>\<open>freestanding/x86utils.S\<close> as lists of instructions over a model of the
    instructions they use (\<open>step\<close>, \<open>exec\<close>) and calls of them under the System V convention
    (\<open>sysv_call\<close>). The other theories use the functions these wrappers compute.
  \<^item> \<open>Abi\<close>: the structs of the headers as lists of members with the compiler's placement, compared
    with the UEFI tables and with the offsets that the other theories use.
  \<^item> \<open>Firmware\<close>: the types of \<^verbatim>\<open>freestanding/efi\<close> that the loader uses, the services of the firmware as a
    record \<open>'f efi\<close> over an arbitrary firmware state (a parameter everywhere), and the record \<open>'f ldr\<close>
    with the memory, the descriptor table registers, the messages and one field per global
    variable of \<^verbatim>\<open>loader/efi\<close>.
  \<^item> \<open>Allocator\<close>: \<^verbatim>\<open>allocator.cc\<close>, the table of 4096 page allocations behind \<open>new\<close> and \<open>delete\<close>. The locale
    \<open>page_heap\<close> is the contract of the table, interpreted on the code's operations.
  \<^item> \<open>Gfx\<close>: \<^verbatim>\<open>gfx.cc\<close> (mode selection, drawing) and \<^verbatim>\<open>input.cc\<close>. \<open>Console\<close>: \<^verbatim>\<open>console.cc\<close> and the services of
    \<^verbatim>\<open>mp.cc\<close>, with an abstract screen.
  \<^item> \<open>Llist\<close>: \<^verbatim>\<open>freestanding/llist.h\<close> on a heap of nodes; the locale \<open>link_walk\<close> is a walk along links.
  \<^item> \<open>Tables\<close>: \<^verbatim>\<open>idt.cc\<close>, \<^verbatim>\<open>idt.S\<close>, \<^verbatim>\<open>idt.h\<close> and \<^verbatim>\<open>gdt.cc\<close>: the loader's own descriptor tables, the
    exception handlers and the stubs around them.
  \<^item> \<open>Elf\<close>: \<^verbatim>\<open>freestanding/elf.h\<close>, \<^verbatim>\<open>elf_mapper.{h,cc}\<close>: segments, relocations, imports, lookups.
    \<open>Relocs\<close>: the relocation of a whole image.
  \<^item> \<open>Loader\<close>: \<^verbatim>\<open>string_utils.cc\<close>, \<^verbatim>\<open>fs.cc\<close>, \<^verbatim>\<open>loader.cc\<close> and \<^verbatim>\<open>main.cc\<close>: the whole run of \<open>efi_main\<close>, with
    the hypervisor it calls as an argument. \<open>Services\<close>: the page tables of the hypervisor on the
    loader's \<^verbatim>\<open>imp_malloc\<close> and the firmware behind it; the locale \<open>page_source\<close> is the contract of a source
    of pages.
  \<^item> \<open>Spec2Isabelle\<close> (this theory): properties that span components.

  \<^bold>\<open>State.\<close> Registers, memory, the number of pages taken and the log are records that the operations
  return updated. The memory is one function from addresses to bytes, so the page tables, the core
  state and the segment descriptors live in the same place as in the program. The VMX instructions
  are a parameter \<open>vmx_ops\<close> over an abstract VMX state; \<open>vmcs_laws\<close> is the documented behaviour of VMREAD
  and VMWRITE on a current VMCS, and \<open>map_vmx\<close> a processor that has it. \<^verbatim>\<open>ldr_malloc\<close> forwards to the
  firmware, so its \<open>k\<close>-th answer is a parameter \<open>pg k\<close>; \<open>fresh_pages\<close> says that the answers are aligned and
  distinct pages below \<open>2 ^ 48\<close>.

  \<^bold>\<open>What the lemmas show.\<close>

  \<^item> Memory types: the table that initialisation builds is the one the registers describe, a page
    below 1 MB has the type of its fixed range byte, a page elsewhere the SDM's combination of the
    matching variable ranges. Ranges inside a large request are missed, and a full table is overrun
    by its end marker.
  \<^item> Page tables: in split blocks the processor's walk is the identity with the right type, the
    lookup finds the entries that were written, nothing outside the allocated pages changes, and the
    number of pages is exact. Large pages are mapped to 512 times their address.
  \<^item> Core set up: control words and control registers are legal, the VMCS reads back as computed,
    the failure paths return before they touch the VMCS; the exit handler's stack lies on the MSR bitmap
    and a started guest repeats the set up.
  \<^item> Guest checks: on long mode kernels they agree with the SDM; three rules are inverted or too
    strict elsewhere.
  \<^item> Loader: \<open>new\<close> and \<open>delete\<close> implement a map from addresses to page counts and never hand out
    overlapping blocks; the console writes only into its buffer; waiting for a key returns exactly
    when one is delivered; the list walks terminate. The new IDT and GDT are the old ones with
    the hooks and the task state segment, up to a byte that is lost, and a run of \<open>efi_main\<close> restores
    both registers but not TR.
  \<^item> ELF: the image is what the program headers say, the last one winning, and stays within the pages
    asked for; relative relocations add the load address once to every word, for a single section
    and for a whole image (\<open>map_to_relocates_image\<close>); the cases in which a relocation differs from the ABI. From the file on disk to the call of the entry point
    (\<open>loader_boots_image\<close>), and what happens without a file (\<open>loader_runs_without_file\<close>).
  \<^item> Exits: with the handler's pointer set, an exit gives the guest its registers back and changes nothing
    else, so a guest at an instruction that exits stays there for ever; the sources never set it.
  \<^item> Assembly and layout: the wrappers keep the calling convention and compute what the other
    theories take them to compute; the firmware's tables have the UEFI offsets; structs are laid out
    without overlap.
  \<^item> Services: with a firmware that keeps its contract the answers of \<open>imp_malloc\<close> are fresh pages, so the
    hypotheses of the page table properties hold and the tables overwrite nothing given out before.
  \<^item> Across components: the guest's view of the first megabyte (\<open>guest_memory_below_1mb\<close>).

  \<^bold>\<open>Bounds and fuel.\<close> No definition has fuel. Loops with a fixed bound are \<open>for_range\<close> or \<open>for_each_ok\<close> with
  the source's bound (512 entries per table, 8 types per register, 343 ranges, 4096 allocations);
  the loops that may run forever (\<open>strlen\<close>, \<open>strcmp\<close>, \<open>itoa\<close>, input, console) are option valued and the properties say
  when they return. Array accesses that the source does not guard are error values
  (\<open>Out_of_bounds\<close>, \<open>Bad_core_index\<close>, \<open>Roots_out_of_bounds\<close>).

  \<^bold>\<open>Not modelled.\<close> Log lines that only announce progress. What a guest does between two exits, VMRESUME,
  the stack frames of compiled code and the addresses the linker chooses are parameters of \<open>Exits\<close>.
  In the loader a message is an event in a list; what the console does with a text is \<open>Console\<close>. The
  drawing on the screen is a sequence of calls of the firmware. \<^verbatim>\<open>loader/exports_stubbed.cc\<close> has bodies
  without code. The wrappers of INVEPT and INVVPID are fields of \<open>vmx_ops\<close>, since nothing reads their
  status; \<^verbatim>\<open>efi_mp_proc\<close> is only passed to a call that is never reached. Enumerators that nothing
  uses and the values of the GUIDs have no counterpart. \<open>loader_boots_image\<close> is about files without section headers; files with sections are the
  subject of the properties of \<open>Elf\<close> and \<open>Relocs\<close>.
\<close>

section \<open>The memory map of the guest\<close>

text \<open>The walk of the processor depends on the four entries it reads only.\<close>

lemma sdm_translate_cong:
  assumes "load64 m' (slot (sdm_table eptp) (sdm_index 39 a)) = load64 m (slot (sdm_table eptp) (sdm_index 39 a))"
    and "e4 = load64 m (slot (sdm_table eptp) (sdm_index 39 a))"
    and "load64 m' (slot (sdm_table e4) (sdm_index 30 a)) = load64 m (slot (sdm_table e4) (sdm_index 30 a))"
    and "e3 = load64 m (slot (sdm_table e4) (sdm_index 30 a))"
    and "load64 m' (slot (sdm_table e3) (sdm_index 21 a)) = load64 m (slot (sdm_table e3) (sdm_index 21 a))"
    and "e2 = load64 m (slot (sdm_table e3) (sdm_index 21 a))"
    and "\<not> bit e2 7 \<Longrightarrow>
         load64 m' (slot (sdm_table e2) (sdm_index 12 a)) = load64 m (slot (sdm_table e2) (sdm_index 12 a))"
  shows "sdm_translate m' eptp a = sdm_translate m eptp a"
  unfolding sdm_translate_def Let_def assms(1) assms(2)[symmetric] assms(3) assms(4)[symmetric] assms(5)
    assms(6)[symmetric]
  using assms(7) by auto

lemma translate_outside_store:
  assumes "ept_layout d" "memory_types d" "allocs s = 0" "fresh_pages pg (pd_index d mt 512)" "unat a < 2 ^ 39"
    and "aligned8 b" "\<forall>k < pd_index d mt 512. page_of b \<noteq> page_of (pg k)"
  defines "s' \<equiv> ept_init_core d mt pg s"
  shows "sdm_translate (store64 (emem s') b v) (core_ept_ptr s') a = sdm_translate (emem s') (core_ept_ptr s') a"
proof -
  let ?i = "sdm_index 30 a" and ?j = "sdm_index 21 a"
  let ?N = "pd_index d mt 512"
  note w = built_walk[OF assms(1-5), folded s'_def]
  have us: "usable_page (pg k)" if "k < ?N" for k using fresh_usable[OF assms(4) that] .
  note t = sdm_table_entries[OF assms(1) us]
  have g: "0 < ?N" "1 < ?N" using pd_index_ge[of d mt 512] by auto
  have keep: "load64 (store64 (emem s') b v) (slot (pg k) n) = load64 (emem s') (slot (pg k) n)"
    if "k < ?N" "n < 512" for k n
  proof -
    have al: "page_aligned (pg k)" using fresh_aligned[OF assms(4) that(1)] .
    have "b \<noteq> slot (pg k) n" using assms(7) that al by auto
    then show ?thesis using assms(6) al by (simp add: load64_store64_aligned)
  qed
  have root: "sdm_table (core_ept_ptr s') = pg 0"
    using ept_init_core_image(2)[OF assms(1-4)] t(3)[OF g(1)] by (simp add: s'_def)
  have p1: "sdm_table (table_entry d Ept_pml4 (pg 1)) = pg 1" by (rule t(1)[OF g(2)]) simp
  note less = table_index_less[OF sdm_index_less sdm_index_less, of d mt]
  show ?thesis
  proof (rule sdm_translate_cong[OF _ w(1)[symmetric] _ w(2)[symmetric] _ refl])
    show "load64 (store64 (emem s') b v) (slot (sdm_table (core_ept_ptr s')) (sdm_index 39 a)) =
          load64 (emem s') (slot (sdm_table (core_ept_ptr s')) (sdm_index 39 a))"
      unfolding root by (rule keep[OF g(1) sdm_index_less])
    show "load64 (store64 (emem s') b v) (slot (sdm_table (table_entry d Ept_pml4 (pg 1))) ?i) =
          load64 (emem s') (slot (sdm_table (table_entry d Ept_pml4 (pg 1))) ?i)"
      unfolding p1 by (rule keep[OF g(2) sdm_index_less])
    show "load64 (store64 (emem s') b v) (slot (sdm_table (table_entry d Epdpte (pg (pd_index d mt ?i)))) ?j) =
          load64 (emem s') (slot (sdm_table (table_entry d Epdpte (pg (pd_index d mt ?i)))) ?j)"
      unfolding w(3) by (rule keep[OF less(1) sdm_index_less])
    assume nb: "\<not> bit (load64 (emem s') (slot (sdm_table (table_entry d Epdpte (pg (pd_index d mt ?i)))) ?j)) 7"
    then have sp: "is_split d mt ?i ?j"
      using w(4) unfolding w(3) pde_ok_def by (auto simp: bit_big_entry[OF assms(1)] split: if_splits)
    then have e2: "load64 (emem s') (slot (sdm_table (table_entry d Epdpte (pg (pd_index d mt ?i)))) ?j) =
        split_entry d (pg (pd_index d mt ?i + 1 + splits_before d mt ?i ?j))"
      using w(4) unfolding w(3) pde_ok_def by simp
    show "load64 (store64 (emem s') b v) (slot (sdm_table (load64 (emem s')
        (slot (sdm_table (table_entry d Epdpte (pg (pd_index d mt ?i)))) ?j))) (sdm_index 12 a)) =
      load64 (emem s') (slot (sdm_table (load64 (emem s')
        (slot (sdm_table (table_entry d Epdpte (pg (pd_index d mt ?i)))) ?j))) (sdm_index 12 a))"
      unfolding e2 w(5)[OF sp] by (rule keep[OF less(2)[OF sp] sdm_index_less])
  qed
qed


lemma first_block_split:
  assumes "ept_init_mtrr d x msrs = Inr st" "fixed_active d msrs"
  shows "ept_get_memory_type d st 0 0x200000 = cst d MEMORY_TYPE_INVALID"
  using assms(2)
  by (simp add: get_type_scan[OF assms(1)] mtrr_table_def fixed_blocks_def fixed_table_Cons upt_conv_Cons
      fixed_entry_def del: upt_Suc)

lemma configured_tables:
  fixes st :: u64
  assumes "vmcs_laws (ops M) cur" "cur (vmx s)" "vmcs_encodings (doc M)"
    and "field_width (vmcs_enc (doc M) (Ctrl VMCS_CTRL_EPT_POINTER)) = 64"
  defines "e \<equiv> ept_init_core (doc M) (mem_types M) (pages M)
     \<lparr>emem = store64 (cmem s) (st + off_status_code) 1, allocs = mallocs s, core_ept_ptr = 0, elog = []\<rparr>"
  shows "cmem (configure_vmcs M st c s) = store64 (emem e) (st + off_ept (doc M)) (core_ept_ptr e)"
    and "cpu_vmxread_value M (vmx (configure_vmcs M st c s)) (Ctrl VMCS_CTRL_EPT_POINTER) = core_ept_ptr e"
proof -
  let ?b = "before_writes M st s"
  have m: "cmem ?b = store64 (emem e) (st + off_ept (doc M)) (core_ept_ptr e)"
    by (simp add: before_writes_def run_ept_init_def Let_def e_def say_def)
  have "cur (vmx ?b)" using assms(2) by simp
  then obtain v where "configure_vmcs M st c s = ?b\<lparr>vmx := v\<rparr>"
    using write_vmcs_ok[OF assms(1) _ assms(3)] configure_vmcs_image[OF assms(1-3)] by metis
  then show "cmem (configure_vmcs M st c s) = store64 (emem e) (st + off_ept (doc M)) (core_ept_ptr e)"
    by (simp add: m)
  have "map_of (vmcs_image M st (cregs s) (cmem ?b) c) (Ctrl VMCS_CTRL_EPT_POINTER) = Some (core_ept_ptr e)"
    by (simp add: vmcs_image_def host_state_writes_def control_writes_def Let_def m load_store_same)
  then show "cpu_vmxread_value M (vmx (configure_vmcs M st c s)) (Ctrl VMCS_CTRL_EPT_POINTER) = core_ept_ptr e"
    using configure_vmcs_reads[OF assms(1-3), of st c "Ctrl VMCS_CTRL_EPT_POINTER"] assms(4)
    by (simp add: take_bit_word_eq_self)
qed

text \<open>
  C1. The guest's view of the first megabyte, across all parts of the hypervisor: with the table of
  memory types that \<open>ept_init_mtrr\<close> reads from the processor, the page tables that \<open>ept_init_core\<close>
  builds and the EPT pointer that \<open>cpu_init\<close> stores in the VMCS, the processor's walk maps every guest
  physical address below 1 MB to itself, with the type of its fixed range register.
\<close>

theorem guest_memory_below_1mb:
  assumes "ept_layout (doc M)" "memory_types (doc M)" "vmcs_encodings (doc M)"
    and "vmcs_laws (ops M) cur" "cur (vmx s)"
    and "field_width (vmcs_enc (doc M) (Ctrl VMCS_CTRL_EPT_POINTER)) = 64"
    and "ept_init_mtrr (doc M) (isa M) (r_msr (cregs s)) = Inr mtrrs" "fixed_active (doc M) (r_msr (cregs s))"
    and "mem_types M = ept_get_memory_type (doc M) mtrrs"
    and "mallocs s = 0" "fresh_pages (pages M) (pd_index (doc M) (mem_types M) 512)"
    and "aligned8 (st + off_ept (doc M))"
    and "\<forall>k < pd_index (doc M) (mem_types M) 512. page_of (st + off_ept (doc M)) \<noteq> page_of (pages M k)"
    and "unat a < 0x100000"
  shows "let s' = configure_vmcs M st c s
         in sdm_translate (cmem s') (cpu_vmxread_value M (vmx s') (Ctrl VMCS_CTRL_EPT_POINTER)) a =
              Some (a, take_bit 3 (ucast (sdm_fixed_type (doc M) (r_msr (cregs s)) (unat (a AND NOT (mask 12))))))"
proof -
  let ?mt = "mem_types M"
  define s0 where "s0 = \<lparr>emem = store64 (cmem s) (st + off_status_code) 1, allocs = mallocs s, core_ept_ptr = 0, elog = []\<rparr>"
  have s0: "allocs s0 = 0" using assms(10) by (simp add: s0_def)
  have lim: "unat a < 2 ^ 39" using assms(14) by simp
  note t = configured_tables[OF assms(4,5,3,6), of st c, folded s0_def]
  have blk: "a AND NOT (mask 21) = 0"
  proof (rule bit_word_eqI)
    fix n
    have "take_bit 20 a = a" using assms(14) by (intro take_bit_self_unat) simp
    then have "bit a n \<Longrightarrow> n < 20" by (metis bit_take_bit_iff)
    then show "bit (a AND NOT (mask 21)) n \<longleftrightarrow> bit (0 :: u64) n"
      by (auto simp: bit_and_iff bit_not_iff bit_mask_iff)
  qed
  have "page_aligned (a AND NOT (mask 12))"
    unfolding page_aligned_def by (rule bit_word_eqI) (auto simp: bit_simps)
  moreover have "unat (a AND NOT (mask 12)) < 0x100000"
    using assms(14) word_and_le2[of a "NOT (mask 12)"] by (simp add: word_le_nat_alt)
  ultimately have "?mt (a AND NOT (mask 12)) 0x1000 =
      ucast (sdm_fixed_type (doc M) (r_msr (cregs s)) (unat (a AND NOT (mask 12))))"
    unfolding assms(9) using fixed_range_type[OF assms(7,8)] by blast
  moreover have "?mt (a AND NOT (mask 21)) 0x200000 = cst (doc M) MEMORY_TYPE_INVALID"
    unfolding blk assms(9) by (rule first_block_split[OF assms(7,8)])
  ultimately show ?thesis
    using split_identity[OF assms(1,2) s0 assms(11) lim]
      translate_outside_store[OF assms(1,2) s0 assms(11) lim assms(12,13)]
    by (simp add: Let_def t)
qed


lemma sample_pages_low:
  "k < pd_index d mt 512 \<Longrightarrow> page_of (sample_pages k) < 0x100000"
proof -
  assume "k < pd_index d mt 512"
  then have k: "k + 0x100 < 0x100000" using pd_index_le[of d mt 512] by simp
  have "unat (of_nat (k + 0x100) :: u64) = k + 0x100" using k by (intro unat_of_nat_small) simp
  moreover have "page_of (sample_pages k) = of_nat (k + 0x100)"
  proof -
    have "take_bit 52 (of_nat (k + 0x100) :: u64) = of_nat (k + 0x100)"
      using calculation k by (intro take_bit_self_unat) simp
    moreover have "drop_bit 12 (push_bit 12 w) = take_bit 52 w" for w :: u64
      by (rule bit_word_eqI) (auto simp: bit_simps)
    ultimately show ?thesis unfolding page_of_def sample_pages_def by simp
  qed
  ultimately show ?thesis using k by (simp only: word_less_nat_alt) simp
qed

theorem guest_memory_below_1mb_witness:
  "let s' = configure_vmcs sample_machine 0x4000000000 (init_controls sdm sample_msrs)
              (sample_cpu\<lparr>cregs := sample_regs\<lparr>r_msr := sample_msrs\<rparr>\<rparr>)
   in sdm_translate (cmem s') (cpu_vmxread_value sample_machine (vmx s') (Ctrl VMCS_CTRL_EPT_POINTER)) 0x9D123 =
        Some (0x9D123, 6)"
proof -
  have "page_of ((0x4000000000 :: u64) + off_ept sdm) = 0x4000003"
    by (simp add: page_of_def cpu_state_layout align_page_def mask_numeral)
  then have "page_of ((0x4000000000 :: u64) + off_ept sdm) \<noteq> page_of (sample_pages k)"
    if "k < pd_index sdm sample_types_fn 512" for k
    using sample_pages_low[OF that] by auto
  then show ?thesis
    using guest_memory_below_1mb[of sample_machine "\<lambda>_. True" "sample_cpu\<lparr>cregs := sample_regs\<lparr>r_msr := sample_msrs\<rparr>\<rparr>"
        sample_state "0x4000000000" "0x9D123" "init_controls sdm sample_msrs"]
      map_vmx_laws sdm_vmcs_encodings sample_init sample_active sample_fresh_map
    by (simp add: sample_machine_def sample_cpu_def field_width_def aligned8_def cpu_state_layout align_page_def
        mask_numeral sdm_fixed_type_def sample_msrs_def fixed_types_def)
qed

end
